(* ===== verification/Prelude.thy ===== *)
theory Prelude
  imports Main "HOL-Library.Char_ord" "HOL-Library.List_Lexorder" "HOL-Library.Word"
begin

text \<open>
  Shared vocabulary of the development: the results a Go call can have, Go errors, the
  iteration order of Go maps, decimal printing, and the generic lemmas on lists and maps
  that the component theories use. Strings are byte strings, ordered as Go orders them
  (lexicographically by byte, from \<open>List_Lexorder\<close> and \<open>Char_ord\<close>).
\<close>

named_theorems go_simps \<open>evaluation rules of the result monad and its helpers\<close>

section \<open>What a call can do\<close>

text \<open>
  A Go call returns a value, panics, or never returns because it waits for a lock that
  nobody will release. An \<open>error\<close> result is part of the returned value, as in Go.
\<close>

datatype 'a outcome = Ret 'a | Panic string | Blocked

fun bind_outcome :: "'a outcome \<Rightarrow> ('a \<Rightarrow> 'b outcome) \<Rightarrow> 'b outcome" where
  "bind_outcome (Ret a) f = f a"
| "bind_outcome (Panic m) f = Panic m"
| "bind_outcome Blocked f = Blocked"

fun returns :: "'a outcome \<Rightarrow> bool" where
  "returns (Ret _) = True"
| "returns (Panic _) = False"
| "returns Blocked = False"

declare bind_outcome.simps [go_simps] returns.simps [go_simps]

lemma bind_outcome_Ret_iff:
  "bind_outcome m f = Ret b \<longleftrightarrow> (\<exists>a. m = Ret a \<and> f a = Ret b)"
  by (cases m) auto

lemma bind_outcome_assoc:
  "bind_outcome (bind_outcome m f) g = bind_outcome m (\<lambda>a. bind_outcome (f a) g)"
  by (cases m) auto

lemma returns_iff: "returns m \<longleftrightarrow> (\<exists>a. m = Ret a)"
  by (cases m) auto

lemma returns_bind:
  "returns (bind_outcome m f) \<longleftrightarrow> (\<exists>a. m = Ret a \<and> returns (f a))"
  by (cases m) auto

definition nil_deref :: string where
  "nil_deref = ''invalid memory address or nil pointer dereference''"

section \<open>Errors\<close>

text \<open>
  An error value is what the code can observe of it: its text, and for an error of the
  Kubernetes API whether \<open>errors.IsNotFound\<close> holds of it; \<open>ServerClosed\<close> is
  \<open>http.ErrServerClosed\<close>. A nil error is \<open>None\<close>.
\<close>

datatype go_error = Errorf string | ApiNotFound string | ServerClosed

fun error_text :: "go_error \<Rightarrow> string" where
  "error_text (Errorf m) = m"
| "error_text (ApiNotFound m) = m"
| "error_text ServerClosed = ''http: Server closed''"

fun is_not_found :: "go_error \<Rightarrow> bool" where
  "is_not_found (ApiNotFound _) = True"
| "is_not_found _ = False"

section \<open>Maps and their iteration order\<close>

text \<open>
  Go iterates over a map in an unspecified order. A loop over a map takes the order as an
  argument, a list \<open>it\<close> that enumerates the keys once.
\<close>

definition iterates :: "'k list \<Rightarrow> ('k \<rightharpoonup> 'v) \<Rightarrow> bool" where
  "iterates it m \<longleftrightarrow> distinct it \<and> set it = dom m"

lemma iterates_distinct [dest]: "iterates it m \<Longrightarrow> distinct it"
  by (simp add: iterates_def)

lemma iterates_dom: "iterates it m \<Longrightarrow> set it = dom m"
  by (simp add: iterates_def)

lemma iterates_lookup: "iterates it m \<Longrightarrow> k \<in> set it \<longleftrightarrow> (\<exists>v. m k = Some v)"
  by (auto simp: iterates_def)

lemma sort_iterates_unique:
  fixes it1 it2 :: "'k::linorder list"
  assumes "iterates it1 m" and "iterates it2 m"
  shows "sort it1 = sort it2"
proof -
  have "set (sort it1) = set (sort it2)" using assms by (simp add: iterates_def)
  moreover have "distinct (sort it1)" "distinct (sort it2)" using assms by (auto simp: iterates_def)
  moreover have "sorted (sort it1)" "sorted (sort it2)" by simp_all
  ultimately show ?thesis by (metis sorted_distinct_set_unique)
qed

section \<open>Decimal printing (strconv.Itoa)\<close>

definition digit_char :: "nat \<Rightarrow> char" where
  "digit_char d = char_of (48 + d)"

fun nat_digits :: "nat \<Rightarrow> string" where
  "nat_digits n = (if n < 10 then [digit_char n] else nat_digits (n div 10) @ [digit_char (n mod 10)])"

declare nat_digits.simps [simp del]

definition itoa :: "int \<Rightarrow> string" where
  "itoa i = (if i < 0 then CHR ''-'' # nat_digits (nat (- i)) else nat_digits (nat i))"

lemma digit_chars [simp]:
  "digit_char 0 = CHR ''0''" "digit_char (Suc 0) = CHR ''1''" "digit_char 1 = CHR ''1''" "digit_char 2 = CHR ''2''"
  "digit_char 3 = CHR ''3''" "digit_char 4 = CHR ''4''" "digit_char 5 = CHR ''5''" "digit_char 6 = CHR ''6''"
  "digit_char 7 = CHR ''7''" "digit_char 8 = CHR ''8''" "digit_char 9 = CHR ''9''"
  by (simp_all add: digit_char_def char_of_def bit_numeral_rec bit_Suc_0_iff)

text \<open>Printing is injective: the digits are read back by \<open>digits_val\<close>.\<close>

definition digits_val :: "string \<Rightarrow> nat" where
  "digits_val s = foldl (\<lambda>n c. n * 10 + (of_char c - 48)) 0 s"

lemma of_digit_char: "d < 10 \<Longrightarrow> of_char (digit_char d) = (48 + d :: nat)"
  by (simp add: digit_char_def)

lemma digits_val_nat_digits: "digits_val (nat_digits n) = n"
proof (induction n rule: nat_digits.induct)
  case (1 n)
  show ?case
  proof (cases "n < 10")
    case True
    then show ?thesis by (subst nat_digits.simps) (simp add: digits_val_def of_digit_char)
  next
    case False
    with 1 have "digits_val (nat_digits (n div 10)) = n div 10" by simp
    with False show ?thesis
      by (subst nat_digits.simps) (simp add: digits_val_def of_digit_char)
  qed
qed

lemma nat_digits_inj: "nat_digits m = nat_digits n \<longleftrightarrow> m = n"
  by (metis digits_val_nat_digits)

lemma nat_digits_chars: "c \<in> set (nat_digits n) \<Longrightarrow> \<exists>d < 10. c = digit_char d"
proof (induction n rule: nat_digits.induct)
  case (1 n)
  show ?case
  proof (cases "n < 10")
    case True
    with 1(2) show ?thesis by (subst (asm) nat_digits.simps) auto
  next
    case False
    with 1 show ?thesis by (subst (asm) (2) nat_digits.simps) (auto intro: exI [of _ "n mod 10"])
  qed
qed

lemma digit_char_minus: "d < 10 \<Longrightarrow> digit_char d \<noteq> CHR ''-''"
  using of_digit_char [of d] by auto

lemma nat_digits_no_minus: "nat_digits n \<noteq> CHR ''-'' # xs"
  using nat_digits_chars [of "CHR ''-''" n] digit_char_minus by (metis list.set_intros(1))

lemma itoa_inj: "itoa i = itoa j \<longleftrightarrow> i = j"
  using nat_digits_no_minus [of "nat j"] nat_digits_no_minus [of "nat i"]
  by (auto simp: itoa_def nat_digits_inj dest: sym split: if_splits)

end
