(* ===== verification/Cel.thy ===== *)
theory Cel
  imports Prelude
begin

text \<open>
  The values that cross the boundary to the CEL library (\<open>pkg/cel/utils/convert.go\<close>,
  \<open>pkg/cel/variables.go\<close>). The CEL evaluator itself is not code of this repository: its
  values are a type variable \<open>'v\<close>, its operations the fields of the record \<open>val_api\<close>,
  and a compiled program is a function from an activation to a result and an error, which the
  definitions that run it take as an argument. The types provider that declares the policy's
  variables is code of the repository and is modelled in full.
\<close>

section \<open>CEL types\<close>

datatype cel_type =
    BoolType | NullType | IntType | StringType | DoubleType | BytesType | DynType
  | ListType cel_type
  | ObjectType string
  | OpaqueType string
  | TypeTypeWithParam cel_type

text \<open>The request and response types of the two evaluation modes.\<close>

definition envoy_CheckRequest :: cel_type where
  "envoy_CheckRequest = ObjectType ''envoy.service.auth.v3.CheckRequest''"

definition envoy_CheckResponse :: cel_type where
  "envoy_CheckResponse = ObjectType ''envoy.service.auth.v3.CheckResponse''"

definition http_RequestType :: cel_type where
  "http_RequestType = ObjectType ''http.CheckRequest''"

definition http_ResponseType :: cel_type where
  "http_ResponseType = ObjectType ''http.CheckResponse''"

section \<open>Dynamic Go values\<close>

text \<open>
  What a Go variable of type \<open>any\<close> can hold where the code looks inside it: nothing, a
  bool, a value of the response type \<open>OUT\<close> (a pointer, so it may be nil: \<open>'o option\<close>),
  or something the code does not know.
\<close>

datatype 'o go_any = AnyNil | AnyBool bool | AnyOut "'o option" | AnyOther

fun any_bool :: "'o go_any \<Rightarrow> bool option" where
  "any_bool (AnyBool b) = Some b"
| "any_bool _ = None"

text \<open>
  The operations of \<open>ref.Val\<close> and of \<open>multierr\<close> that the code calls:
  \<open>v.ConvertToNative(bool)\<close>, \<open>v.Value()\<close>, the comparison with \<open>types.NullValue\<close>,
  \<open>types.WrapErr\<close> and \<open>multierr.Combine\<close>; the last field is the name \<open>%T\<close> prints
  for the response type.
\<close>

record ('v, 'o) val_api =
  native_bool :: "'v \<Rightarrow> go_error + 'o go_any"
  go_value :: "'v \<Rightarrow> 'o go_any"
  is_null_value :: "'v \<Rightarrow> bool"
  wrap_err :: "go_error \<Rightarrow> 'v"
  combine :: "go_error list \<Rightarrow> go_error option"
  out_type_name :: string

text \<open>
  What a program is run on: the request under \<open>object\<close> and, for rules and exceptions, the
  lazy map under \<open>variables\<close>; a key of that map yields the value of its callback, which
  may be the nil interface.
\<close>

record ('in, 'v) activation =
  act_object :: 'in
  act_variables :: "(string \<rightharpoonup> 'v option) option"

type_synonym ('in, 'v) program = "('in, 'v) activation \<Rightarrow> 'v option \<times> go_error option"

section \<open>Conversion to native values\<close>

text \<open>
  \<open>ConvertToNative[T]\<close>: the zero value of \<open>T\<close> and the error if the conversion failed,
  otherwise the result asserted to be a \<open>T\<close>, which panics when it is not.
\<close>

definition ConvertToNative :: "'t \<Rightarrow> ('a \<Rightarrow> 't option) \<Rightarrow> go_error + 'a \<Rightarrow> ('t \<times> go_error option) outcome" where
  "ConvertToNative zero assert_type response =
     (case response of
        Inl err \<Rightarrow> Ret (zero, Some err)
      | Inr v \<Rightarrow> (case assert_type v of
                   Some t \<Rightarrow> Ret (t, None)
                 | None \<Rightarrow> Panic ''interface conversion''))"

definition ConvertToBool :: "('v, 'o) val_api \<Rightarrow> 'v \<Rightarrow> (bool \<times> go_error option) outcome" where
  "ConvertToBool A v = ConvertToNative False any_bool (native_bool A v)"

lemma ConvertToNative_Inl [simp]: "ConvertToNative z a (Inl e) = Ret (z, Some e)"
  by (simp add: ConvertToNative_def)

lemma ConvertToNative_Inr: "a v = Some t \<Longrightarrow> ConvertToNative z a (Inr v) = Ret (t, None)"
  by (simp add: ConvertToNative_def)

lemma ConvertToNative_no_value_with_error:
  "ConvertToNative z a r = Ret (t, Some e) \<Longrightarrow> t = z \<and> r = Inl e"
  by (auto simp: ConvertToNative_def split: sum.splits option.splits)

section \<open>The provider of the variables type\<close>

text \<open>
  \<open>variablesProvider\<close> wraps the CEL type provider and adds one object type,
  \<open>kyverno.variables\<close>, whose fields are the variables registered so far. Lookups of any
  other type go to the wrapped provider, whose answers are the fields of
  \<open>inner_provider\<close>.
\<close>

definition VariablesType :: cel_type where
  "VariablesType = ObjectType ''kyverno.variables''"

definition variablesTypeType :: cel_type where
  "variablesTypeType = TypeTypeWithParam VariablesType"

definition variables_type_name :: string where
  "variables_type_name = ''kyverno.variables''"

record 'v inner_provider =
  inner_EnumValue :: "string \<Rightarrow> 'v"
  inner_FindIdent :: "string \<Rightarrow> 'v option"
  inner_FindStructType :: "string \<Rightarrow> cel_type option"
  inner_FindStructFieldNames :: "string \<Rightarrow> string list option"
  inner_FindStructFieldType :: "string \<Rightarrow> string \<Rightarrow> cel_type option"
  inner_NewValue :: "string \<Rightarrow> (string \<rightharpoonup> 'v) \<Rightarrow> 'v"

record 'v variablesProvider =
  inner :: "'v inner_provider"
  vfields :: "string \<rightharpoonup> cel_type"
  names :: "string list"

definition NewVariablesProvider :: "'v inner_provider \<Rightarrow> 'v variablesProvider" where
  "NewVariablesProvider i = \<lparr>inner = i, vfields = Map.empty, names = []\<rparr>"

definition RegisterField :: "'v variablesProvider \<Rightarrow> string \<Rightarrow> cel_type \<Rightarrow> 'v variablesProvider" where
  "RegisterField p name t = p\<lparr>vfields := (vfields p)(name \<mapsto> t), names := names p @ [name]\<rparr>"

definition EnumValue :: "'v variablesProvider \<Rightarrow> string \<Rightarrow> 'v" where
  "EnumValue p enumName = inner_EnumValue (inner p) enumName"

definition FindIdent :: "'v variablesProvider \<Rightarrow> string \<Rightarrow> 'v option" where
  "FindIdent p identName = inner_FindIdent (inner p) identName"

definition FindStructType :: "'v variablesProvider \<Rightarrow> string \<Rightarrow> cel_type option" where
  "FindStructType p structType =
     (if structType = variables_type_name then Some variablesTypeType
      else inner_FindStructType (inner p) structType)"

definition FindStructFieldNames :: "'v variablesProvider \<Rightarrow> string \<Rightarrow> string list option" where
  "FindStructFieldNames p structType =
     (if structType = variables_type_name then Some (names p)
      else inner_FindStructFieldNames (inner p) structType)"

definition FindStructFieldType :: "'v variablesProvider \<Rightarrow> string \<Rightarrow> string \<Rightarrow> cel_type option" where
  "FindStructFieldType p structType fieldName =
     (if structType = variables_type_name
      then (case vfields p fieldName of Some t \<Rightarrow> Some t | None \<Rightarrow> None)
      else inner_FindStructFieldType (inner p) structType fieldName)"

definition NewValue :: "'v variablesProvider \<Rightarrow> string \<Rightarrow> (string \<rightharpoonup> 'v) \<Rightarrow> 'v" where
  "NewValue p structType fs = inner_NewValue (inner p) structType fs"

text \<open>Registering a list of fields in order, as the compiler does for a policy.\<close>

definition register_all :: "'v variablesProvider \<Rightarrow> (string \<times> cel_type) list \<Rightarrow> 'v variablesProvider" where
  "register_all p vs = fold (\<lambda>(n, t) q. RegisterField q n t) vs p"

lemma register_all_simps [simp]:
  "register_all p [] = p"
  "register_all p ((n, t) # vs) = register_all (RegisterField p n t) vs"
  by (simp_all add: register_all_def)

lemma RegisterField_sel [simp]:
  "vfields (RegisterField p n t) = (vfields p)(n \<mapsto> t)"
  "names (RegisterField p n t) = names p @ [n]"
  "inner (RegisterField p n t) = inner p"
  by (simp_all add: RegisterField_def)

lemma register_all_inner [simp]: "inner (register_all p vs) = inner p"
  by (induction vs arbitrary: p) auto

lemma register_all_names: "names (register_all p vs) = names p @ map fst vs"
  by (induction vs arbitrary: p) auto

lemma register_all_fields: "vfields (register_all p vs) = vfields p ++ map_of (rev vs)"
proof (induction vs arbitrary: p)
  case Nil
  then show ?case by simp
next
  case (Cons v vs)
  obtain n t where "v = (n, t)" by (cases v)
  then show ?case by (simp add: Cons.IH map_add_upd_left map_add_def fun_eq_iff split: option.splits)
qed

text \<open>The two views the provider gives of its fields agree: the names it lists are the names it types.\<close>

definition provider_inv :: "'v variablesProvider \<Rightarrow> bool" where
  "provider_inv p \<longleftrightarrow> set (names p) = dom (vfields p)"

lemma provider_inv_new: "provider_inv (NewVariablesProvider i)"
  by (simp add: provider_inv_def NewVariablesProvider_def)

lemma provider_inv_register: "provider_inv p \<Longrightarrow> provider_inv (RegisterField p n t)"
  by (auto simp: provider_inv_def)

lemma provider_inv_register_all: "provider_inv p \<Longrightarrow> provider_inv (register_all p vs)"
  by (induction vs arbitrary: p) (auto simp: provider_inv_register)

end
