(* ===== verification/Strconv.thy ===== *)
theory Strconv
  imports Prelude
begin

text \<open>
  The pieces of Go's \<open>strconv\<close> and of its numeric conversions that the code relies on: 64-bit
  integers, \<open>Atoi\<close>, \<open>ParseBool\<close>, and 64-bit floating point numbers with the conversions to
  and from \<open>int\<close>, and \<open>ValidString\<close> of \<open>unicode/utf8\<close>. \<open>ParseFloat\<close> and the result of converting a float that no int can represent
  (which the language leaves to the machine) are fields of the record \<open>float_api\<close>.
\<close>

section \<open>Integers\<close>

type_synonym int64 = "64 word"

definition int64_range :: "int \<Rightarrow> bool" where
  "int64_range i \<longleftrightarrow> - (2 ^ 63) \<le> i \<and> i < 2 ^ 63"

definition is_digit :: "char \<Rightarrow> bool" where
  "is_digit c \<longleftrightarrow> 48 \<le> (of_char c :: nat) \<and> (of_char c :: nat) \<le> 57"

definition parse_digits :: "string \<Rightarrow> nat option" where
  "parse_digits s = (if s \<noteq> [] \<and> list_all is_digit s then Some (digits_val s) else None)"

text \<open>\<open>strconv.Atoi\<close>: an optional sign, at least one digit, a value that fits an int.\<close>

definition signed_digits :: "string \<Rightarrow> int option" where
  "signed_digits s =
     (case s of
        [] \<Rightarrow> None
      | c # cs \<Rightarrow>
          (if c = CHR ''-'' then map_option (\<lambda>n. - int n) (parse_digits cs)
           else if c = CHR ''+'' then map_option int (parse_digits cs)
           else map_option int (parse_digits (c # cs))))"

definition Atoi :: "string \<Rightarrow> int64 option" where
  "Atoi s = (case signed_digits s of
     Some i \<Rightarrow> if int64_range i then Some (word_of_int i) else None
   | None \<Rightarrow> None)"

lemma digit_char_is_digit: "d < 10 \<Longrightarrow> is_digit (digit_char d)"
  by (simp add: is_digit_def of_digit_char)

lemma nat_digits_digits: "list_all is_digit (nat_digits n)"
  using nat_digits_chars digit_char_is_digit by (fastforce simp: list_all_iff)

lemma nat_digits_nonempty: "nat_digits n \<noteq> []"
  by (subst nat_digits.simps) simp

lemma parse_nat_digits: "parse_digits (nat_digits n) = Some n"
  by (simp add: parse_digits_def nat_digits_digits nat_digits_nonempty digits_val_nat_digits)

lemma nat_digits_no_plus: "nat_digits n \<noteq> CHR ''+'' # xs"
  using nat_digits_digits [of n] by (auto simp: is_digit_def)

lemma signed_digits_itoa: "signed_digits (itoa i) = Some i"
proof (cases "i < 0")
  case True
  then show ?thesis by (simp add: itoa_def signed_digits_def parse_nat_digits)
next
  case False
  obtain c cs where c: "nat_digits (nat i) = c # cs" using nat_digits_nonempty [of "nat i"] by (cases "nat_digits (nat i)") auto
  then have "c \<noteq> CHR ''-''" "c \<noteq> CHR ''+''" using nat_digits_no_minus nat_digits_no_plus by metis+
  with c False parse_nat_digits [of "nat i"] show ?thesis by (simp add: itoa_def signed_digits_def)
qed

text \<open>Parsing reads back what printing wrote, for every int.\<close>

lemma sint_int64_range: "int64_range (sint (w :: int64))"
  using sint_ge [of w] sint_lt [of w] by (simp add: int64_range_def)

lemma Atoi_itoa: "Atoi (itoa (sint (w :: int64))) = Some w"
  by (simp add: Atoi_def signed_digits_itoa sint_int64_range)

section \<open>Booleans\<close>

definition ParseBool :: "string \<Rightarrow> bool option" where
  "ParseBool s =
     (if s \<in> {''1'', ''t'', ''T'', ''true'', ''TRUE'', ''True''} then Some True
      else if s \<in> {''0'', ''f'', ''F'', ''false'', ''FALSE'', ''False''} then Some False
      else None)"

section \<open>Floating point numbers\<close>

text \<open>
  A float is not a number, an infinity, or a finite number with a sign, a mantissa below
  \<open>2 ^ 53\<close> and an exponent.
\<close>

datatype float64 = NaN | Inf bool | Fin bool nat int

definition finite_value :: "nat \<Rightarrow> int \<Rightarrow> nat" where
  "finite_value m e = (if 0 \<le> e then m * 2 ^ nat e else m div 2 ^ nat (- e))"

record float_api =
  int_overflow :: "float64 \<Rightarrow> int64"
  ParseFloat :: "string \<Rightarrow> float64 option"

text \<open>\<open>int(v)\<close>: truncation towards zero when the result is an int.\<close>

definition float_to_int :: "float_api \<Rightarrow> float64 \<Rightarrow> int64" where
  "float_to_int F v =
     (case v of
        Fin neg m e \<Rightarrow>
          (let i = (if neg then - int (finite_value m e) else int (finite_value m e))
           in if int64_range i then word_of_int i else int_overflow F v)
      | _ \<Rightarrow> int_overflow F v)"

text \<open>\<open>float64(v)\<close>: the nearest float, ties to an even mantissa.\<close>

definition round_half_even :: "nat \<Rightarrow> nat \<Rightarrow> nat" where
  "round_half_even n d =
     (let q = n div d; r = n mod d
      in if 2 * r < d \<or> (2 * r = d \<and> even q) then q else q + 1)"

fun mantissa_shift :: "nat \<Rightarrow> nat" where
  "mantissa_shift n = (if n < 2 ^ 53 then 0 else Suc (mantissa_shift (n div 2)))"

declare mantissa_shift.simps [simp del]

definition nat_to_float :: "bool \<Rightarrow> nat \<Rightarrow> float64" where
  "nat_to_float neg n =
     (let k = mantissa_shift n; m = round_half_even n (2 ^ k)
      in if m = 2 ^ 53 then Fin neg (2 ^ 52) (int k + 1) else Fin neg m (int k))"

definition int_to_float :: "int64 \<Rightarrow> float64" where
  "int_to_float w = nat_to_float (sint w < 0) (nat \<bar>sint w\<bar>)"

text \<open>\<open>v != 0\<close> for a float: true for NaN and the infinities.\<close>

fun float_nonzero :: "float64 \<Rightarrow> bool" where
  "float_nonzero NaN = True"
| "float_nonzero (Inf _) = True"
| "float_nonzero (Fin _ m _) = (m \<noteq> 0)"

text \<open>An int of at most 53 bits survives the trip through a float.\<close>

lemma float_int_roundtrip:
  assumes "\<bar>sint w\<bar> < 2 ^ 53"
  shows "float_to_int F (int_to_float w) = w"
proof -
  let ?n = "nat \<bar>sint w\<bar>"
  have n: "?n < 2 ^ 53" using assms by simp
  then have "mantissa_shift ?n = 0" by (subst mantissa_shift.simps) simp
  with n have "int_to_float w = Fin (sint w < 0) ?n 0"
    by (simp add: int_to_float_def nat_to_float_def round_half_even_def)
  moreover have "(if sint w < 0 then - int ?n else int ?n) = sint w" by simp
  ultimately show ?thesis using sint_int64_range [of w] by (simp add: float_to_int_def finite_value_def)
qed

section \<open>Valid strings\<close>

text \<open>
  \<open>utf8.ValidString\<close>: continuation bytes, and the first bytes of sequences without overlong forms
  and surrogates.
\<close>

definition byte_in :: "nat \<Rightarrow> nat \<Rightarrow> char \<Rightarrow> bool" where
  "byte_in lo hi c \<longleftrightarrow> lo \<le> of_char c \<and> of_char c \<le> hi"

fun utf8_valid :: "string \<Rightarrow> bool" where
  "utf8_valid [] = True"
| "utf8_valid (c # s) =
     (if byte_in 0 0x7F c then utf8_valid s
      else case s of
        [] \<Rightarrow> False
      | c1 # s1 \<Rightarrow>
          if byte_in 0xC2 0xDF c then byte_in 0x80 0xBF c1 \<and> utf8_valid s1
          else case s1 of
            [] \<Rightarrow> False
          | c2 # s2 \<Rightarrow>
              if byte_in 0xE0 0xEF c
              then byte_in (if byte_in 0xE0 0xE0 c then 0xA0 else 0x80) (if byte_in 0xED 0xED c then 0x9F else 0xBF) c1
                \<and> byte_in 0x80 0xBF c2 \<and> utf8_valid s2
              else case s2 of
                [] \<Rightarrow> False
              | c3 # s3 \<Rightarrow>
                  byte_in 0xF0 0xF4 c
                  \<and> byte_in (if byte_in 0xF0 0xF0 c then 0x90 else 0x80) (if byte_in 0xF4 0xF4 c then 0x8F else 0xBF) c1
                  \<and> byte_in 0x80 0xBF c2 \<and> byte_in 0x80 0xBF c3 \<and> utf8_valid s3)"

declare utf8_valid.simps(2) [simp del]

lemma byte_in_ascii: "of_char c < (0x80 :: nat) \<Longrightarrow> byte_in 0 0x7F c"
  by (simp add: byte_in_def)

lemma utf8_valid_ascii: "(\<forall>c \<in> set s. of_char c < (0x80 :: nat)) \<Longrightarrow> utf8_valid s"
  by (induction s) (simp_all add: byte_in_ascii utf8_valid.simps(2))

lemma utf8_valid_itoa: "utf8_valid (itoa i)"
proof (rule utf8_valid_ascii)
  have "of_char c < (0x80 :: nat)" if "c \<in> set (nat_digits n)" for c n
    using nat_digits_chars [OF that] by (auto simp: of_digit_char)
  then show "\<forall>c \<in> set (itoa i). of_char c < (0x80 :: nat)" by (auto simp: itoa_def)
qed

end
