(* ===== verification/CelLib.thy ===== *)
theory CelLib
  imports Cel Strconv
begin

text \<open>
  What the CEL extension libraries of \<open>pkg/cel/libs\<close> have in common: the declaration of a
  function as a list of typed overloads with their Go bindings, the check that a declaration is
  well formed (the CEL library refuses ill-formed ones when the environment is built), and the
  conversion chain in which every binding starts, where the first argument that does not
  convert ends the call with an error value.
\<close>

section \<open>Overloads\<close>

datatype ('v, 'r) binding =
    NoArgs 'r
  | Unary "'v \<Rightarrow> 'r"
  | Binary "'v \<Rightarrow> 'v \<Rightarrow> 'r"
  | Nary "'v list \<Rightarrow> 'r"

record ('v, 'r) overload =
  ov_id :: string
  ov_member :: bool
  ov_params :: "cel_type list"
  ov_result :: cel_type
  ov_binding :: "('v, 'r) binding"

type_synonym ('v, 'r) lib_decls = "(string \<times> ('v, 'r) overload list) list"

definition Overload :: "string \<Rightarrow> cel_type list \<Rightarrow> cel_type \<Rightarrow> ('v, 'r) binding \<Rightarrow> ('v, 'r) overload" where
  "Overload i ps r b = \<lparr>ov_id = i, ov_member = False, ov_params = ps, ov_result = r, ov_binding = b\<rparr>"

definition MemberOverload :: "string \<Rightarrow> cel_type list \<Rightarrow> cel_type \<Rightarrow> ('v, 'r) binding \<Rightarrow> ('v, 'r) overload" where
  "MemberOverload i ps r b = \<lparr>ov_id = i, ov_member = True, ov_params = ps, ov_result = r, ov_binding = b\<rparr>"

definition lib_overloads :: "('v, 'r) lib_decls \<Rightarrow> ('v, 'r) overload list" where
  "lib_overloads ds = concat (map snd ds)"

definition arity_ok :: "('v, 'r) overload \<Rightarrow> bool" where
  "arity_ok ov \<longleftrightarrow> (case ov_binding ov of
      NoArgs _ \<Rightarrow> ov_params ov = []
    | Unary _ \<Rightarrow> length (ov_params ov) = 1
    | Binary _ \<Rightarrow> length (ov_params ov) = 2
    | Nary _ \<Rightarrow> True) \<and> (ov_member ov \<longrightarrow> ov_params ov \<noteq> [])"

text \<open>
  A library is well formed when its function names and overload ids are distinct, every binding
  takes as many arguments as its overload declares, and no two overloads of one function accept
  the same argument types in the same call style.
\<close>

definition decls_ok :: "('v, 'r) lib_decls \<Rightarrow> bool" where
  "decls_ok ds \<longleftrightarrow> distinct (map fst ds) \<and> distinct (map ov_id (lib_overloads ds))
     \<and> list_all arity_ok (lib_overloads ds)
     \<and> list_all (\<lambda>(_, ovs). distinct (map (\<lambda>ov. (ov_member ov, ov_params ov)) ovs)) ds"

lemmas decl_simps = decls_ok_def arity_ok_def lib_overloads_def Overload_def MemberOverload_def

text \<open>Calling a binding with the arguments of a call.\<close>

fun call_binding :: "('v, 'r outcome) binding \<Rightarrow> 'v list \<Rightarrow> 'r outcome" where
  "call_binding (NoArgs r) [] = r"
| "call_binding (Unary f) [a] = f a"
| "call_binding (Binary f) [a, b] = f a b"
| "call_binding (Nary f) args = f args"
| "call_binding _ _ = Panic ''no such overload''"

section \<open>Argument conversion\<close>

text \<open>
  The value adapter: the conversions of \<open>ref.Val\<close> to the native types that several libraries
  share, the way back, and \<open>types.WrapErr\<close>.
\<close>

record 'v adapter =
  native_string :: "'v \<Rightarrow> go_error + string"
  native_int :: "'v \<Rightarrow> go_error + int64"
  native_boolean :: "'v \<Rightarrow> go_error + bool"
  of_string :: "string \<Rightarrow> 'v"
  of_strings :: "string list \<Rightarrow> 'v"
  WrapErr :: "go_error \<Rightarrow> 'v"

definition convert :: "('v, 'm) adapter_scheme \<Rightarrow> go_error + 'a \<Rightarrow> ('a \<Rightarrow> 'v outcome) \<Rightarrow> 'v outcome" where
  "convert A r k = (case r of Inl err \<Rightarrow> Ret (WrapErr A err) | Inr a \<Rightarrow> k a)"

lemma convert_simps [simp]:
  "convert A (Inl err) k = Ret (WrapErr A err)" "convert A (Inr a) k = k a"
  by (simp_all add: convert_def)

lemma returns_convert: "returns (convert A r k) \<longleftrightarrow> (\<forall>a. r = Inr a \<longrightarrow> returns (k a))"
  by (cases r) auto

text \<open>Indexing the argument slice.\<close>

definition index_out_of_range :: string where
  "index_out_of_range = ''index out of range''"

definition arg :: "'v list \<Rightarrow> nat \<Rightarrow> ('v \<Rightarrow> 'r outcome) \<Rightarrow> 'r outcome" where
  "arg args i k = (if i < length args then k (args ! i) else Panic index_out_of_range)"

lemma arg_simps [simp]:
  "arg [] i k = Panic index_out_of_range"
  "arg (a # args) 0 k = k a"
  "arg (a # args) (Suc i) k = arg args i k"
  by (simp_all add: arg_def)

lemma arg_one [simp]: "arg (a # args) 1 k = arg args 0 k" "arg (a # args) 2 k = arg args 1 k"
  by (simp_all add: arg_def nth_Cons')

end
