(* ===== verification/Mcp.thy ===== *)
theory Mcp
  imports CelLib
begin

text \<open>
  Requests of the Model Context Protocol as policies see them: the parsed request and its typed
  argument getters (\<open>pkg/cel/libs/mcp/types.go\<close>), parsing by method
  (\<open>pkg/cel/impl/mcp.go\<close>), the CEL bindings (\<open>pkg/cel/libs/mcp/impl.go\<close>) and the
  declarations of the library (\<open>pkg/cel/libs/mcp/lib.go\<close>). JSON decoding and the parameter
  types of the MCP package are arguments: a parameter type is read only where it carries
  arguments, everything else of it is the type variable \<open>'x\<close>.
\<close>

section \<open>Dynamic values\<close>

text \<open>
  What an argument of type \<open>any\<close> can hold where the code looks at it. A Go map may be nil
  (\<open>None\<close>), and a lookup in a nil map finds nothing.
\<close>

datatype go_val =
    GNil
  | GBool bool
  | GInt int64
  | GFloat float64
  | GString string
  | GStrings "string list"
  | GInts "int64 list"
  | GFloats "float64 list"
  | GBools "bool list"
  | GList "go_val list"
  | GMap "(string \<Rightarrow> go_val option) option"
  | GStringMap "(string \<Rightarrow> string option) option"
  | GOther

section \<open>Requests\<close>

record 'x CallToolParams =
  tool_Arguments :: go_val
  tool_rest :: 'x

record 'x ReadResourceParams =
  read_Arguments :: "(string \<Rightarrow> go_val option) option"
  read_rest :: 'x

record 'x GetPromptParams =
  prompt_Arguments :: "(string \<Rightarrow> string option) option"
  prompt_rest :: 'x

record ('id, 'x) MCPRequest =
  Method :: string
  ID :: 'id
  Paginated :: "'x option"
  ToolCall :: "'x CallToolParams option"
  ResourceRead :: "'x ReadResourceParams option"
  ResourceSubscribe :: "'x option"
  ResourceUnsubscribe :: "'x option"
  PromptGet :: "'x GetPromptParams option"
  Initialize :: "'x option"
  CreateMessage :: "'x option"
  Elicitation :: "'x option"
  Complete :: "'x option"
  SetLogLevel :: "'x option"

definition empty_request :: "string \<Rightarrow> 'id \<Rightarrow> ('id, 'x) MCPRequest" where
  "empty_request method i = \<lparr>Method = method, ID = i, Paginated = None, ToolCall = None,
     ResourceRead = None, ResourceSubscribe = None, ResourceUnsubscribe = None, PromptGet = None,
     Initialize = None, CreateMessage = None, Elicitation = None, Complete = None, SetLogLevel = None\<rparr>"

section \<open>Arguments\<close>

definition GetArguments :: "('id, 'x) MCPRequest \<Rightarrow> (string \<Rightarrow> go_val option) option" where
  "GetArguments r =
     (case (case ToolCall r of
              Some tc \<Rightarrow> (case tool_Arguments tc of GMap args \<Rightarrow> Some args | _ \<Rightarrow> None)
            | None \<Rightarrow> None) of
        Some args \<Rightarrow> args
      | None \<Rightarrow>
          (case (case ResourceRead r of Some rr \<Rightarrow> read_Arguments rr | None \<Rightarrow> None) of
             Some args \<Rightarrow> Some args
           | None \<Rightarrow>
               (case (case PromptGet r of Some pg \<Rightarrow> prompt_Arguments pg | None \<Rightarrow> None) of
                  Some args \<Rightarrow> Some (\<lambda>k. map_option GString (args k))
                | None \<Rightarrow> None)))"

definition GetRawArguments :: "('id, 'x) MCPRequest \<Rightarrow> go_val" where
  "GetRawArguments r =
     (case ToolCall r of
        Some tc \<Rightarrow> tool_Arguments tc
      | None \<Rightarrow>
          (case ResourceRead r of
             Some rr \<Rightarrow> GMap (read_Arguments rr)
           | None \<Rightarrow>
               (case PromptGet r of
                  Some pg \<Rightarrow> GStringMap (prompt_Arguments pg)
                | None \<Rightarrow> GNil)))"

definition lookup_arg :: "('id, 'x) MCPRequest \<Rightarrow> string \<Rightarrow> go_val option" where
  "lookup_arg r key = (case GetArguments r of Some args \<Rightarrow> args key | None \<Rightarrow> None)"

section \<open>Typed getters\<close>

text \<open>The type switches: what a value yields as a string, int, float or bool, if anything.\<close>

fun as_string :: "go_val \<Rightarrow> string option" where
  "as_string (GString s) = Some s"
| "as_string _ = None"

fun as_int :: "float_api \<Rightarrow> go_val \<Rightarrow> int64 option" where
  "as_int F (GInt v) = Some v"
| "as_int F (GFloat v) = Some (float_to_int F v)"
| "as_int F (GString v) = Atoi v"
| "as_int F _ = None"

fun as_float :: "float_api \<Rightarrow> go_val \<Rightarrow> float64 option" where
  "as_float F (GFloat v) = Some v"
| "as_float F (GInt v) = Some (int_to_float v)"
| "as_float F (GString v) = ParseFloat F v"
| "as_float F _ = None"

fun as_bool :: "go_val \<Rightarrow> bool option" where
  "as_bool (GBool v) = Some v"
| "as_bool (GString v) = ParseBool v"
| "as_bool (GInt v) = Some (v \<noteq> 0)"
| "as_bool (GFloat v) = Some (float_nonzero v)"
| "as_bool _ = None"

definition GetStringArgument :: "('id, 'x) MCPRequest \<Rightarrow> string \<Rightarrow> string \<Rightarrow> string" where
  "GetStringArgument r key defaultValue =
     (case lookup_arg r key of
        Some val \<Rightarrow> (case as_string val of Some v \<Rightarrow> v | None \<Rightarrow> defaultValue)
      | None \<Rightarrow> defaultValue)"

definition GetIntArgument :: "float_api \<Rightarrow> ('id, 'x) MCPRequest \<Rightarrow> string \<Rightarrow> int64 \<Rightarrow> int64" where
  "GetIntArgument F r key defaultValue =
     (case lookup_arg r key of
        Some val \<Rightarrow> (case as_int F val of Some v \<Rightarrow> v | None \<Rightarrow> defaultValue)
      | None \<Rightarrow> defaultValue)"

definition GetFloatArgument :: "float_api \<Rightarrow> ('id, 'x) MCPRequest \<Rightarrow> string \<Rightarrow> float64 \<Rightarrow> float64" where
  "GetFloatArgument F r key defaultValue =
     (case lookup_arg r key of
        Some val \<Rightarrow> (case as_float F val of Some v \<Rightarrow> v | None \<Rightarrow> defaultValue)
      | None \<Rightarrow> defaultValue)"

definition GetBoolArgument :: "('id, 'x) MCPRequest \<Rightarrow> string \<Rightarrow> bool \<Rightarrow> bool" where
  "GetBoolArgument r key defaultValue =
     (case lookup_arg r key of
        Some val \<Rightarrow> (case as_bool val of Some v \<Rightarrow> v | None \<Rightarrow> defaultValue)
      | None \<Rightarrow> defaultValue)"

text \<open>
  The slice getters: a slice of the right type as it is, of a mixed list the items that convert,
  in order, the others dropped.
\<close>

fun convert_items :: "(go_val \<Rightarrow> 'a option) \<Rightarrow> go_val list \<Rightarrow> 'a list" where
  "convert_items conv [] = []"
| "convert_items conv (item # items) =
     (case conv item of Some v \<Rightarrow> v # convert_items conv items | None \<Rightarrow> convert_items conv items)"

fun as_strings :: "go_val \<Rightarrow> string list option" where
  "as_strings (GStrings v) = Some v"
| "as_strings (GList v) = Some (convert_items as_string v)"
| "as_strings _ = None"

fun as_ints :: "float_api \<Rightarrow> go_val \<Rightarrow> int64 list option" where
  "as_ints F (GInts v) = Some v"
| "as_ints F (GList v) = Some (convert_items (as_int F) v)"
| "as_ints F _ = None"

fun as_floats :: "float_api \<Rightarrow> go_val \<Rightarrow> float64 list option" where
  "as_floats F (GFloats v) = Some v"
| "as_floats F (GList v) = Some (convert_items (as_float F) v)"
| "as_floats F _ = None"

fun as_bools :: "go_val \<Rightarrow> bool list option" where
  "as_bools (GBools v) = Some v"
| "as_bools (GList v) = Some (convert_items as_bool v)"
| "as_bools _ = None"

definition GetStringSliceArgument :: "('id, 'x) MCPRequest \<Rightarrow> string \<Rightarrow> string list \<Rightarrow> string list" where
  "GetStringSliceArgument r key defaultValue =
     (case lookup_arg r key of
        Some val \<Rightarrow> (case as_strings val of Some v \<Rightarrow> v | None \<Rightarrow> defaultValue)
      | None \<Rightarrow> defaultValue)"

definition GetIntSliceArgument :: "float_api \<Rightarrow> ('id, 'x) MCPRequest \<Rightarrow> string \<Rightarrow> int64 list \<Rightarrow> int64 list" where
  "GetIntSliceArgument F r key defaultValue =
     (case lookup_arg r key of
        Some val \<Rightarrow> (case as_ints F val of Some v \<Rightarrow> v | None \<Rightarrow> defaultValue)
      | None \<Rightarrow> defaultValue)"

definition GetFloatSliceArgument :: "float_api \<Rightarrow> ('id, 'x) MCPRequest \<Rightarrow> string \<Rightarrow> float64 list \<Rightarrow> float64 list" where
  "GetFloatSliceArgument F r key defaultValue =
     (case lookup_arg r key of
        Some val \<Rightarrow> (case as_floats F val of Some v \<Rightarrow> v | None \<Rightarrow> defaultValue)
      | None \<Rightarrow> defaultValue)"

definition GetBoolSliceArgument :: "('id, 'x) MCPRequest \<Rightarrow> string \<Rightarrow> bool list \<Rightarrow> bool list" where
  "GetBoolSliceArgument r key defaultValue =
     (case lookup_arg r key of
        Some val \<Rightarrow> (case as_bools val of Some v \<Rightarrow> v | None \<Rightarrow> defaultValue)
      | None \<Rightarrow> defaultValue)"

section \<open>Interface: typed access to the arguments\<close>

text \<open>
  The contract the getters share: a getter is its conversion applied to the argument the request
  has under the key, or the default. The lemmas are what a policy may rely on.
\<close>

locale typed_getter =
  fixes get :: "('id, 'x) MCPRequest \<Rightarrow> string \<Rightarrow> 'r \<Rightarrow> 'r" and conv :: "go_val \<Rightarrow> 'r option"
  assumes get_conv: "get r key d = (case Option.bind (lookup_arg r key) conv of Some v \<Rightarrow> v | None \<Rightarrow> d)"
begin

lemma missing: "lookup_arg r key = None \<Longrightarrow> get r key d = d"
  by (simp add: get_conv)

lemma found: "lookup_arg r key = Some val \<Longrightarrow> conv val = Some v \<Longrightarrow> get r key d = v"
  by (simp add: get_conv)

lemma unconvertible: "lookup_arg r key = Some val \<Longrightarrow> conv val = None \<Longrightarrow> get r key d = d"
  by (simp add: get_conv)

lemma by_arguments: "GetArguments r = GetArguments q \<Longrightarrow> get r key d = get q key d"
  by (simp add: get_conv lookup_arg_def)

lemma default_or_value:
  "(\<forall>d. get r key d = d) \<or> (\<exists>v. \<forall>d. get r key d = v)"
  by (cases "Option.bind (lookup_arg r key) conv") (auto simp: get_conv)

end

lemma bind_case: "(case (case x of None \<Rightarrow> None | Some v \<Rightarrow> f v) of None \<Rightarrow> d | Some v \<Rightarrow> v)
    = (case x of None \<Rightarrow> d | Some v \<Rightarrow> (case f v of None \<Rightarrow> d | Some w \<Rightarrow> w))"
  by (cases x) auto

lemma bind_as_case: "Option.bind x f = (case x of None \<Rightarrow> None | Some v \<Rightarrow> f v)"
  by (cases x) auto

lemmas getter_defs = bind_as_case bind_case GetStringArgument_def GetIntArgument_def GetFloatArgument_def
  GetBoolArgument_def GetStringSliceArgument_def GetIntSliceArgument_def GetFloatSliceArgument_def
  GetBoolSliceArgument_def

interpretation str_arg: typed_getter GetStringArgument as_string
  by unfold_locales (simp add: getter_defs)

interpretation int_arg: typed_getter "GetIntArgument F" "as_int F" for F
  by unfold_locales (simp add: getter_defs)

interpretation float_arg: typed_getter "GetFloatArgument F" "as_float F" for F
  by unfold_locales (simp add: getter_defs)

interpretation bool_arg: typed_getter GetBoolArgument as_bool
  by unfold_locales (simp add: getter_defs)

interpretation strs_arg: typed_getter GetStringSliceArgument as_strings
  by unfold_locales (simp add: getter_defs)

interpretation ints_arg: typed_getter "GetIntSliceArgument F" "as_ints F" for F
  by unfold_locales (simp add: getter_defs)

interpretation floats_arg: typed_getter "GetFloatSliceArgument F" "as_floats F" for F
  by unfold_locales (simp add: getter_defs)

interpretation bools_arg: typed_getter GetBoolSliceArgument as_bools
  by unfold_locales (simp add: getter_defs)

section \<open>Parsing\<close>

text \<open>
  The MCP package: its method names, and decoding of a JSON body into the envelope (method and
  id) or into the parameters of one kind.
\<close>

record ('id, 'x) mcp_package =
  MethodInitialize :: string
  MethodPing :: string
  MethodResourcesList :: string
  MethodResourcesTemplatesList :: string
  MethodToolsList :: string
  MethodPromptsList :: string
  MethodResourcesRead :: string
  MethodToolsCall :: string
  MethodSetLogLevel :: string
  MethodPromptsGet :: string
  MethodElicitationCreate :: string
  dec_request :: "string \<Rightarrow> go_error + string \<times> 'id"
  dec_initialize :: "string \<Rightarrow> go_error + 'x"
  dec_paginated :: "string \<Rightarrow> go_error + 'x"
  dec_read :: "string \<Rightarrow> go_error + 'x ReadResourceParams"
  dec_tool :: "string \<Rightarrow> go_error + 'x CallToolParams"
  dec_level :: "string \<Rightarrow> go_error + 'x"
  dec_prompt :: "string \<Rightarrow> go_error + 'x GetPromptParams"
  dec_elicitation :: "string \<Rightarrow> go_error + 'x"

definition unmarshalParams :: "(string \<Rightarrow> go_error + 'p) \<Rightarrow> string \<Rightarrow> go_error + 'p" where
  "unmarshalParams decode content =
     (case decode content of Inl err \<Rightarrow> Inl err | Inr params \<Rightarrow> Inr params)"

definition with_params :: "go_error + 'p \<Rightarrow> ('p \<Rightarrow> 'r) \<Rightarrow> go_error + 'r" where
  "with_params p f = (case p of Inl err \<Rightarrow> Inl err | Inr params \<Rightarrow> Inr (f params))"

definition Parse :: "('id, 'x) mcp_package \<Rightarrow> string \<Rightarrow> go_error + ('id, 'x) MCPRequest" where
  "Parse M content =
     (case dec_request M content of
        Inl err \<Rightarrow> Inl err
      | Inr (method, i) \<Rightarrow>
          (let mcpReq = empty_request method i in
           if method = MethodInitialize M then
             with_params (unmarshalParams (dec_initialize M) content) (\<lambda>params. mcpReq\<lparr>Initialize := Some params\<rparr>)
           else if method = MethodPing M then Inr mcpReq
           else if method \<in> {MethodResourcesList M, MethodResourcesTemplatesList M, MethodToolsList M, MethodPromptsList M} then
             with_params (unmarshalParams (dec_paginated M) content) (\<lambda>params. mcpReq\<lparr>Paginated := Some params\<rparr>)
           else if method = MethodResourcesRead M then
             with_params (unmarshalParams (dec_read M) content) (\<lambda>params. mcpReq\<lparr>ResourceRead := Some params\<rparr>)
           else if method = MethodToolsCall M then
             with_params (unmarshalParams (dec_tool M) content) (\<lambda>params. mcpReq\<lparr>ToolCall := Some params\<rparr>)
           else if method = MethodSetLogLevel M then
             with_params (unmarshalParams (dec_level M) content) (\<lambda>params. mcpReq\<lparr>SetLogLevel := Some params\<rparr>)
           else if method = MethodPromptsGet M then
             with_params (unmarshalParams (dec_prompt M) content) (\<lambda>params. mcpReq\<lparr>PromptGet := Some params\<rparr>)
           else if method = MethodElicitationCreate M then
             with_params (unmarshalParams (dec_elicitation M) content) (\<lambda>params. mcpReq\<lparr>Elicitation := Some params\<rparr>)
           else Inr mcpReq))"

section \<open>CEL bindings\<close>

text \<open>
  The conversions this library adds: the parser value, which may hold no parser, the request
  pointer, which may be nil, numbers and slices.
\<close>

record ('v, 'id, 'x) mcp_adapter = "'v adapter" +
  native_mcp :: "'v \<Rightarrow> go_error + (string \<Rightarrow> go_error + ('id, 'x) MCPRequest) option"
  native_request :: "'v \<Rightarrow> go_error + ('id, 'x) MCPRequest option"
  native_float :: "'v \<Rightarrow> go_error + float64"
  native_strings :: "'v \<Rightarrow> go_error + string list"
  native_ints :: "'v \<Rightarrow> go_error + int64 list"
  native_floats :: "'v \<Rightarrow> go_error + float64 list"
  native_bools :: "'v \<Rightarrow> go_error + bool list"
  of_request :: "('id, 'x) MCPRequest \<Rightarrow> 'v"
  of_integer :: "int64 \<Rightarrow> 'v"
  of_float :: "float64 \<Rightarrow> 'v"
  of_boolean :: "bool \<Rightarrow> 'v"
  of_ints :: "int64 list \<Rightarrow> 'v"
  of_floats :: "float64 list \<Rightarrow> 'v"
  of_bools :: "bool list \<Rightarrow> 'v"

definition mcp_parse :: "('v, 'id, 'x) mcp_adapter \<Rightarrow> 'v \<Rightarrow> 'v \<Rightarrow> 'v outcome" where
  "mcp_parse A mcp value =
     convert A (native_mcp A mcp) (\<lambda>mcpImpl.
     convert A (native_string A value) (\<lambda>stringBody.
       (case mcpImpl of
          None \<Rightarrow> Panic nil_deref
        | Some parse \<Rightarrow>
            (case parse stringBody of
               Inl err \<Rightarrow> Ret (WrapErr A err)
             | Inr mcpRequest \<Rightarrow> Ret (of_request A mcpRequest)))))"

text \<open>
  The eight getter bindings differ only in the type of the default and the getter they call;
  a method call on a nil request pointer dereferences it.
\<close>

definition mcp_get :: "('v, 'id, 'x) mcp_adapter \<Rightarrow> ('v \<Rightarrow> go_error + 'r) \<Rightarrow> ('r \<Rightarrow> 'v)
    \<Rightarrow> (('id, 'x) MCPRequest \<Rightarrow> string \<Rightarrow> 'r \<Rightarrow> 'r) \<Rightarrow> 'v list \<Rightarrow> 'v outcome" where
  "mcp_get A native of_native get args =
     arg args 0 (\<lambda>a0. convert A (native_request A a0) (\<lambda>mcpRequest.
     arg args 1 (\<lambda>a1. convert A (native_string A a1) (\<lambda>key.
     arg args 2 (\<lambda>a2. convert A (native a2) (\<lambda>defaultValue.
       (case mcpRequest of
          None \<Rightarrow> Panic nil_deref
        | Some r \<Rightarrow> Ret (of_native (get r key defaultValue)))))))))"

definition mcp_get_string :: "('v, 'id, 'x) mcp_adapter \<Rightarrow> 'v list \<Rightarrow> 'v outcome" where
  "mcp_get_string A args = mcp_get A (native_string A) (of_string A) GetStringArgument args"

definition mcp_get_int :: "float_api \<Rightarrow> ('v, 'id, 'x) mcp_adapter \<Rightarrow> 'v list \<Rightarrow> 'v outcome" where
  "mcp_get_int F A args = mcp_get A (native_int A) (of_integer A) (GetIntArgument F) args"

definition mcp_get_float :: "float_api \<Rightarrow> ('v, 'id, 'x) mcp_adapter \<Rightarrow> 'v list \<Rightarrow> 'v outcome" where
  "mcp_get_float F A args = mcp_get A (native_float A) (of_float A) (GetFloatArgument F) args"

definition mcp_get_bool :: "('v, 'id, 'x) mcp_adapter \<Rightarrow> 'v list \<Rightarrow> 'v outcome" where
  "mcp_get_bool A args = mcp_get A (native_boolean A) (of_boolean A) GetBoolArgument args"

definition mcp_get_string_slice :: "('v, 'id, 'x) mcp_adapter \<Rightarrow> 'v list \<Rightarrow> 'v outcome" where
  "mcp_get_string_slice A args = mcp_get A (native_strings A) (of_strings A) GetStringSliceArgument args"

definition mcp_get_int_slice :: "float_api \<Rightarrow> ('v, 'id, 'x) mcp_adapter \<Rightarrow> 'v list \<Rightarrow> 'v outcome" where
  "mcp_get_int_slice F A args = mcp_get A (native_ints A) (of_ints A) (GetIntSliceArgument F) args"

definition mcp_get_float_slice :: "float_api \<Rightarrow> ('v, 'id, 'x) mcp_adapter \<Rightarrow> 'v list \<Rightarrow> 'v outcome" where
  "mcp_get_float_slice F A args = mcp_get A (native_floats A) (of_floats A) (GetFloatSliceArgument F) args"

definition mcp_get_bool_slice :: "('v, 'id, 'x) mcp_adapter \<Rightarrow> 'v list \<Rightarrow> 'v outcome" where
  "mcp_get_bool_slice A args = mcp_get A (native_bools A) (of_bools A) GetBoolSliceArgument args"

lemmas mcp_get_defs = mcp_get_string_def mcp_get_int_def mcp_get_float_def mcp_get_bool_def
  mcp_get_string_slice_def mcp_get_int_slice_def mcp_get_float_slice_def mcp_get_bool_slice_def

section \<open>The library\<close>

definition mcp_LibraryName :: string where
  "mcp_LibraryName = ''kyverno.mcp''"

definition MCPType :: cel_type where
  "MCPType = OpaqueType ''mcp.MCP''"

definition MCPRequestType :: cel_type where
  "MCPRequestType = ObjectType ''mcp.MCPRequest''"

definition mcpConstants :: "('id, 'x) mcp_package \<Rightarrow> (string \<times> string) list" where
  "mcpConstants M =
     [(''InitializeMethod'', MethodInitialize M), (''PingMethod'', MethodPing M),
      (''ResourcesListMethod'', MethodResourcesList M),
      (''ResourcesTemplatesListMethod'', MethodResourcesTemplatesList M),
      (''ResourcesReadMethod'', MethodResourcesRead M), (''PromptsListMethod'', MethodPromptsList M),
      (''PromptsGetMethod'', MethodPromptsGet M), (''ToolsListMethod'', MethodToolsList M),
      (''ToolsCallMethod'', MethodToolsCall M), (''SetLogLevelMethod'', MethodSetLogLevel M),
      (''ElicitationCreateMethod'', MethodElicitationCreate M)]"

definition mcp_constant_options :: "('id, 'x) mcp_package \<Rightarrow> (string \<times> string) list" where
  "mcp_constant_options M = map (\<lambda>(name, value). (''mcp.'' @ name, value)) (mcpConstants M)"

definition mcp_decls :: "float_api \<Rightarrow> ('v, 'id, 'x) mcp_adapter \<Rightarrow> ('v, 'v outcome) lib_decls" where
  "mcp_decls F A =
     [(''Parse'', [MemberOverload ''mcp_parse_bytes_dyn'' [MCPType, DynType] MCPRequestType (Binary (mcp_parse A))]),
      (''GetStringArgument'', [MemberOverload ''mcp_get_string''
         [MCPRequestType, StringType, StringType] StringType (Nary (mcp_get_string A))]),
      (''GetIntArgument'', [MemberOverload ''mcp_get_int''
         [MCPRequestType, StringType, IntType] IntType (Nary (mcp_get_int F A))]),
      (''GetFloatArgument'', [MemberOverload ''mcp_get_float''
         [MCPRequestType, StringType, DoubleType] DoubleType (Nary (mcp_get_float F A))]),
      (''GetBoolArgument'', [MemberOverload ''mcp_get_bool''
         [MCPRequestType, StringType, BoolType] BoolType (Nary (mcp_get_bool A))]),
      (''GetStringSliceArgument'', [MemberOverload ''mcp_get_string_slice''
         [MCPRequestType, StringType, ListType StringType] (ListType StringType) (Nary (mcp_get_string_slice A))]),
      (''GetIntSliceArgument'', [MemberOverload ''mcp_get_int_slice''
         [MCPRequestType, StringType, ListType IntType] (ListType IntType) (Nary (mcp_get_int_slice F A))]),
      (''GetFloatSliceArgument'', [MemberOverload ''mcp_get_float_slice''
         [MCPRequestType, StringType, ListType DoubleType] (ListType DoubleType) (Nary (mcp_get_float_slice F A))]),
      (''GetBoolSliceArgument'', [MemberOverload ''mcp_get_bool_slice''
         [MCPRequestType, StringType, ListType BoolType] (ListType BoolType) (Nary (mcp_get_bool_slice A))])]"

lemma mcp_decls_ok: "decls_ok (mcp_decls F A)"
  by (simp add: decl_simps mcp_decls_def)

lemma with_params_Inr: "with_params p f = Inr r \<longleftrightarrow> (\<exists>a. p = Inr a \<and> r = f a)"
  by (auto simp: with_params_def split: sum.splits)

lemma unmarshalParams_id: "unmarshalParams dec content = dec content"
  by (simp add: unmarshalParams_def split: sum.split)

lemma convert_items_map_filter: "convert_items conv vs = List.map_filter conv vs"
  by (induction vs) (auto simp: map_filter_simps split: option.split)

lemma convert_items_filter: "convert_items conv vs = map (the \<circ> conv) (filter (\<lambda>v. conv v \<noteq> None) vs)"
  by (simp add: convert_items_map_filter map_filter_def comp_def)

lemma returns_mcp_get:
  assumes "native_request A (hd args) \<noteq> Inr None" and "length args = 3"
  shows "returns (mcp_get A native of_native get args)"
  using assms by (auto simp: mcp_get_def returns_convert numeral_3_eq_3 length_Suc_conv split: option.split)

definition method_names :: "('id, 'x) mcp_package \<Rightarrow> string list" where
  "method_names M = map snd (mcpConstants M)"

text \<open>The shapes of a parsed request, one per group of methods.\<close>

inductive parsed_shape :: "('id, 'x) mcp_package \<Rightarrow> string \<Rightarrow> 'id \<Rightarrow> ('id, 'x) MCPRequest \<Rightarrow> bool" for M m i where
  "m = MethodInitialize M \<Longrightarrow> parsed_shape M m i ((empty_request m i)\<lparr>Initialize := Some p\<rparr>)"
| "m = MethodPing M \<Longrightarrow> parsed_shape M m i (empty_request m i)"
| "m \<in> {MethodResourcesList M, MethodResourcesTemplatesList M, MethodToolsList M, MethodPromptsList M} \<Longrightarrow>
     parsed_shape M m i ((empty_request m i)\<lparr>Paginated := Some p\<rparr>)"
| "m = MethodResourcesRead M \<Longrightarrow> parsed_shape M m i ((empty_request m i)\<lparr>ResourceRead := Some q\<rparr>)"
| "m = MethodToolsCall M \<Longrightarrow> parsed_shape M m i ((empty_request m i)\<lparr>ToolCall := Some t\<rparr>)"
| "m = MethodSetLogLevel M \<Longrightarrow> parsed_shape M m i ((empty_request m i)\<lparr>SetLogLevel := Some p\<rparr>)"
| "m = MethodPromptsGet M \<Longrightarrow> parsed_shape M m i ((empty_request m i)\<lparr>PromptGet := Some g\<rparr>)"
| "m = MethodElicitationCreate M \<Longrightarrow> parsed_shape M m i ((empty_request m i)\<lparr>Elicitation := Some p\<rparr>)"
| "m \<notin> set (method_names M) \<Longrightarrow> parsed_shape M m i (empty_request m i)"

lemma Parse_shape:
  assumes "Parse M content = Inr r"
  obtains m i where "dec_request M content = Inr (m, i)" "parsed_shape M m i r"
proof -
  obtain m i where d: "dec_request M content = Inr (m, i)"
    using assms by (auto simp: Parse_def split: sum.splits)
  moreover have "parsed_shape M m i r"
    using assms d
    by (auto simp: Parse_def Let_def with_params_Inr method_names_def mcpConstants_def
        intro: parsed_shape.intros [unfolded method_names_def mcpConstants_def] split: if_splits)
  ultimately show ?thesis using that by blast
qed

section \<open>A sample package\<close>

text \<open>The method names of the protocol, and a decoder of a one-word request language.\<close>

definition sample_package :: "(nat, unit) mcp_package" where
  "sample_package =
    \<lparr>MethodInitialize = ''initialize'', MethodPing = ''ping'', MethodResourcesList = ''resources/list'',
     MethodResourcesTemplatesList = ''resources/templates/list'', MethodToolsList = ''tools/list'',
     MethodPromptsList = ''prompts/list'', MethodResourcesRead = ''resources/read'',
     MethodToolsCall = ''tools/call'', MethodSetLogLevel = ''logging/setLevel'',
     MethodPromptsGet = ''prompts/get'', MethodElicitationCreate = ''elicitation/create'',
     dec_request = (\<lambda>s. if s = [] then Inl (Errorf ''unexpected end of JSON input'') else Inr (s, 7)),
     dec_initialize = (\<lambda>_. Inr ()), dec_paginated = (\<lambda>_. Inr ()),
     dec_read = (\<lambda>_. Inl (Errorf ''bad params'')),
     dec_tool = (\<lambda>_. Inr \<lparr>tool_Arguments = GMap (Some [''n'' \<mapsto> GString ''42'', ''xs'' \<mapsto> GList [GString ''1'', GNil, GInt 2]]),
        tool_rest = ()\<rparr>),
     dec_level = (\<lambda>_. Inr ()),
     dec_prompt = (\<lambda>_. Inr \<lparr>prompt_Arguments = Some [''n'' \<mapsto> ''x''], prompt_rest = ()\<rparr>),
     dec_elicitation = (\<lambda>_. Inr ())\<rparr>"

definition sample_float_api :: float_api where
  "sample_float_api = \<lparr>int_overflow = (\<lambda>_. word_of_int (- (2 ^ 63))), ParseFloat = (\<lambda>_. None)\<rparr>"

definition sample_call :: "(nat, unit) MCPRequest" where
  "sample_call = (empty_request ''tools/call'' 7)\<lparr>ToolCall := Some
     \<lparr>tool_Arguments = GMap (Some [''n'' \<mapsto> GString ''42'', ''xs'' \<mapsto> GList [GString ''1'', GNil, GInt 2]]), tool_rest = ()\<rparr>\<rparr>"

text \<open>An adapter whose values are requests and strings.\<close>

definition sample_mcp_adapter :: "((nat, unit) MCPRequest option + string, nat, unit) mcp_adapter" where
  "sample_mcp_adapter =
    \<lparr>native_string = (\<lambda>v. case v of Inr s \<Rightarrow> Inr s | Inl _ \<Rightarrow> Inl (Errorf ''not a string'')),
     native_int = (\<lambda>_. Inl (Errorf ''not an int'')), native_boolean = (\<lambda>_. Inl (Errorf ''not a bool'')),
     of_string = Inr, of_strings = Inr \<circ> concat, WrapErr = Inr \<circ> error_text,
     native_mcp = (\<lambda>_. Inl (Errorf ''not a parser'')),
     native_request = (\<lambda>v. case v of Inl r \<Rightarrow> Inr r | Inr _ \<Rightarrow> Inl (Errorf ''not a request'')),
     native_float = (\<lambda>_. Inl (Errorf ''not a double'')), native_strings = (\<lambda>_. Inl (Errorf ''not a list'')),
     native_ints = (\<lambda>_. Inl (Errorf ''not a list'')), native_floats = (\<lambda>_. Inl (Errorf ''not a list'')),
     native_bools = (\<lambda>_. Inl (Errorf ''not a list'')),
     of_request = Inl \<circ> Some, of_integer = (\<lambda>i. Inr (itoa (sint i))), of_float = (\<lambda>_. Inr ''float''),
     of_boolean = (\<lambda>b. Inr (if b then ''true'' else ''false'')), of_ints = (\<lambda>_. Inr ''ints''),
     of_floats = (\<lambda>_. Inr ''floats''), of_bools = (\<lambda>_. Inr ''bools'')\<rparr>"

lemma sample_Parse: "Parse sample_package ''tools/call'' = Inr sample_call"
  by (simp add: Parse_def sample_package_def sample_call_def unmarshalParams_id with_params_def Let_def)

lemma sample_lookup:
  "lookup_arg sample_call ''n'' = Some (GString ''42'')"
  "lookup_arg sample_call ''xs'' = Some (GList [GString ''1'', GNil, GInt 2])"
  by (simp_all add: lookup_arg_def GetArguments_def sample_call_def)

lemma sample_methods_distinct: "distinct (method_names sample_package)"
  by (simp add: method_names_def mcpConstants_def sample_package_def)

section \<open>Properties\<close>

text \<open>
  A parsed request carries the parameters of its method and of no other: each field is set
  exactly for its methods, so the arguments a policy reads are those of the call itself.
\<close>

lemma parsed_request_params:
  assumes "Parse M content = Inr r" and "distinct (method_names M)"
  shows "(\<exists>i. dec_request M content = Inr (Method r, i) \<and> ID r = i)
    \<and> (ToolCall r \<noteq> None \<longleftrightarrow> Method r = MethodToolsCall M)
    \<and> (ResourceRead r \<noteq> None \<longleftrightarrow> Method r = MethodResourcesRead M)
    \<and> (PromptGet r \<noteq> None \<longleftrightarrow> Method r = MethodPromptsGet M)
    \<and> (Initialize r \<noteq> None \<longleftrightarrow> Method r = MethodInitialize M)
    \<and> (SetLogLevel r \<noteq> None \<longleftrightarrow> Method r = MethodSetLogLevel M)
    \<and> (Elicitation r \<noteq> None \<longleftrightarrow> Method r = MethodElicitationCreate M)
    \<and> (Paginated r \<noteq> None \<longleftrightarrow> Method r \<in> {MethodResourcesList M, MethodResourcesTemplatesList M,
         MethodToolsList M, MethodPromptsList M})"
proof -
  have "distinct (rev (method_names M))" using assms(2) by simp
  note distinct = assms(2) [unfolded method_names_def mcpConstants_def, simplified]
    this [unfolded method_names_def mcpConstants_def, simplified]
  from assms(1) obtain m i where "dec_request M content = Inr (m, i)" "parsed_shape M m i r"
    by (rule Parse_shape)
  then show ?thesis
    by (elim parsed_shape.cases insertE emptyE)
      (insert distinct, simp_all add: empty_request_def method_names_def mcpConstants_def)
qed

lemma parsed_request_params_sample:
  "Method sample_call = ''tools/call'' \<and> ToolCall sample_call \<noteq> None \<and> ResourceRead sample_call = None"
  using parsed_request_params [OF sample_Parse sample_methods_distinct]
  by (simp add: sample_package_def) (simp add: sample_call_def empty_request_def)

text \<open>
  C25. Integers reach the policy exactly: a decimal string argument holding any 64-bit integer,
  and a number argument holding an integer of at most 53 bits, are read as that integer.
\<close>

theorem int_argument_exact:
  assumes "lookup_arg r key = Some (GString (itoa (sint w)))
    \<or> (lookup_arg r key = Some (GFloat (int_to_float w)) \<and> \<bar>sint w\<bar> < 2 ^ 53)
    \<or> lookup_arg r key = Some (GInt w)"
  shows "GetIntArgument F r key d = w"
  using assms float_int_roundtrip [of w F] Atoi_itoa [of w] by (auto intro: int_arg.found)

theorem int_argument_exact_witness:
  "GetIntArgument sample_float_api sample_call ''n'' 0 = 42"
proof -
  have "itoa (sint (42 :: int64)) = ''42''" by (simp add: itoa_def nat_digits.simps)
  then show ?thesis
    using int_argument_exact [of sample_call "''n''" 42 sample_float_api 0] by (simp add: sample_lookup)
qed

text \<open>
  The slice getters return the items that convert, in their order, and silently drop the
  others; the default is used only when the argument is missing or is no list.
\<close>

lemma slice_arguments_keep_convertible_items:
  assumes "lookup_arg r key = Some (GList vs)"
  shows "GetStringSliceArgument r key ds = map (the \<circ> as_string) (filter (\<lambda>v. as_string v \<noteq> None) vs)
    \<and> GetIntSliceArgument F r key di = map (the \<circ> as_int F) (filter (\<lambda>v. as_int F v \<noteq> None) vs)
    \<and> GetFloatSliceArgument F r key df = map (the \<circ> as_float F) (filter (\<lambda>v. as_float F v \<noteq> None) vs)
    \<and> GetBoolSliceArgument r key db = map (the \<circ> as_bool) (filter (\<lambda>v. as_bool v \<noteq> None) vs)"
  by (simp add: strs_arg.found [OF assms] ints_arg.found [OF assms] floats_arg.found [OF assms]
      bools_arg.found [OF assms] convert_items_filter)

lemma slice_arguments_keep_convertible_items_sample:
  "GetStringSliceArgument sample_call ''xs'' [''d''] = [''1''] \<and> GetIntSliceArgument sample_float_api sample_call ''xs'' [] = [1, 2]"
  using slice_arguments_keep_convertible_items [OF sample_lookup(2), of "[''d'']" sample_float_api "[]" "[]" "[]"]
  by (simp add: Atoi_def signed_digits_def parse_digits_def is_digit_def digits_val_def int64_range_def)

text \<open>
  C26. The library is well formed and none of its functions panics on a request that is there:
  called with as many arguments as the overload declares, each returns a value, an argument of
  the wrong type giving an error value.
\<close>

theorem mcp_functions_return:
  fixes A :: "('v, 'id, 'x) mcp_adapter"
  assumes "ov \<in> set (lib_overloads (mcp_decls F A))" and "length args = length (ov_params ov)"
    and "native_request A (hd args) \<noteq> Inr None" and "native_mcp A (hd args) \<noteq> Inr None"
  shows "decls_ok (mcp_decls F A) \<and> returns (call_binding (ov_binding ov) args)"
proof -
  have "returns (mcp_parse A a b)" if "native_mcp A a \<noteq> Inr None" for a b
    using that by (auto simp: mcp_parse_def returns_convert split: option.split sum.split)
  then have "returns (call_binding (ov_binding ov) args)"
    using assms returns_mcp_get [OF assms(3)]
    by (auto simp: mcp_decls_def lib_overloads_def MemberOverload_def length_Suc_conv mcp_get_defs returns_mcp_get)
  then show ?thesis by (simp add: mcp_decls_ok)
qed

theorem mcp_functions_return_witness:
  "returns (call_binding (Nary (mcp_get_string sample_mcp_adapter)) [Inl (Some sample_call), Inr ''n'', Inr ''d''])"
proof -
  have "MemberOverload ''mcp_get_string'' [MCPRequestType, StringType, StringType] StringType
      (Nary (mcp_get_string sample_mcp_adapter)) \<in> set (lib_overloads (mcp_decls sample_float_api sample_mcp_adapter))"
    by (simp add: mcp_decls_def lib_overloads_def)
  from mcp_functions_return [OF this, of "[Inl (Some sample_call), Inr ''n'', Inr ''d'']"] show ?thesis
    by (simp add: MemberOverload_def sample_mcp_adapter_def)
qed

end
