(* ===== verification/HttpLib.thy ===== *)
theory HttpLib
  imports Mcp
begin

text \<open>
  The HTTP side of the authorization libraries: the request and response types of HTTP policies
  and the construction of a request from an incoming one (\<open>pkg/cel/libs/authz/http/types.go\<close>),
  the CEL functions on them (\<open>impl.go\<close>, \<open>lib.go\<close> of the same package), and the response
  type of the output expression (\<open>pkg/cel/libs/httpserver\<close>). Reading the body and parsing the
  URL is done by \<open>net/http\<close>: their results are fields of the incoming request.
\<close>

section \<open>Types\<close>

type_synonym header_map = "string \<rightharpoonup> string list"

record CheckRequestAttributes =
  attr_Method :: string
  attr_Header :: header_map
  attr_Host :: string
  attr_Protocol :: string
  attr_ContentLength :: int64
  attr_Body :: string
  attr_Scheme :: string
  attr_Path :: string
  attr_Query :: header_map
  attr_Fragment :: string

record ('id, 'x) CheckRequest =
  Attributes :: CheckRequestAttributes
  Mcp_Request :: "('id, 'x) MCPRequest option"

record CheckResponseDenied =
  Reason :: string

record CheckResponse =
  resp_Ok :: "unit option"
  resp_Denied :: "CheckResponseDenied option"

record HttpResponse =
  hr_Status :: int64
  hr_Header :: "header_map option"
  hr_Body :: "string option"

text \<open>What \<open>net/http\<close> delivers: the request, with its body read or failing to be read.\<close>

record http_request =
  rq_Method :: string
  rq_Header :: header_map
  rq_Host :: string
  rq_Proto :: string
  rq_Body :: "go_error + string"
  rq_Path :: string
  rq_Query :: header_map
  rq_Fragment :: string
  rq_Scheme :: string

section \<open>Building the request\<close>

text \<open>
  The first pass decodes only the method; \<open>dec_envelope\<close> is its JSON decoder. The zero id
  is that of a request that was not parsed.
\<close>

definition parseMCPRequest :: "(string \<Rightarrow> go_error + string) \<Rightarrow> 'id \<Rightarrow> ('id, 'x) mcp_package \<Rightarrow> string
    \<Rightarrow> ('id, 'x) MCPRequest" where
  "parseMCPRequest dec_envelope zero_id M body =
     (let envelope = dec_envelope body;
          hasMethod = (case envelope of Inr m \<Rightarrow> m \<noteq> [] | Inl _ \<Rightarrow> False)
      in case Parse M body of
           Inr parsed \<Rightarrow> parsed
         | Inl _ \<Rightarrow>
             (let req = empty_request [] zero_id
              in if hasMethod then req\<lparr>Method := (case envelope of Inr m \<Rightarrow> m | Inl _ \<Rightarrow> [])\<rparr> else req))"

definition NewRequest :: "(string \<Rightarrow> go_error + string) \<Rightarrow> 'id \<Rightarrow> ('id, 'x) mcp_package \<Rightarrow> http_request
    \<Rightarrow> go_error + ('id, 'x) CheckRequest" where
  "NewRequest dec_envelope zero_id M r =
     (case rq_Body r of
        Inl err \<Rightarrow> Inl err
      | Inr bodyBytes \<Rightarrow>
          Inr \<lparr>Attributes =
                 \<lparr>attr_Method = rq_Method r, attr_Header = rq_Header r, attr_Host = rq_Host r,
                  attr_Protocol = rq_Proto r, attr_ContentLength = of_nat (length bodyBytes),
                  attr_Body = bodyBytes, attr_Scheme = rq_Scheme r, attr_Path = rq_Path r,
                  attr_Query = rq_Query r, attr_Fragment = rq_Fragment r\<rparr>,
               Mcp_Request = Some (parseMCPRequest dec_envelope zero_id M bodyBytes)\<rparr>)"

section \<open>Canonical header names\<close>

text \<open>
  \<open>textproto.CanonicalMIMEHeaderKey\<close>: a key of token bytes gets an upper case letter at the
  start and after each hyphen and lower case letters elsewhere; any other key is unchanged.
\<close>

definition is_upper :: "char \<Rightarrow> bool" where
  "is_upper c \<longleftrightarrow> 65 \<le> (of_char c :: nat) \<and> (of_char c :: nat) \<le> 90"

definition is_lower :: "char \<Rightarrow> bool" where
  "is_lower c \<longleftrightarrow> 97 \<le> (of_char c :: nat) \<and> (of_char c :: nat) \<le> 122"

definition upper_char :: "char \<Rightarrow> char" where
  "upper_char c = (if is_lower c then char_of ((of_char c :: nat) - 32) else c)"

definition lower_char :: "char \<Rightarrow> char" where
  "lower_char c = (if is_upper c then char_of ((of_char c :: nat) + 32) else c)"

definition is_token_byte :: "char \<Rightarrow> bool" where
  "is_token_byte c \<longleftrightarrow> is_upper c \<or> is_lower c \<or> is_digit c \<or> c \<in> set ''!#$%&*+-.^_|~'' \<or> c = CHR 39 \<or> c = CHR 96"

fun canonical_bytes :: "bool \<Rightarrow> string \<Rightarrow> string" where
  "canonical_bytes upper [] = []"
| "canonical_bytes upper (c # cs) =
     (let d = (if upper then upper_char c else lower_char c) in d # canonical_bytes (d = CHR ''-'') cs)"

definition CanonicalMIMEHeaderKey :: "string \<Rightarrow> string" where
  "CanonicalMIMEHeaderKey s = (if list_all is_token_byte s then canonical_bytes True s else s)"

definition header_Values :: "header_map \<Rightarrow> string \<Rightarrow> string list" where
  "header_Values h key = (case h (CanonicalMIMEHeaderKey key) of Some vs \<Rightarrow> vs | None \<Rightarrow> [])"

lemma upper_lower_char: "upper_char (lower_char c) = upper_char c" "lower_char (upper_char c) = lower_char c"
  by (auto simp: upper_char_def lower_char_def is_upper_def is_lower_def)

lemma upper_char_idem: "upper_char (upper_char c) = upper_char c" "lower_char (lower_char c) = lower_char c"
  by (auto simp: upper_char_def lower_char_def is_upper_def is_lower_def)

lemma token_upper_char: "is_token_byte (upper_char c) = is_token_byte c"
  by (auto simp: is_token_byte_def upper_char_def is_upper_def is_lower_def is_digit_def)

lemma canonical_bytes_upper: "canonical_bytes u cs = canonical_bytes u (map upper_char cs)"
  by (induction cs arbitrary: u) (simp_all add: Let_def upper_char_idem upper_lower_char)

lemma canonical_same_letters:
  assumes "map upper_char k = map upper_char k'"
  shows "CanonicalMIMEHeaderKey k = CanonicalMIMEHeaderKey k' \<or> \<not> list_all is_token_byte k"
proof -
  have "list_all is_token_byte (map upper_char k) = list_all is_token_byte k" for k
    by (simp add: list.pred_map comp_def token_upper_char)
  then have "list_all is_token_byte k = list_all is_token_byte k'" using assms by metis
  then show ?thesis
    using assms canonical_bytes_upper by (auto simp: CanonicalMIMEHeaderKey_def) metis
qed

lemma canonical_bytes_tokens: "list_all is_token_byte cs \<Longrightarrow> list_all is_token_byte (canonical_bytes u cs)"
proof (induction cs arbitrary: u)
  case (Cons c cs)
  have "is_token_byte (lower_char c)"
    using Cons.prems token_upper_char [of "lower_char c"] token_upper_char [of c] upper_lower_char(1) [of c] by simp
  with Cons show ?case by (simp add: Let_def token_upper_char)
qed simp

lemma canonical_bytes_idem: "canonical_bytes u (canonical_bytes u cs) = canonical_bytes u cs"
  by (induction cs arbitrary: u) (simp_all add: Let_def upper_char_idem)

lemma canonical_idem: "CanonicalMIMEHeaderKey (CanonicalMIMEHeaderKey k) = CanonicalMIMEHeaderKey k"
  by (simp add: CanonicalMIMEHeaderKey_def canonical_bytes_tokens canonical_bytes_idem)

section \<open>CEL functions\<close>

record 'v http_adapter = "'v adapter" +
  native_attributes :: "'v \<Rightarrow> go_error + CheckRequestAttributes"
  native_ok :: "'v \<Rightarrow> go_error + unit"
  native_denied :: "'v \<Rightarrow> go_error + CheckResponseDenied"
  of_ok :: "unit \<Rightarrow> 'v"
  of_denied :: "CheckResponseDenied \<Rightarrow> 'v"
  of_response :: "CheckResponse \<Rightarrow> 'v"

definition http_allowed :: "'v http_adapter \<Rightarrow> 'v outcome" where
  "http_allowed A = Ret (of_ok A ())"

definition http_denied :: "'v http_adapter \<Rightarrow> 'v \<Rightarrow> 'v outcome" where
  "http_denied A reason =
     convert A (native_string A reason) (\<lambda>reason. Ret (of_denied A \<lparr>Reason = reason\<rparr>))"

definition get_header :: "'v http_adapter \<Rightarrow> 'v \<Rightarrow> 'v \<Rightarrow> 'v outcome" where
  "get_header A request key =
     convert A (native_attributes A request) (\<lambda>request.
     convert A (native_string A key) (\<lambda>key.
       Ret (of_strings A (header_Values (attr_Header request) key))))"

definition get_queryparam :: "'v http_adapter \<Rightarrow> 'v \<Rightarrow> 'v \<Rightarrow> 'v outcome" where
  "get_queryparam A request key =
     convert A (native_attributes A request) (\<lambda>request.
     convert A (native_string A key) (\<lambda>key.
       Ret (of_strings A (case attr_Query request key of Some vs \<Rightarrow> vs | None \<Rightarrow> []))))"

definition http_response_ok :: "'v http_adapter \<Rightarrow> 'v \<Rightarrow> 'v outcome" where
  "http_response_ok A response =
     convert A (native_ok A response) (\<lambda>response.
       Ret (of_response A \<lparr>resp_Ok = Some response, resp_Denied = None\<rparr>))"

definition http_response_denied :: "'v http_adapter \<Rightarrow> 'v \<Rightarrow> 'v outcome" where
  "http_response_denied A response =
     convert A (native_denied A response) (\<lambda>response.
       Ret (of_response A \<lparr>resp_Ok = None, resp_Denied = Some response\<rparr>))"

section \<open>The libraries\<close>

definition http_LibraryName :: string where
  "http_LibraryName = ''kyverno.authz.http''"

definition RequestAttributesType :: cel_type where
  "RequestAttributesType = ObjectType ''http.CheckRequestAttributes''"

definition ResponseOkType :: cel_type where
  "ResponseOkType = ObjectType ''http.CheckResponseOk''"

definition ResponseDeniedType :: cel_type where
  "ResponseDeniedType = ObjectType ''http.CheckResponseDenied''"

definition http_decls :: "'v http_adapter \<Rightarrow> ('v, 'v outcome) lib_decls" where
  "http_decls A =
     [(''http.Allowed'', [Overload ''http_allowed'' [] ResponseOkType (NoArgs (http_allowed A))]),
      (''http.Denied'', [Overload ''http_denied_string'' [StringType] ResponseDeniedType (Unary (http_denied A))]),
      (''Header'', [MemberOverload ''http_get_header_string'' [RequestAttributesType, StringType]
         (ListType StringType) (Binary (get_header A))]),
      (''QueryParam'', [MemberOverload ''http_get_queryparam_string'' [RequestAttributesType, StringType]
         (ListType StringType) (Binary (get_queryparam A))]),
      (''Response'',
        [MemberOverload ''http_response_ok'' [ResponseOkType] http_ResponseType (Unary (http_response_ok A)),
         MemberOverload ''http_response_denied'' [ResponseDeniedType] http_ResponseType (Unary (http_response_denied A))])]"

definition httpserver_LibraryName :: string where
  "httpserver_LibraryName = ''kyverno.httpserver''"

definition httpserver_ResponseType :: cel_type where
  "httpserver_ResponseType = ObjectType ''httpserver.HttpResponse''"

lemma http_decls_ok: "decls_ok (http_decls A)"
  by (simp add: decl_simps http_decls_def ResponseOkType_def ResponseDeniedType_def)

text \<open>
  The law of a value adapter the code relies on: a native value that was turned into a CEL value
  converts back to itself.
\<close>

definition http_adapter_law :: "'v http_adapter \<Rightarrow> bool" where
  "http_adapter_law A \<longleftrightarrow> (\<forall>u. native_ok A (of_ok A u) = Inr u) \<and> (\<forall>d. native_denied A (of_denied A d) = Inr d)
     \<and> (\<forall>s. native_string A (of_string A s) = Inr s)"

text \<open>An adapter over a concrete type of values.\<close>

datatype http_value = HStr string | HStrs "string list" | HAttrs CheckRequestAttributes | HOk unit
  | HDenied CheckResponseDenied | HResp CheckResponse | HErr go_error

definition conversion_error :: go_error where
  "conversion_error = Errorf ''unsupported type conversion''"

definition sample_http_adapter :: "http_value http_adapter" where
  "sample_http_adapter =
    \<lparr>native_string = (\<lambda>v. case v of HStr s \<Rightarrow> Inr s | HErr e \<Rightarrow> Inl e | _ \<Rightarrow> Inl conversion_error),
     native_int = (\<lambda>v. Inl conversion_error), native_boolean = (\<lambda>v. Inl conversion_error),
     of_string = HStr, of_strings = HStrs, WrapErr = HErr,
     native_attributes = (\<lambda>v. case v of HAttrs a \<Rightarrow> Inr a | _ \<Rightarrow> Inl conversion_error),
     native_ok = (\<lambda>v. case v of HOk u \<Rightarrow> Inr u | _ \<Rightarrow> Inl conversion_error),
     native_denied = (\<lambda>v. case v of HDenied d \<Rightarrow> Inr d | _ \<Rightarrow> Inl conversion_error),
     of_ok = HOk, of_denied = HDenied, of_response = HResp\<rparr>"

lemma sample_http_adapter_law: "http_adapter_law sample_http_adapter"
  by (simp add: http_adapter_law_def sample_http_adapter_def)

section \<open>Properties\<close>

text \<open>
  The MCP view of a request is always there and never hides the method: it is the parsed
  request when parsing succeeds, and otherwise carries the method of the JSON envelope, if the
  body has one.
\<close>

lemma mcp_method_preserved:
  assumes "NewRequest dec_envelope zero_id M r = Inr req"
  shows "\<exists>body q. rq_Body r = Inr body \<and> Mcp_Request req = Some q \<and> attr_Body (Attributes req) = body
    \<and> (\<forall>p. Parse M body = Inr p \<longrightarrow> q = p)
    \<and> (\<forall>err m. Parse M body = Inl err \<longrightarrow> dec_envelope body = Inr m \<longrightarrow> Method q = m \<and> GetArguments q = None)"
  using assms
  by (auto simp: NewRequest_def parseMCPRequest_def Let_def empty_request_def GetArguments_def split: sum.splits)

definition sample_http_request :: "string \<Rightarrow> http_request" where
  "sample_http_request body = \<lparr>rq_Method = ''POST'', rq_Header = [''X-Api-Key'' \<mapsto> [''k'']], rq_Host = ''host'',
     rq_Proto = ''HTTP/1.1'', rq_Body = Inr body, rq_Path = ''/mcp'', rq_Query = Map.empty, rq_Fragment = [],
     rq_Scheme = []\<rparr>"

lemma mcp_method_preserved_sample:
  "\<exists>req q. NewRequest Inr 0 sample_package (sample_http_request ''resources/read'') = Inr req
     \<and> Mcp_Request req = Some q \<and> Method q = ''resources/read''"
proof -
  obtain req where r: "NewRequest Inr 0 sample_package (sample_http_request ''resources/read'') = Inr req"
    by (simp add: NewRequest_def sample_http_request_def)
  have "Parse sample_package ''resources/read'' = Inl (Errorf ''bad params'')"
    by (simp add: Parse_def sample_package_def unmarshalParams_id with_params_def Let_def)
  with mcp_method_preserved [OF r] r show ?thesis by (auto simp: sample_http_request_def)
qed

text \<open>
  Header lookups ignore the case of the name: for a name made of token bytes every spelling
  finds the values stored under its canonical form, which is what incoming requests are stored
  under.
\<close>

lemma header_lookup_case_insensitive:
  assumes "list_all is_token_byte key" and "map upper_char key = map upper_char key'"
  shows "header_Values h key = header_Values h key'
    \<and> header_Values (h(CanonicalMIMEHeaderKey key' \<mapsto> vs)) key = vs"
  using canonical_same_letters [OF assms(2)] assms(1) by (simp add: header_Values_def)

lemma header_lookup_case_insensitive_sample:
  "header_Values (Map.empty(''X-Api-Key'' \<mapsto> [''k''])) ''x-API-key'' = [''k'']"
proof -
  have "list_all is_token_byte ''x-API-key''" "map upper_char ''x-API-key'' = map upper_char ''x-api-key''"
    "CanonicalMIMEHeaderKey ''x-api-key'' = ''X-Api-Key''"
    by code_simp+
  then show ?thesis
    using header_lookup_case_insensitive [of "''x-API-key''" "''x-api-key''" Map.empty "[''k'']"] by simp
qed

text \<open>
  The two response builders decide as they say: \<open>http.Allowed().Response()\<close> is a response
  with an \<open>ok\<close> and no denial, \<open>http.Denied(reason).Response()\<close> a denial with that reason
  and no \<open>ok\<close>; no function of the library panics, whatever its arguments.
\<close>

lemma http_responses_decide:
  assumes "http_adapter_law A"
  shows "bind_outcome (http_allowed A) (http_response_ok A) = Ret (of_response A \<lparr>resp_Ok = Some (), resp_Denied = None\<rparr>)
    \<and> bind_outcome (http_denied A (of_string A reason)) (http_response_denied A)
        = Ret (of_response A \<lparr>resp_Ok = None, resp_Denied = Some \<lparr>Reason = reason\<rparr>\<rparr>)
    \<and> decls_ok (http_decls A)
    \<and> (\<forall>ov \<in> set (lib_overloads (http_decls A)). \<forall>args. length args = length (ov_params ov) \<longrightarrow>
         returns (call_binding (ov_binding ov) args))"
proof -
  have "returns (call_binding (ov_binding ov) args)"
    if "ov \<in> set (lib_overloads (http_decls A))" "length args = length (ov_params ov)" for ov args
    using that
    by (auto simp: http_decls_def lib_overloads_def Overload_def MemberOverload_def length_Suc_conv
        http_allowed_def http_denied_def get_header_def get_queryparam_def http_response_ok_def
        http_response_denied_def returns_convert)
  with assms show ?thesis
    by (simp add: http_decls_ok http_adapter_law_def http_allowed_def http_denied_def http_response_ok_def
        http_response_denied_def)
qed

lemma http_responses_decide_sample:
  "bind_outcome (http_denied sample_http_adapter (HStr ''no'')) (http_response_denied sample_http_adapter)
    = Ret (HResp \<lparr>resp_Ok = None, resp_Denied = Some \<lparr>Reason = ''no''\<rparr>\<rparr>)"
  using http_responses_decide [OF sample_http_adapter_law, of "''no''"]
  by (simp add: sample_http_adapter_def)

end
