(* ===== verification/EnvoyLib.thy ===== *)
theory EnvoyLib
  imports CelLib
begin

text \<open>
  The CEL library of Envoy policies (\<open>pkg/cel/libs/authz/envoy/impl.go\<close> and \<open>lib.go\<close>).
  Its values are pointers to protobuf messages and its builders change the message they are
  called on, so the messages live in a heap and a function takes and returns the heap. The CEL
  values are a type variable: the adapter says which of them are pointers to which messages.
\<close>

section \<open>Messages\<close>

type_synonym ptr = nat

record HeaderValueOption =
  hv_Header :: "(string \<times> string) option"
  KeepEmptyValue :: bool

record QueryParameter =
  qp_Key :: string
  qp_Value :: string

record OkHttpResponse =
  Headers :: "ptr list"
  HeadersToRemove :: "string list"
  ResponseHeadersToAdd :: "ptr list"
  QueryParametersToSet :: "ptr list"
  QueryParametersToRemove :: "string list"

record DeniedHttpResponse =
  dn_Status :: "int option"
  dn_Headers :: "ptr list"
  Body :: string

record rpc_status =
  Code :: int
  Message :: string

datatype http_response_kind = NoHttpResponse | OkResponse ptr | DeniedResponse ptr

record 'm EnvoyResponse =
  Status :: "rpc_status option"
  HttpResponseKind :: http_response_kind
  DynamicMetadata :: "'m option"

record 'm envoy_heap =
  headers :: "ptr \<rightharpoonup> HeaderValueOption"
  params :: "ptr \<rightharpoonup> QueryParameter"
  oks :: "ptr \<rightharpoonup> OkHttpResponse"
  denieds :: "ptr \<rightharpoonup> DeniedHttpResponse"
  responses :: "ptr \<rightharpoonup> 'm EnvoyResponse"
  fresh :: ptr

definition empty_heap :: "'m envoy_heap" where
  "empty_heap = \<lparr>headers = Map.empty, params = Map.empty, oks = Map.empty, denieds = Map.empty,
     responses = Map.empty, fresh = 0\<rparr>"

text \<open>Getters of the generated code, nil safe as there.\<close>

definition GetDeniedResponse :: "'m EnvoyResponse \<Rightarrow> ptr option" where
  "GetDeniedResponse r = (case HttpResponseKind r of DeniedResponse p \<Rightarrow> Some p | _ \<Rightarrow> None)"

definition GetOkResponse :: "'m EnvoyResponse \<Rightarrow> ptr option" where
  "GetOkResponse r = (case HttpResponseKind r of OkResponse p \<Rightarrow> Some p | _ \<Rightarrow> None)"

text \<open>The gRPC codes OK and PERMISSION\_DENIED.\<close>

definition codes_OK :: int where "codes_OK = 0"

definition codes_PermissionDenied :: int where "codes_PermissionDenied = 7"

section \<open>Functions over the heap\<close>

type_synonym ('v, 'm) envoy_fn = "'m envoy_heap \<Rightarrow> ('v \<times> 'm envoy_heap) outcome"

record ('v, 'm) envoy_adapter = "'v adapter" +
  native_ok :: "'v \<Rightarrow> go_error + ptr"
  native_denied :: "'v \<Rightarrow> go_error + ptr"
  native_header :: "'v \<Rightarrow> go_error + ptr"
  native_param :: "'v \<Rightarrow> go_error + ptr"
  native_response :: "'v \<Rightarrow> go_error + ptr"
  native_code :: "'v \<Rightarrow> go_error + int"
  native_struct :: "'v \<Rightarrow> go_error + 'm"
  of_ok :: "ptr \<Rightarrow> 'v"
  of_denied :: "ptr \<Rightarrow> 'v"
  of_header :: "ptr \<Rightarrow> 'v"
  of_param :: "ptr \<Rightarrow> 'v"
  of_response :: "ptr \<Rightarrow> 'v"
  value_True :: 'v

definition convert_st :: "('v, 'm) envoy_adapter \<Rightarrow> go_error + 'a \<Rightarrow> ('a \<Rightarrow> ('v, 'm) envoy_fn) \<Rightarrow> ('v, 'm) envoy_fn" where
  "convert_st A r k h = (case r of Inl err \<Rightarrow> Ret (WrapErr A err, h) | Inr a \<Rightarrow> k a h)"

definition arg_st :: "'v list \<Rightarrow> nat \<Rightarrow> ('v \<Rightarrow> ('v, 'm) envoy_fn) \<Rightarrow> ('v, 'm) envoy_fn" where
  "arg_st args i k h = (if i < length args then k (args ! i) h else Panic index_out_of_range)"

text \<open>Allocation of a message, and a field assignment through a pointer to one.\<close>

definition new_header :: "HeaderValueOption \<Rightarrow> 'm envoy_heap \<Rightarrow> ptr \<times> 'm envoy_heap" where
  "new_header m h = (fresh h, h\<lparr>headers := (headers h)(fresh h \<mapsto> m), fresh := Suc (fresh h)\<rparr>)"

definition new_param :: "QueryParameter \<Rightarrow> 'm envoy_heap \<Rightarrow> ptr \<times> 'm envoy_heap" where
  "new_param m h = (fresh h, h\<lparr>params := (params h)(fresh h \<mapsto> m), fresh := Suc (fresh h)\<rparr>)"

definition new_ok :: "OkHttpResponse \<Rightarrow> 'm envoy_heap \<Rightarrow> ptr \<times> 'm envoy_heap" where
  "new_ok m h = (fresh h, h\<lparr>oks := (oks h)(fresh h \<mapsto> m), fresh := Suc (fresh h)\<rparr>)"

definition new_denied :: "DeniedHttpResponse \<Rightarrow> 'm envoy_heap \<Rightarrow> ptr \<times> 'm envoy_heap" where
  "new_denied m h = (fresh h, h\<lparr>denieds := (denieds h)(fresh h \<mapsto> m), fresh := Suc (fresh h)\<rparr>)"

definition new_response :: "'m EnvoyResponse \<Rightarrow> 'm envoy_heap \<Rightarrow> ptr \<times> 'm envoy_heap" where
  "new_response m h = (fresh h, h\<lparr>responses := (responses h)(fresh h \<mapsto> m), fresh := Suc (fresh h)\<rparr>)"

definition set_ok :: "('v, 'm) envoy_adapter \<Rightarrow> ptr \<Rightarrow> (OkHttpResponse \<Rightarrow> OkHttpResponse) \<Rightarrow> ('v, 'm) envoy_fn" where
  "set_ok A p f h = (case oks h p of
     None \<Rightarrow> Panic nil_deref
   | Some m \<Rightarrow> Ret (of_ok A p, h\<lparr>oks := (oks h)(p \<mapsto> f m)\<rparr>))"

definition set_denied :: "('v, 'm) envoy_adapter \<Rightarrow> ptr \<Rightarrow> (DeniedHttpResponse \<Rightarrow> DeniedHttpResponse) \<Rightarrow> ('v, 'm) envoy_fn" where
  "set_denied A p f h = (case denieds h p of
     None \<Rightarrow> Panic nil_deref
   | Some m \<Rightarrow> Ret (of_denied A p, h\<lparr>denieds := (denieds h)(p \<mapsto> f m)\<rparr>))"

definition set_header :: "('v, 'm) envoy_adapter \<Rightarrow> ptr \<Rightarrow> (HeaderValueOption \<Rightarrow> HeaderValueOption) \<Rightarrow> ('v, 'm) envoy_fn" where
  "set_header A p f h = (case headers h p of
     None \<Rightarrow> Panic nil_deref
   | Some m \<Rightarrow> Ret (of_header A p, h\<lparr>headers := (headers h)(p \<mapsto> f m)\<rparr>))"

section \<open>Allowed responses\<close>

definition allowed :: "('v, 'm) envoy_adapter \<Rightarrow> ('v, 'm) envoy_fn" where
  "allowed A h =
     (let (p, h) = new_ok \<lparr>Headers = [], HeadersToRemove = [], ResponseHeadersToAdd = [],
                      QueryParametersToSet = [], QueryParametersToRemove = []\<rparr> h
      in Ret (of_ok A p, h))"

definition ok_with_header_header :: "('v, 'm) envoy_adapter \<Rightarrow> 'v \<Rightarrow> 'v \<Rightarrow> ('v, 'm) envoy_fn" where
  "ok_with_header_header A ok header =
     convert_st A (native_ok A ok) (\<lambda>ok.
     convert_st A (native_header A header) (\<lambda>header.
       set_ok A ok (\<lambda>m. m\<lparr>Headers := Headers m @ [header]\<rparr>)))"

definition ok_with_header_string_string :: "('v, 'm) envoy_adapter \<Rightarrow> 'v list \<Rightarrow> ('v, 'm) envoy_fn" where
  "ok_with_header_string_string A values =
     arg_st values 0 (\<lambda>v0. convert_st A (native_ok A v0) (\<lambda>ok.
     arg_st values 1 (\<lambda>v1. convert_st A (native_string A v1) (\<lambda>key.
     arg_st values 2 (\<lambda>v2. convert_st A (native_string A v2) (\<lambda>value h.
       (let (header, h) = new_header \<lparr>hv_Header = Some (key, value), KeepEmptyValue = False\<rparr> h
        in set_ok A ok (\<lambda>m. m\<lparr>Headers := Headers m @ [header]\<rparr>) h)))))))"

definition ok_without_header :: "('v, 'm) envoy_adapter \<Rightarrow> 'v \<Rightarrow> 'v \<Rightarrow> ('v, 'm) envoy_fn" where
  "ok_without_header A ok header =
     convert_st A (native_ok A ok) (\<lambda>ok.
     convert_st A (native_string A header) (\<lambda>header.
       set_ok A ok (\<lambda>m. m\<lparr>HeadersToRemove := HeadersToRemove m @ [header]\<rparr>)))"

definition ok_with_response_header_header :: "('v, 'm) envoy_adapter \<Rightarrow> 'v \<Rightarrow> 'v \<Rightarrow> ('v, 'm) envoy_fn" where
  "ok_with_response_header_header A ok header =
     convert_st A (native_ok A ok) (\<lambda>ok.
     convert_st A (native_header A header) (\<lambda>header.
       set_ok A ok (\<lambda>m. m\<lparr>ResponseHeadersToAdd := ResponseHeadersToAdd m @ [header]\<rparr>)))"

definition ok_with_response_header_string_string :: "('v, 'm) envoy_adapter \<Rightarrow> 'v list \<Rightarrow> ('v, 'm) envoy_fn" where
  "ok_with_response_header_string_string A values =
     arg_st values 0 (\<lambda>v0. convert_st A (native_ok A v0) (\<lambda>ok.
     arg_st values 1 (\<lambda>v1. convert_st A (native_string A v1) (\<lambda>key.
     arg_st values 2 (\<lambda>v2. convert_st A (native_string A v2) (\<lambda>value h.
       (let (header, h) = new_header \<lparr>hv_Header = Some (key, value), KeepEmptyValue = False\<rparr> h
        in set_ok A ok (\<lambda>m. m\<lparr>ResponseHeadersToAdd := ResponseHeadersToAdd m @ [header]\<rparr>) h)))))))"

definition ok_with_queryparam_param :: "('v, 'm) envoy_adapter \<Rightarrow> 'v \<Rightarrow> 'v \<Rightarrow> ('v, 'm) envoy_fn" where
  "ok_with_queryparam_param A ok param =
     convert_st A (native_ok A ok) (\<lambda>ok.
     convert_st A (native_param A param) (\<lambda>param.
       set_ok A ok (\<lambda>m. m\<lparr>QueryParametersToSet := QueryParametersToSet m @ [param]\<rparr>)))"

definition ok_with_queryparam_string_string :: "('v, 'm) envoy_adapter \<Rightarrow> 'v list \<Rightarrow> ('v, 'm) envoy_fn" where
  "ok_with_queryparam_string_string A values =
     arg_st values 0 (\<lambda>v0. convert_st A (native_ok A v0) (\<lambda>ok.
     arg_st values 1 (\<lambda>v1. convert_st A (native_string A v1) (\<lambda>key.
     arg_st values 2 (\<lambda>v2. convert_st A (native_string A v2) (\<lambda>value h.
       (let (param, h) = new_param \<lparr>qp_Key = key, qp_Value = value\<rparr> h
        in set_ok A ok (\<lambda>m. m\<lparr>QueryParametersToSet := QueryParametersToSet m @ [param]\<rparr>) h)))))))"

definition ok_without_queryparam_string :: "('v, 'm) envoy_adapter \<Rightarrow> 'v \<Rightarrow> 'v \<Rightarrow> ('v, 'm) envoy_fn" where
  "ok_without_queryparam_string A ok param =
     convert_st A (native_ok A ok) (\<lambda>ok.
     convert_st A (native_string A param) (\<lambda>param.
       set_ok A ok (\<lambda>m. m\<lparr>QueryParametersToRemove := QueryParametersToRemove m @ [param]\<rparr>)))"

section \<open>Denied responses\<close>

definition denied :: "('v, 'm) envoy_adapter \<Rightarrow> 'v \<Rightarrow> ('v, 'm) envoy_fn" where
  "denied A code =
     convert_st A (native_code A code) (\<lambda>code h.
       (let (p, h) = new_denied \<lparr>dn_Status = Some code, dn_Headers = [], Body = []\<rparr> h
        in Ret (of_denied A p, h)))"

definition denied_with_body :: "('v, 'm) envoy_adapter \<Rightarrow> 'v \<Rightarrow> 'v \<Rightarrow> ('v, 'm) envoy_fn" where
  "denied_with_body A dn body =
     convert_st A (native_denied A dn) (\<lambda>dn.
     convert_st A (native_string A body) (\<lambda>body.
       set_denied A dn (\<lambda>m. m\<lparr>Body := body\<rparr>)))"

definition denied_with_header_header :: "('v, 'm) envoy_adapter \<Rightarrow> 'v \<Rightarrow> 'v \<Rightarrow> ('v, 'm) envoy_fn" where
  "denied_with_header_header A dn header =
     convert_st A (native_denied A dn) (\<lambda>dn.
     convert_st A (native_header A header) (\<lambda>header.
       set_denied A dn (\<lambda>m. m\<lparr>dn_Headers := dn_Headers m @ [header]\<rparr>)))"

definition denied_with_header_string_string :: "('v, 'm) envoy_adapter \<Rightarrow> 'v list \<Rightarrow> ('v, 'm) envoy_fn" where
  "denied_with_header_string_string A values =
     arg_st values 0 (\<lambda>v0. convert_st A (native_denied A v0) (\<lambda>dn.
     arg_st values 1 (\<lambda>v1. convert_st A (native_string A v1) (\<lambda>key.
     arg_st values 2 (\<lambda>v2. convert_st A (native_string A v2) (\<lambda>value h.
       (let (header, h) = new_header \<lparr>hv_Header = Some (key, value), KeepEmptyValue = False\<rparr> h
        in set_denied A dn (\<lambda>m. m\<lparr>dn_Headers := dn_Headers m @ [header]\<rparr>) h)))))))"

section \<open>Headers and query parameters\<close>

definition header_key_value :: "('v, 'm) envoy_adapter \<Rightarrow> 'v \<Rightarrow> 'v \<Rightarrow> ('v, 'm) envoy_fn" where
  "header_key_value A key value =
     convert_st A (native_string A key) (\<lambda>key.
     convert_st A (native_string A value) (\<lambda>value h.
       (let (p, h) = new_header \<lparr>hv_Header = Some (key, value), KeepEmptyValue = False\<rparr> h
        in Ret (of_header A p, h))))"

definition queryparam_key_value :: "('v, 'm) envoy_adapter \<Rightarrow> 'v \<Rightarrow> 'v \<Rightarrow> ('v, 'm) envoy_fn" where
  "queryparam_key_value A key value =
     convert_st A (native_string A key) (\<lambda>key.
     convert_st A (native_string A value) (\<lambda>value h.
       (let (p, h) = new_param \<lparr>qp_Key = key, qp_Value = value\<rparr> h
        in Ret (of_param A p, h))))"

definition header_keep_empty_value_bool :: "('v, 'm) envoy_adapter \<Rightarrow> 'v \<Rightarrow> 'v \<Rightarrow> ('v, 'm) envoy_fn" where
  "header_keep_empty_value_bool A header flag =
     convert_st A (native_header A header) (\<lambda>header.
     convert_st A (native_boolean A flag) (\<lambda>flag.
       set_header A header (\<lambda>m. m\<lparr>KeepEmptyValue := flag\<rparr>)))"

definition header_keep_empty_value :: "('v, 'm) envoy_adapter \<Rightarrow> 'v \<Rightarrow> ('v, 'm) envoy_fn" where
  "header_keep_empty_value A header = header_keep_empty_value_bool A header (value_True A)"

section \<open>Check responses\<close>

definition response_ok :: "('v, 'm) envoy_adapter \<Rightarrow> 'v \<Rightarrow> ('v, 'm) envoy_fn" where
  "response_ok A ok =
     convert_st A (native_ok A ok) (\<lambda>ok h.
       (let (p, h) = new_response \<lparr>Status = Some \<lparr>Code = codes_OK, Message = []\<rparr>,
                        HttpResponseKind = OkResponse ok, DynamicMetadata = None\<rparr> h
        in Ret (of_response A p, h)))"

definition response_denied :: "('v, 'm) envoy_adapter \<Rightarrow> 'v \<Rightarrow> ('v, 'm) envoy_fn" where
  "response_denied A dn =
     convert_st A (native_denied A dn) (\<lambda>dn h.
       (let (p, h) = new_response \<lparr>Status = Some \<lparr>Code = codes_PermissionDenied, Message = []\<rparr>,
                        HttpResponseKind = DeniedResponse dn, DynamicMetadata = None\<rparr> h
        in Ret (of_response A p, h)))"

definition response_with_message :: "('v, 'm) envoy_adapter \<Rightarrow> 'v \<Rightarrow> 'v \<Rightarrow> ('v, 'm) envoy_fn" where
  "response_with_message A response message =
     convert_st A (native_response A response) (\<lambda>response.
     convert_st A (native_string A message) (\<lambda>message h.
       (case responses h response of
          None \<Rightarrow> Panic nil_deref
        | Some m \<Rightarrow>
            (case Status m of
               None \<Rightarrow> Panic nil_deref
             | Some st \<Rightarrow>
                 Ret (of_response A response,
                   h\<lparr>responses := (responses h)(response \<mapsto> m\<lparr>Status := Some (st\<lparr>Message := message\<rparr>)\<rparr>)\<rparr>)))))"

definition response_with_metadata :: "('v, 'm) envoy_adapter \<Rightarrow> 'v \<Rightarrow> 'v \<Rightarrow> ('v, 'm) envoy_fn" where
  "response_with_metadata A response metadata =
     convert_st A (native_response A response) (\<lambda>response.
     convert_st A (native_struct A metadata) (\<lambda>metadata h.
       (case responses h response of
          None \<Rightarrow> Panic nil_deref
        | Some m \<Rightarrow>
            Ret (of_response A response,
              h\<lparr>responses := (responses h)(response \<mapsto> m\<lparr>DynamicMetadata := Some metadata\<rparr>)\<rparr>))))"

section \<open>The library\<close>

definition envoy_LibraryName :: string where
  "envoy_LibraryName = ''kyverno.authz.envoy''"

definition envoy_DeniedHttpResponse :: cel_type where
  "envoy_DeniedHttpResponse = ObjectType ''envoy.service.auth.v3.DeniedHttpResponse''"

definition envoy_HeaderValueOption :: cel_type where
  "envoy_HeaderValueOption = ObjectType ''envoy.config.core.v3.HeaderValueOption''"

definition envoy_Metadata :: cel_type where
  "envoy_Metadata = ObjectType ''google.protobuf.Struct''"

definition envoy_OkHttpResponse :: cel_type where
  "envoy_OkHttpResponse = ObjectType ''envoy.service.auth.v3.OkHttpResponse''"

definition envoy_QueryParameter :: cel_type where
  "envoy_QueryParameter = ObjectType ''envoy.config.core.v3.QueryParameter''"

lemmas envoy_type_defs = envoy_CheckRequest_def envoy_CheckResponse_def envoy_DeniedHttpResponse_def
  envoy_HeaderValueOption_def envoy_Metadata_def envoy_OkHttpResponse_def envoy_QueryParameter_def

definition envoy_decls :: "('v, 'm) envoy_adapter \<Rightarrow> ('v, ('v, 'm) envoy_fn) lib_decls" where
  "envoy_decls A =
     [(''envoy.Allowed'', [Overload ''allowed'' [] envoy_OkHttpResponse (NoArgs (allowed A))]),
      (''envoy.Denied'', [Overload ''denied'' [IntType] envoy_DeniedHttpResponse (Unary (denied A))]),
      (''envoy.Header'', [Overload ''header_key_value'' [StringType, StringType] envoy_HeaderValueOption
         (Binary (header_key_value A))]),
      (''envoy.QueryParam'', [Overload ''queryparam_key_value'' [StringType, StringType] envoy_QueryParameter
         (Binary (queryparam_key_value A))]),
      (''WithBody'', [MemberOverload ''denied_with_body'' [envoy_DeniedHttpResponse, StringType]
         envoy_DeniedHttpResponse (Binary (denied_with_body A))]),
      (''WithHeader'',
        [MemberOverload ''ok_with_header_header'' [envoy_OkHttpResponse, envoy_HeaderValueOption]
           envoy_OkHttpResponse (Binary (ok_with_header_header A)),
         MemberOverload ''ok_with_header_string_string'' [envoy_OkHttpResponse, StringType, StringType]
           envoy_OkHttpResponse (Nary (ok_with_header_string_string A)),
         MemberOverload ''denied_with_header_header'' [envoy_DeniedHttpResponse, envoy_HeaderValueOption]
           envoy_DeniedHttpResponse (Binary (denied_with_header_header A)),
         MemberOverload ''denied_with_header_string_string'' [envoy_DeniedHttpResponse, StringType, StringType]
           envoy_DeniedHttpResponse (Nary (denied_with_header_string_string A))]),
      (''WithoutHeader'', [MemberOverload ''ok_without_header'' [envoy_OkHttpResponse, StringType]
         envoy_OkHttpResponse (Binary (ok_without_header A))]),
      (''WithResponseHeader'',
        [MemberOverload ''ok_with_response_header_header'' [envoy_OkHttpResponse, envoy_HeaderValueOption]
           envoy_OkHttpResponse (Binary (ok_with_response_header_header A)),
         MemberOverload ''ok_with_response_header_string_string'' [envoy_OkHttpResponse, StringType, StringType]
           envoy_OkHttpResponse (Nary (ok_with_response_header_string_string A))]),
      (''WithQueryParam'',
        [MemberOverload ''ok_with_queryparam_param'' [envoy_OkHttpResponse, envoy_QueryParameter]
           envoy_OkHttpResponse (Binary (ok_with_queryparam_param A)),
         MemberOverload ''ok_with_queryparam_string_string'' [envoy_OkHttpResponse, StringType, StringType]
           envoy_OkHttpResponse (Nary (ok_with_queryparam_string_string A))]),
      (''WithoutQueryParam'', [MemberOverload ''ok_without_queryparam_string'' [envoy_OkHttpResponse, StringType]
         envoy_OkHttpResponse (Binary (ok_without_queryparam_string A))]),
      (''KeepEmptyValue'',
        [MemberOverload ''header_keep_empty_value'' [envoy_HeaderValueOption] envoy_HeaderValueOption
           (Unary (header_keep_empty_value A)),
         MemberOverload ''header_keep_empty_value_bool'' [envoy_HeaderValueOption, BoolType] envoy_HeaderValueOption
           (Binary (header_keep_empty_value_bool A))]),
      (''Response'',
        [MemberOverload ''ok_response'' [envoy_OkHttpResponse] envoy_CheckResponse (Unary (response_ok A)),
         MemberOverload ''denied_response'' [envoy_DeniedHttpResponse] envoy_CheckResponse (Unary (response_denied A))]),
      (''WithMessage'', [MemberOverload ''response_ok_with_message'' [envoy_CheckResponse, StringType]
         envoy_CheckResponse (Binary (response_with_message A))]),
      (''WithMetadata'', [MemberOverload ''response_ok_with_metadata'' [envoy_CheckResponse, envoy_Metadata]
         envoy_CheckResponse (Binary (response_with_metadata A))])]"

lemma envoy_decls_ok: "decls_ok (envoy_decls A)"
  by (simp add: decl_simps envoy_decls_def envoy_type_defs)

text \<open>Calling a function of the library.\<close>

fun envoy_call :: "('v, ('v, 'm) envoy_fn) binding \<Rightarrow> 'v list \<Rightarrow> ('v, 'm) envoy_fn" where
  "envoy_call (NoArgs r) [] = r"
| "envoy_call (Unary f) [a] = f a"
| "envoy_call (Binary f) [a, b] = f a b"
| "envoy_call (Nary f) args = f args"
| "envoy_call _ _ = (\<lambda>_. Panic ''no such overload'')"

lemma convert_st_simps [simp]:
  "convert_st A (Inl err) k h = Ret (WrapErr A err, h)" "convert_st A (Inr a) k h = k a h"
  by (simp_all add: convert_st_def)

lemma arg_st_simps [simp]:
  "arg_st (a # args) 0 k = k a" "arg_st (a # args) (Suc i) k = arg_st args i k"
  "arg_st (a # args) 1 k = arg_st args 0 k" "arg_st (a # args) 2 k = arg_st args 1 k"
  by (simp_all add: arg_st_def fun_eq_iff nth_Cons')

section \<open>Interface: building in place\<close>

text \<open>
  A builder changes the message its receiver points to and returns that same pointer. What a
  policy sees follows from this contract: the result is the receiver, other messages of the
  kind are untouched, and calls on one receiver accumulate.
\<close>

locale builder =
  fixes get :: "'m envoy_heap \<Rightarrow> ptr \<rightharpoonup> 'o" and ret :: "ptr \<Rightarrow> 'v"
    and run :: "ptr \<Rightarrow> ('v, 'm) envoy_fn" and change :: "'m envoy_heap \<Rightarrow> 'o \<Rightarrow> 'o"
  assumes dangling: "get h p = None \<Longrightarrow> run p h = Panic nil_deref"
    and builds: "get h p = Some m \<Longrightarrow> \<exists>h'. run p h = Ret (ret p, h') \<and> get h' = (get h)(p \<mapsto> change h m)"
begin

lemma in_place: "run p h = Ret (v, h') \<Longrightarrow> v = ret p \<and> (\<exists>m. get h p = Some m \<and> get h' p = Some (change h m))"
  using dangling [of h p] builds [of h p] by (cases "get h p") auto

lemma frame: "run p h = Ret (v, h') \<Longrightarrow> q \<noteq> p \<Longrightarrow> get h' q = get h q"
  using dangling [of h p] builds [of h p] by (cases "get h p") auto

lemma accumulates:
  "run p h = Ret (v, h1) \<Longrightarrow> run p h1 = Ret (v', h2) \<Longrightarrow>
    v' = v \<and> (\<exists>m. get h p = Some m \<and> get h2 p = Some (change h1 (change h m)))"
  using in_place [of p h v h1] in_place [of p h1 v' h2] by auto

end

definition add_header :: "('v, 'm) envoy_adapter \<Rightarrow> string \<Rightarrow> string \<Rightarrow> ptr \<Rightarrow> ('v, 'm) envoy_fn" where
  "add_header A key value p h =
     (let (header, h) = new_header \<lparr>hv_Header = Some (key, value), KeepEmptyValue = False\<rparr> h
      in set_ok A p (\<lambda>m. m\<lparr>Headers := Headers m @ [header]\<rparr>) h)"

interpretation ok_builder: builder oks "of_ok A" "\<lambda>p. set_ok A p f" "\<lambda>_. f" for A f
  by unfold_locales (auto simp: set_ok_def)

interpretation denied_builder: builder denieds "of_denied A" "\<lambda>p. set_denied A p f" "\<lambda>_. f" for A f
  by unfold_locales (auto simp: set_denied_def)

interpretation header_builder: builder headers "of_header A" "\<lambda>p. set_header A p f" "\<lambda>_. f" for A f
  by unfold_locales (auto simp: set_header_def)

interpretation add_header_builder: builder oks "of_ok A" "add_header A k v"
    "\<lambda>h m. m\<lparr>Headers := Headers m @ [fresh h]\<rparr>" for A k v
  by unfold_locales (auto simp: add_header_def new_header_def set_ok_def)

section \<open>The heap invariant\<close>

text \<open>
  Addresses from \<open>fresh\<close> on are unused, messages point to messages that exist, and responses
  have a status, as those of the library do.
\<close>

definition ok_msg :: "ptr set \<Rightarrow> ptr set \<Rightarrow> OkHttpResponse \<Rightarrow> bool" where
  "ok_msg H P m \<longleftrightarrow> set (Headers m) \<subseteq> H \<and> set (ResponseHeadersToAdd m) \<subseteq> H \<and> set (QueryParametersToSet m) \<subseteq> P"

definition denied_msg :: "ptr set \<Rightarrow> DeniedHttpResponse \<Rightarrow> bool" where
  "denied_msg H m \<longleftrightarrow> set (dn_Headers m) \<subseteq> H"

definition response_msg :: "ptr set \<Rightarrow> ptr set \<Rightarrow> 'm EnvoyResponse \<Rightarrow> bool" where
  "response_msg K D m \<longleftrightarrow> Status m \<noteq> None
     \<and> (case HttpResponseKind m of NoHttpResponse \<Rightarrow> True | OkResponse q \<Rightarrow> q \<in> K | DeniedResponse q \<Rightarrow> q \<in> D)"

definition unused :: "'m envoy_heap \<Rightarrow> ptr \<Rightarrow> bool" where
  "unused h p \<longleftrightarrow> headers h p = None \<and> params h p = None \<and> oks h p = None \<and> denieds h p = None \<and> responses h p = None"

definition heap_ok :: "'m envoy_heap \<Rightarrow> bool" where
  "heap_ok h \<longleftrightarrow> (\<forall>p \<ge> fresh h. unused h p)
     \<and> (\<forall>m \<in> ran (oks h). ok_msg (dom (headers h)) (dom (params h)) m)
     \<and> (\<forall>m \<in> ran (denieds h). denied_msg (dom (headers h)) m)
     \<and> (\<forall>m \<in> ran (responses h). response_msg (dom (oks h)) (dom (denieds h)) m)"

lemma ball_ran_upd: "P x \<Longrightarrow> (\<And>m. m \<in> ran f \<Longrightarrow> P m) \<Longrightarrow> m \<in> ran (f(p \<mapsto> x)) \<Longrightarrow> P m"
  by (auto simp: ran_def split: if_splits)

lemma msg_mono:
  "ok_msg H P m \<Longrightarrow> ok_msg (insert p H) P m" "ok_msg H P m \<Longrightarrow> ok_msg H (insert p P) m"
  "denied_msg H d \<Longrightarrow> denied_msg (insert p H) d"
  "response_msg K D r \<Longrightarrow> response_msg (insert p K) D r" "response_msg K D r \<Longrightarrow> response_msg K (insert p D) r"
  by (auto simp: ok_msg_def denied_msg_def response_msg_def split: http_response_kind.splits)

definition value_ok :: "('v, 'm) envoy_adapter \<Rightarrow> 'm envoy_heap \<Rightarrow> 'v \<Rightarrow> bool" where
  "value_ok A h v \<longleftrightarrow>
     (\<forall>p. native_ok A v = Inr p \<longrightarrow> p \<in> dom (oks h)) \<and> (\<forall>p. native_denied A v = Inr p \<longrightarrow> p \<in> dom (denieds h))
     \<and> (\<forall>p. native_header A v = Inr p \<longrightarrow> p \<in> dom (headers h)) \<and> (\<forall>p. native_param A v = Inr p \<longrightarrow> p \<in> dom (params h))
     \<and> (\<forall>p. native_response A v = Inr p \<longrightarrow> p \<in> dom (responses h))"

lemma heap_ok_empty: "heap_ok empty_heap"
  by (simp add: heap_ok_def empty_heap_def unused_def)

text \<open>A function is safe on a heap when it returns and keeps the invariant.\<close>

definition safe :: "('v, 'm) envoy_fn \<Rightarrow> 'm envoy_heap \<Rightarrow> bool" where
  "safe f h \<longleftrightarrow> (\<exists>v h'. f h = Ret (v, h') \<and> heap_ok h')"

lemma safe_convert: "heap_ok h \<Longrightarrow> (\<And>a. r = Inr a \<Longrightarrow> safe (k a) h) \<Longrightarrow> safe (convert_st A r k) h"
  by (cases r) (auto simp: safe_def)

text \<open>Allocation and assignment keep the invariant when the message written is well formed.\<close>

lemma heap_ok_new:
  assumes "heap_ok h"
  shows "heap_ok (h\<lparr>headers := (headers h)(fresh h \<mapsto> hm), fresh := Suc (fresh h)\<rparr>)"
    and "heap_ok (h\<lparr>params := (params h)(fresh h \<mapsto> pm), fresh := Suc (fresh h)\<rparr>)"
    and "ok_msg (dom (headers h)) (dom (params h)) k \<Longrightarrow> heap_ok (h\<lparr>oks := (oks h)(fresh h \<mapsto> k), fresh := Suc (fresh h)\<rparr>)"
    and "denied_msg (dom (headers h)) d \<Longrightarrow> heap_ok (h\<lparr>denieds := (denieds h)(fresh h \<mapsto> d), fresh := Suc (fresh h)\<rparr>)"
    and "response_msg (dom (oks h)) (dom (denieds h)) r \<Longrightarrow>
      heap_ok (h\<lparr>responses := (responses h)(fresh h \<mapsto> r), fresh := Suc (fresh h)\<rparr>)"
  using assms
  by (auto simp: heap_ok_def unused_def msg_mono elim: ball_ran_upd [rotated 2] intro: msg_mono)

lemma heap_ok_set:
  assumes "heap_ok h"
  shows "p \<in> dom (headers h) \<Longrightarrow> heap_ok (h\<lparr>headers := (headers h)(p \<mapsto> hm)\<rparr>)"
    and "p \<in> dom (oks h) \<Longrightarrow> ok_msg (dom (headers h)) (dom (params h)) k \<Longrightarrow> heap_ok (h\<lparr>oks := (oks h)(p \<mapsto> k)\<rparr>)"
    and "p \<in> dom (denieds h) \<Longrightarrow> denied_msg (dom (headers h)) d \<Longrightarrow> heap_ok (h\<lparr>denieds := (denieds h)(p \<mapsto> d)\<rparr>)"
    and "p \<in> dom (responses h) \<Longrightarrow> response_msg (dom (oks h)) (dom (denieds h)) r \<Longrightarrow>
      heap_ok (h\<lparr>responses := (responses h)(p \<mapsto> r)\<rparr>)"
  using assms
  by (auto simp: heap_ok_def unused_def insert_absorb elim: ball_ran_upd [rotated 2])

lemma heap_ok_ok_msg: "heap_ok h \<Longrightarrow> oks h p = Some m \<Longrightarrow> ok_msg (dom (headers h)) (dom (params h)) m"
  by (auto simp: heap_ok_def ran_def)

lemma heap_ok_denied_msg: "heap_ok h \<Longrightarrow> denieds h p = Some m \<Longrightarrow> denied_msg (dom (headers h)) m"
  by (auto simp: heap_ok_def ran_def)

lemma heap_ok_response_msg: "heap_ok h \<Longrightarrow> responses h p = Some m \<Longrightarrow> response_msg (dom (oks h)) (dom (denieds h)) m"
  by (auto simp: heap_ok_def ran_def)

lemma safe_set_ok:
  assumes "heap_ok h" and "p \<in> dom (oks h)"
    and "\<And>m. ok_msg (dom (headers h)) (dom (params h)) m \<Longrightarrow> ok_msg (dom (headers h)) (dom (params h)) (f m)"
  shows "safe (set_ok A p f) h"
  using assms heap_ok_ok_msg [OF assms(1)] heap_ok_set(2) [OF assms(1,2)] by (auto simp: safe_def set_ok_def)

lemma safe_set_denied:
  assumes "heap_ok h" and "p \<in> dom (denieds h)"
    and "\<And>m. denied_msg (dom (headers h)) m \<Longrightarrow> denied_msg (dom (headers h)) (f m)"
  shows "safe (set_denied A p f) h"
  using assms heap_ok_denied_msg [OF assms(1)] heap_ok_set(3) [OF assms(1,2)] by (auto simp: safe_def set_denied_def)

lemma safe_set_header:
  assumes "heap_ok h" and "p \<in> dom (headers h)"
  shows "safe (set_header A p f) h"
  using assms heap_ok_set(1) [OF assms] by (auto simp: safe_def set_header_def)

lemma safe_new [simp]:
  "safe (\<lambda>h. case new_header m h of (p, x) \<Rightarrow> k p x) h =
     safe (k (fresh h)) (h\<lparr>headers := (headers h)(fresh h \<mapsto> m), fresh := Suc (fresh h)\<rparr>)"
  "safe (\<lambda>h. case new_param q h of (p, x) \<Rightarrow> k p x) h =
     safe (k (fresh h)) (h\<lparr>params := (params h)(fresh h \<mapsto> q), fresh := Suc (fresh h)\<rparr>)"
  "safe (\<lambda>h. case new_denied d h of (p, x) \<Rightarrow> k p x) h =
     safe (k (fresh h)) (h\<lparr>denieds := (denieds h)(fresh h \<mapsto> d), fresh := Suc (fresh h)\<rparr>)"
  "safe (\<lambda>h. case new_response r h of (p, x) \<Rightarrow> k p x) h =
     safe (k (fresh h)) (h\<lparr>responses := (responses h)(fresh h \<mapsto> r), fresh := Suc (fresh h)\<rparr>)"
  by (simp_all add: safe_def new_header_def new_param_def new_denied_def new_response_def)

lemma safe_Ret [simp]: "safe (\<lambda>h. Ret (v, h)) h = heap_ok h"
  by (simp add: safe_def)

text \<open>One lemma per function, for arguments whose pointers are in the heap.\<close>

lemma value_okD:
  assumes "value_ok A h v"
  shows "native_ok A v = Inr p \<Longrightarrow> p \<in> dom (oks h)" "native_denied A v = Inr p \<Longrightarrow> p \<in> dom (denieds h)"
    "native_header A v = Inr p \<Longrightarrow> p \<in> dom (headers h)" "native_param A v = Inr p \<Longrightarrow> p \<in> dom (params h)"
    "native_response A v = Inr p \<Longrightarrow> p \<in> dom (responses h)"
  using assms unfolding value_ok_def by blast+

lemmas safe_rules = safe_convert safe_set_ok safe_set_denied safe_set_header

lemma safe_allowed: "heap_ok h \<Longrightarrow> safe (allowed A) h"
  using heap_ok_new(3) [of h] by (simp add: safe_def allowed_def new_ok_def ok_msg_def)

lemma safe_ok_functions:
  assumes "heap_ok h" and "value_ok A h a" and "value_ok A h b"
  shows "safe (ok_with_header_header A a b) h" and "safe (ok_without_header A a b) h"
    and "safe (ok_with_response_header_header A a b) h" and "safe (ok_with_queryparam_param A a b) h"
    and "safe (ok_without_queryparam_string A a b) h"
  using assms
  by (auto simp: ok_with_header_header_def ok_without_header_def ok_with_response_header_header_def
      ok_with_queryparam_param_def ok_without_queryparam_string_def ok_msg_def
      intro!: safe_rules dest!: value_okD [OF assms(2)] value_okD [OF assms(3)])

lemma safe_ok_string_functions:
  assumes "heap_ok h" and "value_ok A h a"
  shows "safe (ok_with_header_string_string A [a, b, c]) h" and "safe (ok_with_response_header_string_string A [a, b, c]) h"
    and "safe (ok_with_queryparam_string_string A [a, b, c]) h"
  using assms
  by (auto simp: ok_with_header_string_string_def ok_with_response_header_string_string_def
      ok_with_queryparam_string_string_def ok_msg_def heap_ok_new
      intro!: safe_rules dest!: value_okD [OF assms(2)])

lemma safe_denied_functions:
  assumes "heap_ok h" and "value_ok A h a" and "value_ok A h b"
  shows "safe (denied A a) h" and "safe (denied_with_body A a b) h" and "safe (denied_with_header_header A a b) h"
    and "safe (denied_with_header_string_string A [a, c, d]) h"
  using assms
  by (auto simp: denied_def denied_with_body_def denied_with_header_header_def denied_with_header_string_string_def
      denied_msg_def heap_ok_new
      intro!: safe_rules dest!: value_okD [OF assms(2)] value_okD [OF assms(3)])

lemma safe_header_functions:
  assumes "heap_ok h" and "value_ok A h a"
  shows "safe (header_key_value A a b) h" and "safe (queryparam_key_value A a b) h"
    and "safe (header_keep_empty_value_bool A a b) h" and "safe (header_keep_empty_value A a) h"
  using assms
  by (auto simp: header_key_value_def queryparam_key_value_def header_keep_empty_value_bool_def
      header_keep_empty_value_def heap_ok_new
      intro!: safe_rules dest!: value_okD [OF assms(2)])

lemma safe_response_builders:
  assumes "heap_ok h" and "value_ok A h a"
  shows "safe (response_ok A a) h" and "safe (response_denied A a) h"
  using assms
  by (auto simp: response_ok_def response_denied_def response_msg_def
      intro!: safe_rules heap_ok_new(5) dest!: value_okD [OF assms(2)])

lemma safe_response_changes:
  assumes "heap_ok h" and "value_ok A h a"
  shows "safe (response_with_message A a b) h" and "safe (response_with_metadata A a b) h"
proof -
  have msg: "safe (\<lambda>h. case responses h p of None \<Rightarrow> Panic nil_deref | Some m \<Rightarrow> (case Status m of None \<Rightarrow> Panic nil_deref
      | Some st \<Rightarrow> Ret (of_response A p, h\<lparr>responses := (responses h)(p \<mapsto> m\<lparr>Status := Some (st\<lparr>Message := msg\<rparr>)\<rparr>)\<rparr>))) h"
    if p: "p \<in> dom (responses h)" for p msg
  proof -
    from p obtain m where m: "responses h p = Some m" by blast
    from heap_ok_response_msg [OF assms(1) m] obtain st where "Status m = Some st" by (auto simp: response_msg_def)
    with m heap_ok_response_msg [OF assms(1) m] show ?thesis
      by (simp add: safe_def response_msg_def heap_ok_set(4) [OF assms(1) p])
  qed
  have md: "safe (\<lambda>h. case responses h p of None \<Rightarrow> Panic nil_deref | Some m \<Rightarrow>
      Ret (of_response A p, h\<lparr>responses := (responses h)(p \<mapsto> m\<lparr>DynamicMetadata := Some md\<rparr>)\<rparr>)) h"
    if p: "p \<in> dom (responses h)" for p md
  proof -
    from p obtain m where m: "responses h p = Some m" by blast
    with heap_ok_response_msg [OF assms(1) m] show ?thesis
      by (simp add: safe_def response_msg_def heap_ok_set(4) [OF assms(1) p])
  qed
  show "safe (response_with_message A a b) h"
    unfolding response_with_message_def
    by (intro safe_convert assms(1) msg value_okD [OF assms(2)])
  show "safe (response_with_metadata A a b) h"
    unfolding response_with_metadata_def
    by (intro safe_convert assms(1) md value_okD [OF assms(2)])
qed

section \<open>Properties\<close>

text \<open>Values that are pointers, for concrete runs.\<close>

datatype envoy_value = VOk ptr | VDenied ptr | VHeader ptr | VParam ptr | VResponse ptr | VString string
  | VStrings "string list" | VCode int | VBool bool | VStruct nat | VErr go_error

definition no_conversion :: go_error where
  "no_conversion = Errorf ''unsupported conversion''"

definition sample_envoy_adapter :: "(envoy_value, nat) envoy_adapter" where
  "sample_envoy_adapter =
    \<lparr>native_string = (\<lambda>v. case v of VString s \<Rightarrow> Inr s | _ \<Rightarrow> Inl no_conversion),
     native_int = (\<lambda>v. Inl no_conversion), native_boolean = (\<lambda>v. case v of VBool b \<Rightarrow> Inr b | _ \<Rightarrow> Inl no_conversion),
     of_string = VString, of_strings = VStrings, WrapErr = VErr,
     native_ok = (\<lambda>v. case v of VOk p \<Rightarrow> Inr p | _ \<Rightarrow> Inl no_conversion),
     native_denied = (\<lambda>v. case v of VDenied p \<Rightarrow> Inr p | _ \<Rightarrow> Inl no_conversion),
     native_header = (\<lambda>v. case v of VHeader p \<Rightarrow> Inr p | _ \<Rightarrow> Inl no_conversion),
     native_param = (\<lambda>v. case v of VParam p \<Rightarrow> Inr p | _ \<Rightarrow> Inl no_conversion),
     native_response = (\<lambda>v. case v of VResponse p \<Rightarrow> Inr p | _ \<Rightarrow> Inl no_conversion),
     native_code = (\<lambda>v. case v of VCode c \<Rightarrow> Inr c | _ \<Rightarrow> Inl no_conversion),
     native_struct = (\<lambda>v. case v of VStruct n \<Rightarrow> Inr n | _ \<Rightarrow> Inl no_conversion),
     of_ok = VOk, of_denied = VDenied, of_header = VHeader, of_param = VParam, of_response = VResponse,
     value_True = VBool True\<rparr>"

definition sample_heap :: "nat envoy_heap" where
  "sample_heap = \<lparr>headers = Map.empty, params = Map.empty,
     oks = [0 \<mapsto> \<lparr>Headers = [], HeadersToRemove = [], ResponseHeadersToAdd = [], QueryParametersToSet = [],
                   QueryParametersToRemove = []\<rparr>],
     denieds = [1 \<mapsto> \<lparr>dn_Status = Some 403, dn_Headers = [], Body = ''no''\<rparr>],
     responses = [2 \<mapsto> \<lparr>Status = Some \<lparr>Code = 0, Message = []\<rparr>, HttpResponseKind = OkResponse 0, DynamicMetadata = None\<rparr>],
     fresh = 3\<rparr>"

lemma heap_ok_sample: "heap_ok sample_heap"
  by (auto simp: heap_ok_def sample_heap_def unused_def ok_msg_def denied_msg_def response_msg_def ran_def split: if_splits)

text \<open>
  C27. When no function of the library panics or breaks the heap: in a heap where every response has
  a status and every pointer inside a message is to an existing one, every function called on as many
  arguments as it declares, whose pointers are to existing messages, returns and leaves a heap of the
  same kind. The status is needed: \<open>WithMessage\<close> panics on an existing response that has none (a
  literal \<open>CheckResponse{}\<close>) and a message that is a string.
\<close>

theorem envoy_functions_safe:
  assumes "heap_ok h" and "\<forall>v \<in> set args. value_ok A h v"
    and "ov \<in> set (lib_overloads (envoy_decls A))" and "length args = length (ov_params ov)"
  shows "(\<exists>v h'. envoy_call (ov_binding ov) args h = Ret (v, h') \<and> heap_ok h')
    \<and> (\<forall>h r p m msg s. native_response A r = Inr p \<and> responses h p = Some m \<and> Status m = None \<and> native_string A msg = Inr s
        \<longrightarrow> (\<exists>e. response_with_message A r msg h = Panic e))"
proof
  have "safe (envoy_call (ov_binding ov) args) h"
    using assms
    by (auto simp: envoy_decls_def lib_overloads_def Overload_def MemberOverload_def length_Suc_conv
        safe_allowed safe_ok_functions safe_ok_string_functions safe_denied_functions safe_header_functions
        safe_response_builders safe_response_changes)
  then show "\<exists>v h'. envoy_call (ov_binding ov) args h = Ret (v, h') \<and> heap_ok h'" by (simp add: safe_def)
  show "\<forall>h r p m msg s. native_response A r = Inr p \<and> responses h p = Some m \<and> Status m = None \<and> native_string A msg = Inr s
      \<longrightarrow> (\<exists>e. response_with_message A r msg h = Panic e)"
    by (auto simp: response_with_message_def)
qed

text \<open>\<open>WithMessage\<close> on a response of a heap with messages of every kind.\<close>

theorem envoy_functions_safe_witness:
  "\<exists>v h'. response_with_message sample_envoy_adapter (VResponse 2) (VString ''no'') sample_heap = Ret (v, h') \<and> heap_ok h'"
proof -
  have ov: "MemberOverload ''response_ok_with_message'' [envoy_CheckResponse, StringType] envoy_CheckResponse
        (Binary (response_with_message sample_envoy_adapter))
      \<in> set (lib_overloads (envoy_decls sample_envoy_adapter))"
    by (simp add: envoy_decls_def lib_overloads_def)
  have args: "\<forall>v \<in> set [VResponse 2, VString ''no'']. value_ok sample_envoy_adapter sample_heap v"
    by (simp add: value_ok_def sample_envoy_adapter_def sample_heap_def no_conversion_def)
  from envoy_functions_safe [OF heap_ok_sample args ov] show ?thesis
    by (simp add: MemberOverload_def)
qed

text \<open>
  A response decides as it was built: \<open>Response()\<close> of an allowed value has the OK code and
  the allowed message, of a denied value the code PERMISSION\_DENIED and the denied message, and
  adding a message or metadata to a response changes neither.
\<close>

lemma envoy_responses_decide:
  assumes "native_ok A ok = Inr p" and "native_denied A dn = Inr q" and "native_response A resp = Inr r"
    and "response_ok A ok h = Ret (v1, h1)" and "response_denied A dn h = Ret (v2, h2)"
    and "responses h r = Some m"
    and "response_with_message A resp msg h = Ret (v3, h3)" and "response_with_metadata A resp md h = Ret (v4, h4)"
  shows "(\<exists>s. v1 = of_response A (fresh h) \<and> responses h1 (fresh h) = Some s \<and> GetOkResponse s = Some p
        \<and> GetDeniedResponse s = None \<and> map_option Code (Status s) = Some codes_OK)
    \<and> (\<exists>s. v2 = of_response A (fresh h) \<and> responses h2 (fresh h) = Some s \<and> GetDeniedResponse s = Some q
        \<and> GetOkResponse s = None \<and> map_option Code (Status s) = Some codes_PermissionDenied)
    \<and> (\<exists>s. responses h3 r = Some s \<and> HttpResponseKind s = HttpResponseKind m
        \<and> map_option Code (Status s) = map_option Code (Status m))
    \<and> (\<exists>s. responses h4 r = Some s \<and> HttpResponseKind s = HttpResponseKind m \<and> Status s = Status m)"
proof (intro conjI)
  show "\<exists>s. v1 = of_response A (fresh h) \<and> responses h1 (fresh h) = Some s \<and> GetOkResponse s = Some p
      \<and> GetDeniedResponse s = None \<and> map_option Code (Status s) = Some codes_OK"
    using assms(1,4) by (auto simp: response_ok_def new_response_def GetOkResponse_def GetDeniedResponse_def)
  show "\<exists>s. v2 = of_response A (fresh h) \<and> responses h2 (fresh h) = Some s \<and> GetDeniedResponse s = Some q
      \<and> GetOkResponse s = None \<and> map_option Code (Status s) = Some codes_PermissionDenied"
    using assms(2,5) by (auto simp: response_denied_def new_response_def GetOkResponse_def GetDeniedResponse_def)
  show "\<exists>s. responses h3 r = Some s \<and> HttpResponseKind s = HttpResponseKind m
      \<and> map_option Code (Status s) = map_option Code (Status m)"
    using assms(3,6,7) by (auto simp: response_with_message_def convert_st_def split: sum.splits option.splits)
  show "\<exists>s. responses h4 r = Some s \<and> HttpResponseKind s = HttpResponseKind m \<and> Status s = Status m"
    using assms(3,6,8) by (auto simp: response_with_metadata_def convert_st_def split: sum.splits)
qed

lemma envoy_responses_decide_sample:
  "\<exists>v h1 s. response_denied sample_envoy_adapter (VDenied 1) sample_heap = Ret (v, h1)
     \<and> responses h1 3 = Some s \<and> GetDeniedResponse s = Some 1"
proof -
  note sample = sample_envoy_adapter_def sample_heap_def
  obtain v1 h1 where 1: "response_ok sample_envoy_adapter (VOk 0) sample_heap = Ret (v1, h1)"
    by (simp add: sample response_ok_def new_response_def)
  obtain v2 h2 where 2: "response_denied sample_envoy_adapter (VDenied 1) sample_heap = Ret (v2, h2)"
    by (simp add: sample response_denied_def new_response_def)
  obtain v3 h3 where 3: "response_with_message sample_envoy_adapter (VResponse 2) (VString ''m'') sample_heap = Ret (v3, h3)"
    by (simp add: sample response_with_message_def)
  obtain v4 h4 where 4: "response_with_metadata sample_envoy_adapter (VResponse 2) (VStruct 5) sample_heap = Ret (v4, h4)"
    by (simp add: sample response_with_metadata_def)
  obtain m where m: "responses sample_heap 2 = Some m" by (simp add: sample_heap_def)
  have f: "fresh sample_heap = 3" by (simp add: sample_heap_def)
  have n: "native_ok sample_envoy_adapter (VOk 0) = Inr 0" "native_denied sample_envoy_adapter (VDenied 1) = Inr 1"
    "native_response sample_envoy_adapter (VResponse 2) = Inr 2"
    by (simp_all add: sample_envoy_adapter_def)
  from envoy_responses_decide [OF n 1 2 m 3 4] 2 show ?thesis unfolding f by blast
qed

text \<open>
  C28. Builders work in place: \<open>WithHeader\<close> on an allowed value returns that same value with one
  more header, so a second call on it adds to the first, and a response built from it before
  the call carries the new header too.
\<close>

theorem with_header_mutates_shared_value:
  assumes "native_ok A ok = Inr p" and "native_string A key = Inr k" and "native_string A val = Inr w"
    and "oks h p = Some m" and "responses h r = Some resp" and "GetOkResponse resp = Some p"
    and "ok_with_header_string_string A [ok, key, val] h = Ret (v, h1)"
    and "ok_with_header_string_string A [ok, key, val] h1 = Ret (v', h2)"
  shows "v = of_ok A p \<and> v' = v
    \<and> responses h1 r = Some resp
    \<and> (\<exists>m1. oks h1 p = Some m1 \<and> Headers m1 = Headers m @ [fresh h] \<and> headers h1 (fresh h)
          = Some \<lparr>hv_Header = Some (k, w), KeepEmptyValue = False\<rparr>)
    \<and> (\<exists>m2. oks h2 p = Some m2 \<and> Headers m2 = Headers m @ [fresh h, fresh h1])"
proof -
  have run: "ok_with_header_string_string A [ok, key, val] h = add_header A k w p h" for h
    using assms(1-3) by (simp add: ok_with_header_string_string_def add_header_def)
  have h1: "add_header A k w p h = Ret (v, h1)" and h2: "add_header A k w p h1 = Ret (v', h2)"
    using assms(7,8) by (simp_all add: run)
  have "responses h1 r = Some resp" "headers h1 (fresh h) = Some \<lparr>hv_Header = Some (k, w), KeepEmptyValue = False\<rparr>"
    using h1 assms(4,5) by (auto simp: add_header_def new_header_def set_ok_def)
  with add_header_builder.in_place [OF h1] add_header_builder.in_place [OF h2] assms(4) show ?thesis by auto
qed

theorem with_header_mutates_shared_value_witness:
  "\<exists>v h1 m1. ok_with_header_string_string sample_envoy_adapter [VOk 0, VString ''a'', VString ''b''] sample_heap = Ret (v, h1)
     \<and> v = VOk 0 \<and> oks h1 0 = Some m1 \<and> Headers m1 = [3]"
proof -
  note sample = sample_envoy_adapter_def sample_heap_def
  let ?run = "ok_with_header_string_string sample_envoy_adapter [VOk 0, VString ''a'', VString ''b'']"
  obtain v h1 where 1: "?run sample_heap = Ret (v, h1)"
    by (simp add: sample ok_with_header_string_string_def new_header_def set_ok_def)
  then have "oks h1 0 \<noteq> None"
    by (auto simp: sample ok_with_header_string_string_def new_header_def set_ok_def)
  then obtain v' h2 where 2: "?run h1 = Ret (v', h2)"
    by (auto simp: sample_envoy_adapter_def ok_with_header_string_string_def new_header_def set_ok_def)
  obtain m where m: "oks sample_heap 0 = Some m" "Headers m = []" by (simp add: sample_heap_def)
  obtain resp where r: "responses sample_heap 2 = Some resp" "GetOkResponse resp = Some 0"
    by (simp add: sample_heap_def GetOkResponse_def)
  have n: "native_ok sample_envoy_adapter (VOk 0) = Inr 0" "native_string sample_envoy_adapter (VString ''a'') = Inr ''a''"
    "native_string sample_envoy_adapter (VString ''b'') = Inr ''b''"
    by (simp_all add: sample_envoy_adapter_def)
  have "fresh sample_heap = 3" "of_ok sample_envoy_adapter 0 = VOk 0" by (simp_all add: sample)
  with with_header_mutates_shared_value [OF n m(1) r 1 2] 1 m(2) show ?thesis by auto
qed

end
