(* ===== verification/Metrics.thy ===== *)
theory Metrics
  imports HttpLib EnvoyLib
begin

text \<open>
  The metrics of the servers (\<open>pkg/metrics\<close>). A counter vector maps label values to a count; a
  histogram vector is modelled by the number of its observations per label values, the observed
  durations being wall-clock readings. The metrics client is the parameter \<open>vectors\<close>: whether it gives
  the metric of some label values or panics.
\<close>

section \<open>Vectors\<close>

type_synonym vec = "string list \<Rightarrow> nat"

definition Inc :: "string list \<Rightarrow> vec \<Rightarrow> vec" where
  "Inc labels v = v(labels := Suc (v labels))"

record metrics =
  authzRequestDecisionsTotal :: vec
  authzDecisionDurationSeconds :: vec
  httpRequestsMetric :: vec
  httpRequestsErrorMetric :: vec
  httpDurationMetric :: vec
  envoyRequestsMetric :: vec
  envoyRequestsErrorMetric :: vec
  envoyDurationMetric :: vec
  authzDecisionsTotal :: vec
  authzPolicyDurationSeconds :: vec

definition zero_metrics :: metrics where
  "zero_metrics = \<lparr>authzRequestDecisionsTotal = (\<lambda>_. 0), authzDecisionDurationSeconds = (\<lambda>_. 0),
     httpRequestsMetric = (\<lambda>_. 0), httpRequestsErrorMetric = (\<lambda>_. 0), httpDurationMetric = (\<lambda>_. 0),
     envoyRequestsMetric = (\<lambda>_. 0), envoyRequestsErrorMetric = (\<lambda>_. 0), envoyDurationMetric = (\<lambda>_. 0),
     authzDecisionsTotal = (\<lambda>_. 0), authzPolicyDurationSeconds = (\<lambda>_. 0)\<rparr>"

section \<open>Descriptors\<close>

datatype metric_type = CounterVec | HistogramVec

record metric_desc =
  md_Type :: metric_type
  md_Name :: string
  md_Help :: string
  md_Labels :: "string list"

definition desc_RequestDecisions :: metric_desc where
  "desc_RequestDecisions = \<lparr>md_Type = CounterVec, md_Name = ''authz_decisions_total'',
     md_Help = ''Total number of authz decisions by mode, outcome, and source.'',
     md_Labels = [''mode'', ''decision'', ''source'']\<rparr>"

definition desc_DecisionDuration :: metric_desc where
  "desc_DecisionDuration = \<lparr>md_Type = HistogramVec, md_Name = ''authz_decision_duration_seconds'',
     md_Help = ''Duration in seconds for authz decisions by mode and outcome.'',
     md_Labels = [''mode'', ''decision'']\<rparr>"

definition desc_envoyRequests :: metric_desc where
  "desc_envoyRequests = \<lparr>md_Type = CounterVec, md_Name = ''authz_envoy_server_validating_requests'',
     md_Help = ''can be used to track the number of envoy requests'',
     md_Labels = [''method'', ''host'', ''path'', ''schema'', ''status'']\<rparr>"

definition desc_envoyRequestErrors :: metric_desc where
  "desc_envoyRequestErrors = \<lparr>md_Type = CounterVec, md_Name = ''authz_envoy_server_validating_request_errors'',
     md_Help = ''can be used to track the number of envoy request errors'',
     md_Labels = [''method'', ''host'', ''path'', ''schema'']\<rparr>"

definition desc_envoyDuration :: metric_desc where
  "desc_envoyDuration = \<lparr>md_Type = HistogramVec, md_Name = ''authz_envoy_server_validating_requests_duration_seconds'',
     md_Help = ''can be used to track the latencies (in seconds) associated with the entire envoy request.'',
     md_Labels = [''method'', ''host'', ''path'', ''schema'', ''status'']\<rparr>"

definition desc_httpRequests :: metric_desc where
  "desc_httpRequests = \<lparr>md_Type = CounterVec, md_Name = ''authz_http_server_validating_requests'',
     md_Help = ''can be used to track the number of http requests'',
     md_Labels = [''method'', ''host'', ''path'', ''schema'', ''status'']\<rparr>"

definition desc_httpRequestErrors :: metric_desc where
  "desc_httpRequestErrors = \<lparr>md_Type = CounterVec, md_Name = ''authz_http_server_validating_request_errors'',
     md_Help = ''can be used to track the number of http request errors'',
     md_Labels = [''method'', ''host'', ''path'', ''schema'']\<rparr>"

definition desc_httpDuration :: metric_desc where
  "desc_httpDuration = \<lparr>md_Type = HistogramVec, md_Name = ''authz_http_server_validating_requests_duration_seconds'',
     md_Help = ''can be used to track the latencies (in seconds) associated with the entire http request.'',
     md_Labels = [''method'', ''host'', ''path'', ''schema'', ''status'']\<rparr>"

definition desc_PolicyDecisions :: metric_desc where
  "desc_PolicyDecisions = \<lparr>md_Type = CounterVec, md_Name = ''authz_policy_evaluations_total'',
     md_Help = ''Total number of authz policy evaluations by policy name and decision outcome.'',
     md_Labels = [''policy'', ''decision'']\<rparr>"

definition desc_PolicyDuration :: metric_desc where
  "desc_PolicyDuration = \<lparr>md_Type = HistogramVec, md_Name = ''authz_policy_evaluation_duration_seconds'',
     md_Help = ''Duration in seconds of individual policy evaluations.'',
     md_Labels = [''policy'', ''decision'']\<rparr>"

lemmas metric_descs = desc_RequestDecisions_def desc_DecisionDuration_def desc_envoyRequests_def desc_envoyRequestErrors_def
  desc_envoyDuration_def desc_httpRequests_def desc_httpRequestErrors_def desc_httpDuration_def desc_PolicyDecisions_def
  desc_PolicyDuration_def

text \<open>
  Asking a vector for the metric of some label values is the client library's work: \<open>P d values\<close>
  is None when \<open>WithLabelValues\<close> returns a metric and the message when it panics. The library
  documents that it panics when the number of values is not the number of labels of the vector or a
  value is not valid UTF-8, and returns otherwise. A recording that asks for several metrics stops at
  the first panic; it gives the metrics and the panic, if any.
\<close>

type_synonym vectors = "metric_desc \<Rightarrow> string list \<Rightarrow> string option"

definition vector_law :: "vectors \<Rightarrow> bool" where
  "vector_law P \<longleftrightarrow>
     (\<forall>d values. P d values = None \<longleftrightarrow> length values = length (md_Labels d) \<and> (\<forall>v \<in> set values. utf8_valid v))"

definition with_labels :: "vectors \<Rightarrow> metric_desc \<Rightarrow> string list \<Rightarrow> (metrics \<Rightarrow> metrics) \<Rightarrow> metrics \<Rightarrow> metrics \<times> string option" where
  "with_labels P d values use m = (case P d values of None \<Rightarrow> (use m, None) | Some panic \<Rightarrow> (m, Some panic))"

definition and_then :: "metrics \<times> string option \<Rightarrow> (metrics \<Rightarrow> metrics \<times> string option) \<Rightarrow> metrics \<times> string option" where
  "and_then r f = (case r of (m, None) \<Rightarrow> f m | (m, Some panic) \<Rightarrow> (m, Some panic))"

text \<open>A client that follows its documentation.\<close>

definition sample_vectors :: vectors where
  "sample_vectors d values =
     (if length values = length (md_Labels d) \<and> (\<forall>v \<in> set values. utf8_valid v) then None
      else Some ''inconsistent label cardinality or invalid UTF-8'')"

lemma sample_vectors_law: "vector_law sample_vectors"
  by (simp add: vector_law_def sample_vectors_def)

lemma vector_law_panics:
  "vector_law P \<Longrightarrow> (P d values \<noteq> None) = (length values \<noteq> length (md_Labels d) \<or> \<not> (\<forall>v \<in> set values. utf8_valid v))"
  by (simp add: vector_law_def)

lemma vector_law_returns:
  "vector_law P \<Longrightarrow> length values = length (md_Labels d) \<Longrightarrow> \<forall>v \<in> set values. utf8_valid v \<Longrightarrow> P d values = None"
  by (simp add: vector_law_def)

section \<open>Authorization decisions\<close>

definition ModeHTTP :: string where "ModeHTTP = ''http''"
definition ModeEnvoy :: string where "ModeEnvoy = ''envoy''"
definition SourcePolicy :: string where "SourcePolicy = ''policy''"
definition SourceEngine :: string where "SourceEngine = ''engine''"
definition SourceDefault :: string where "SourceDefault = ''default''"
definition SourceServer :: string where "SourceServer = ''server''"
definition DecisionAllow :: string where "DecisionAllow = ''allow''"
definition DecisionDeny :: string where "DecisionDeny = ''deny''"
definition DecisionError :: string where "DecisionError = ''error''"
definition DecisionNoMatch :: string where "DecisionNoMatch = ''no_match''"

lemmas metric_labels = ModeHTTP_def ModeEnvoy_def SourcePolicy_def SourceEngine_def SourceDefault_def
  SourceServer_def DecisionAllow_def DecisionDeny_def DecisionError_def DecisionNoMatch_def

lemma decisions_differ [simp]:
  "DecisionAllow \<noteq> DecisionDeny" "DecisionAllow \<noteq> DecisionError" "DecisionDeny \<noteq> DecisionError"
  "DecisionDeny \<noteq> DecisionAllow" "DecisionError \<noteq> DecisionAllow" "DecisionError \<noteq> DecisionDeny"
  by (simp_all add: metric_labels)

definition RecordAuthzDecision :: "string \<Rightarrow> string \<Rightarrow> string \<Rightarrow> metrics \<Rightarrow> metrics" where
  "RecordAuthzDecision mode decision source m =
     m\<lparr>authzRequestDecisionsTotal := Inc [mode, decision, source] (authzRequestDecisionsTotal m),
       authzDecisionDurationSeconds := Inc [mode, decision] (authzDecisionDurationSeconds m)\<rparr>"

text \<open>
  The labels of a decision are constants of the package, so \<open>TryRecordAuthzDecision_ret\<close> below
  lets the servers use the recording that cannot panic.
\<close>

definition TryRecordAuthzDecision :: "vectors \<Rightarrow> string \<Rightarrow> string \<Rightarrow> string \<Rightarrow> metrics \<Rightarrow> metrics \<times> string option" where
  "TryRecordAuthzDecision P mode decision source m =
     and_then (with_labels P desc_RequestDecisions [mode, decision, source]
         (\<lambda>m. m\<lparr>authzRequestDecisionsTotal := Inc [mode, decision, source] (authzRequestDecisionsTotal m)\<rparr>) m)
       (with_labels P desc_DecisionDuration [mode, decision]
         (\<lambda>m. m\<lparr>authzDecisionDurationSeconds := Inc [mode, decision] (authzDecisionDurationSeconds m)\<rparr>))"

lemma utf8_valid_labels [simp]:
  "utf8_valid ModeHTTP" "utf8_valid ModeEnvoy" "utf8_valid SourcePolicy" "utf8_valid SourceEngine" "utf8_valid SourceDefault"
  "utf8_valid SourceServer" "utf8_valid DecisionAllow" "utf8_valid DecisionDeny" "utf8_valid DecisionError"
  "utf8_valid DecisionNoMatch" "utf8_valid ''ok''" "utf8_valid ''denied''"
  by (simp_all add: metric_labels utf8_valid_ascii)

lemma TryRecordAuthzDecision_ret:
  assumes "vector_law P" and "utf8_valid mode" and "utf8_valid decision" and "utf8_valid source"
  shows "TryRecordAuthzDecision P mode decision source m = (RecordAuthzDecision mode decision source m, None)"
proof -
  have "P desc_RequestDecisions [mode, decision, source] = None" "P desc_DecisionDuration [mode, decision] = None"
    using assms by (auto intro!: vector_law_returns simp: desc_RequestDecisions_def desc_DecisionDuration_def)
  then show ?thesis by (simp add: TryRecordAuthzDecision_def RecordAuthzDecision_def with_labels_def and_then_def)
qed

section \<open>HTTP requests\<close>

definition http_labels :: "('id, 'x) CheckRequest \<Rightarrow> string list" where
  "http_labels req =
     [attr_Method (Attributes req), attr_Host (Attributes req), attr_Path (Attributes req), attr_Scheme (Attributes req)]"

definition http_status :: "CheckResponse option \<Rightarrow> string" where
  "http_status res =
     (case res of
        Some r \<Rightarrow> (case resp_Denied r of Some _ \<Rightarrow> ''denied'' | None \<Rightarrow> ''ok'')
      | None \<Rightarrow> ''ok'')"

definition RecordHTTPRequest :: "vectors \<Rightarrow> ('id, 'x) CheckRequest \<Rightarrow> CheckResponse option \<Rightarrow> metrics
    \<Rightarrow> metrics \<times> string option" where
  "RecordHTTPRequest P req res m =
     (let status = http_status res
      in and_then (with_labels P desc_httpRequests (http_labels req @ [status])
             (\<lambda>m. m\<lparr>httpRequestsMetric := Inc (http_labels req @ [status]) (httpRequestsMetric m)\<rparr>) m)
           (with_labels P desc_httpDuration (http_labels req @ [status])
             (\<lambda>m. m\<lparr>httpDurationMetric := Inc (http_labels req @ [status]) (httpDurationMetric m)\<rparr>)))"

definition RecordHTTPRequestError :: "vectors \<Rightarrow> ('id, 'x) CheckRequest \<Rightarrow> metrics \<Rightarrow> metrics \<times> string option" where
  "RecordHTTPRequestError P req m =
     with_labels P desc_httpRequestErrors (http_labels req)
       (\<lambda>m. m\<lparr>httpRequestsErrorMetric := Inc (http_labels req) (httpRequestsErrorMetric m)\<rparr>) m"

text \<open>
  The request can be recorded: its method, host, path and scheme are valid UTF-8. What a recording
  then counts.
\<close>

definition labels_valid :: "('id, 'x) CheckRequest \<Rightarrow> bool" where
  "labels_valid req \<longleftrightarrow> (\<forall>l \<in> set (http_labels req). utf8_valid l)"

definition count_request :: "('id, 'x) CheckRequest \<Rightarrow> CheckResponse option \<Rightarrow> metrics \<Rightarrow> metrics" where
  "count_request req res m =
     m\<lparr>httpRequestsMetric := Inc (http_labels req @ [http_status res]) (httpRequestsMetric m),
       httpDurationMetric := Inc (http_labels req @ [http_status res]) (httpDurationMetric m)\<rparr>"

definition count_request_error :: "('id, 'x) CheckRequest \<Rightarrow> metrics \<Rightarrow> metrics" where
  "count_request_error req m = m\<lparr>httpRequestsErrorMetric := Inc (http_labels req) (httpRequestsErrorMetric m)\<rparr>"

lemma http_labels_length [simp]: "length (http_labels req) = 4"
  by (simp add: http_labels_def)

lemma http_status_valid: "utf8_valid (http_status res)"
  by (simp add: http_status_def split: option.split)

lemma RecordHTTPRequest_valid:
  assumes "vector_law P" and "labels_valid req"
  shows "RecordHTTPRequest P req res m = (count_request req res m, None)"
proof -
  have "P desc_httpRequests (http_labels req @ [http_status res]) = None"
    "P desc_httpDuration (http_labels req @ [http_status res]) = None"
    using assms by (auto intro!: vector_law_returns simp: desc_httpRequests_def desc_httpDuration_def labels_valid_def http_status_valid)
  then show ?thesis by (simp add: RecordHTTPRequest_def count_request_def with_labels_def and_then_def Let_def)
qed

lemma RecordHTTPRequest_panics:
  assumes "vector_law P" and "\<not> labels_valid req"
  shows "\<exists>panic. RecordHTTPRequest P req res m = (m, Some panic)"
proof -
  have "P desc_httpRequests (http_labels req @ [http_status res]) \<noteq> None"
    using assms(2) vector_law_panics [OF assms(1)] by (auto simp: labels_valid_def)
  then show ?thesis by (auto simp: RecordHTTPRequest_def with_labels_def and_then_def Let_def)
qed

lemma RecordHTTPRequestError_valid:
  assumes "vector_law P" and "labels_valid req"
  shows "RecordHTTPRequestError P req m = (count_request_error req m, None)"
proof -
  have "P desc_httpRequestErrors (http_labels req) = None"
    using assms by (auto intro!: vector_law_returns simp: desc_httpRequestErrors_def labels_valid_def)
  then show ?thesis by (simp add: RecordHTTPRequestError_def count_request_error_def with_labels_def)
qed

lemma RecordHTTPRequestError_panics:
  assumes "vector_law P" and "\<not> labels_valid req"
  shows "\<exists>panic. RecordHTTPRequestError P req m = (m, Some panic)"
proof -
  have "P desc_httpRequestErrors (http_labels req) \<noteq> None"
    using assms(2) vector_law_panics [OF assms(1)] by (auto simp: labels_valid_def)
  then show ?thesis by (auto simp: RecordHTTPRequestError_def with_labels_def)
qed

section \<open>Envoy requests\<close>

text \<open>An Envoy check request, as deep as the code reads it; every pointer on the way may be nil.\<close>

record EnvoyHttp =
  eh_Method :: string
  eh_Host :: string
  eh_Path :: string
  eh_Scheme :: string

type_synonym envoy_request = "EnvoyHttp option option option option"

definition envoyRequestAttributes :: "envoy_request \<Rightarrow> string \<times> string \<times> string \<times> string" where
  "envoyRequestAttributes req =
     (case req of
        Some (Some (Some (Some http))) \<Rightarrow> (eh_Method http, eh_Host http, eh_Path http, eh_Scheme http)
      | _ \<Rightarrow> ([], [], [], []))"

definition RecordEnvoyRequest :: "envoy_request \<Rightarrow> 'm EnvoyResponse option \<Rightarrow> metrics \<Rightarrow> metrics" where
  "RecordEnvoyRequest req res m =
     (let (method, host, path, scheme) = envoyRequestAttributes req;
          status = (case res of
              Some r \<Rightarrow> (case Status r of Some st \<Rightarrow> itoa (Code st) | None \<Rightarrow> [])
            | None \<Rightarrow> [])
      in m\<lparr>envoyRequestsMetric := Inc [method, host, path, scheme, status] (envoyRequestsMetric m),
           envoyDurationMetric := Inc [method, host, path, scheme, status] (envoyDurationMetric m)\<rparr>)"

definition RecordEnvoyRequestError :: "envoy_request \<Rightarrow> metrics \<Rightarrow> metrics" where
  "RecordEnvoyRequestError req m =
     (let (method, host, path, scheme) = envoyRequestAttributes req
      in m\<lparr>envoyRequestsErrorMetric := Inc [method, host, path, scheme] (envoyRequestsErrorMetric m)\<rparr>)"

text \<open>
  The strings of a protobuf message are valid UTF-8, so the service uses the recordings above;
  asking the vectors themselves:
\<close>

definition TryRecordEnvoyRequest :: "vectors \<Rightarrow> envoy_request \<Rightarrow> 'm EnvoyResponse option \<Rightarrow> metrics
    \<Rightarrow> metrics \<times> string option" where
  "TryRecordEnvoyRequest P req res m =
     (let (method, host, path, scheme) = envoyRequestAttributes req;
          status = (case res of
              Some r \<Rightarrow> (case Status r of Some st \<Rightarrow> itoa (Code st) | None \<Rightarrow> [])
            | None \<Rightarrow> [])
      in and_then (with_labels P desc_envoyRequests [method, host, path, scheme, status]
             (\<lambda>m. m\<lparr>envoyRequestsMetric := Inc [method, host, path, scheme, status] (envoyRequestsMetric m)\<rparr>) m)
           (with_labels P desc_envoyDuration [method, host, path, scheme, status]
             (\<lambda>m. m\<lparr>envoyDurationMetric := Inc [method, host, path, scheme, status] (envoyDurationMetric m)\<rparr>)))"

definition TryRecordEnvoyRequestError :: "vectors \<Rightarrow> envoy_request \<Rightarrow> metrics \<Rightarrow> metrics \<times> string option" where
  "TryRecordEnvoyRequestError P req m =
     (let (method, host, path, scheme) = envoyRequestAttributes req
      in with_labels P desc_envoyRequestErrors [method, host, path, scheme]
           (\<lambda>m. m\<lparr>envoyRequestsErrorMetric := Inc [method, host, path, scheme] (envoyRequestsErrorMetric m)\<rparr>) m)"

section \<open>Policy evaluations\<close>

text \<open>
  \<open>policyName\<close>: the name of a policy that implements \<open>Named\<close> and has one. The wrapped
  evaluator records one evaluation per call, under the class of its outcome.
\<close>

definition policyName :: "('p \<Rightarrow> string option) \<Rightarrow> 'p \<Rightarrow> string" where
  "policyName named p =
     (case named p of
        Some name \<Rightarrow> if name \<noteq> [] then name else ''unknown''
      | None \<Rightarrow> ''unknown'')"

definition RecordPolicyDecision :: "string \<Rightarrow> string \<Rightarrow> metrics \<Rightarrow> metrics" where
  "RecordPolicyDecision policy decision m =
     m\<lparr>authzDecisionsTotal := Inc [policy, decision] (authzDecisionsTotal m),
       authzPolicyDurationSeconds := Inc [policy, decision] (authzPolicyDurationSeconds m)\<rparr>"

definition TryRecordPolicyDecision :: "vectors \<Rightarrow> string \<Rightarrow> string \<Rightarrow> metrics \<Rightarrow> metrics \<times> string option" where
  "TryRecordPolicyDecision P policy decision m =
     and_then (with_labels P desc_PolicyDecisions [policy, decision]
         (\<lambda>m. m\<lparr>authzDecisionsTotal := Inc [policy, decision] (authzDecisionsTotal m)\<rparr>) m)
       (with_labels P desc_PolicyDuration [policy, decision]
         (\<lambda>m. m\<lparr>authzPolicyDurationSeconds := Inc [policy, decision] (authzPolicyDurationSeconds m)\<rparr>))"

text \<open>
  The names of policies are UTF-8 (they are decoded from JSON), so the evaluator uses
  \<open>RecordPolicyDecision\<close>.
\<close>

lemma TryRecordPolicyDecision_ret:
  assumes "vector_law P" and "utf8_valid policy" and "utf8_valid decision"
  shows "TryRecordPolicyDecision P policy decision m = (RecordPolicyDecision policy decision m, None)"
proof -
  have "P desc_PolicyDecisions [policy, decision] = None" "P desc_PolicyDuration [policy, decision] = None"
    using assms by (auto intro!: vector_law_returns simp: desc_PolicyDecisions_def desc_PolicyDuration_def)
  then show ?thesis by (simp add: TryRecordPolicyDecision_def RecordPolicyDecision_def with_labels_def and_then_def)
qed

definition MetricsEvaluatorFactory :: "('p \<Rightarrow> string option) \<Rightarrow> ('p \<Rightarrow> 'i \<Rightarrow> 'o) \<Rightarrow> ('o \<Rightarrow> string)
    \<Rightarrow> 'p \<Rightarrow> 'i \<Rightarrow> metrics \<Rightarrow> 'o \<times> metrics" where
  "MetricsEvaluatorFactory named delegate classifyFn pol inp m =
     (let out = delegate pol inp
      in (out, RecordPolicyDecision (policyName named pol) (classifyFn out) m))"

lemma Inc_apply: "Inc labels v l = (if l = labels then Suc (v l) else v l)"
  by (simp add: Inc_def)

lemma MetricsEvaluatorFactory_transparent: "fst (MetricsEvaluatorFactory named delegate c pol inp m) = delegate pol inp"
  by (simp add: MetricsEvaluatorFactory_def Let_def)

end
