(* ===== verification/RingBuffer.thy ===== *)
theory RingBuffer
  imports Prelude
begin

text \<open>
  The ring buffer of report results (\<open>pkg/events/ringbuf.go\<close>) and the contract it implements:
  a log that keeps the last entries up to its capacity. The zero value of the element type, with
  which the data slice is made, is an argument of the constructor.
\<close>

section \<open>The buffer\<close>

record 'a ringBuffer =
  rb_data :: "'a list"
  rb_size :: nat
  rb_start :: nat
  rb_count :: nat

definition ring_size_message :: "int \<Rightarrow> string" where
  "ring_size_message n = ''ring buffer size must be > 0, got '' @ itoa n"

definition NewRingBuffer :: "'a \<Rightarrow> int \<Rightarrow> 'a ringBuffer outcome" where
  "NewRingBuffer zero n =
     (if n \<le> 0 then Panic (ring_size_message n)
      else Ret \<lparr>rb_data = replicate (nat n) zero, rb_size = nat n, rb_start = 0, rb_count = 0\<rparr>)"

definition ring_Push :: "'a ringBuffer \<Rightarrow> 'a \<Rightarrow> 'a ringBuffer" where
  "ring_Push r v =
     (if rb_count r < rb_size r then
        r\<lparr>rb_data := (rb_data r)[(rb_start r + rb_count r) mod rb_size r := v], rb_count := rb_count r + 1\<rparr>
      else r\<lparr>rb_data := (rb_data r)[rb_start r := v], rb_start := (rb_start r + 1) mod rb_size r\<rparr>)"

definition ring_Values :: "'a ringBuffer \<Rightarrow> 'a list" where
  "ring_Values r = map (\<lambda>i. rb_data r ! ((rb_start r + i) mod rb_size r)) [0..<rb_count r]"

definition ring_inv :: "'a ringBuffer \<Rightarrow> bool" where
  "ring_inv r \<longleftrightarrow> 0 < rb_size r \<and> length (rb_data r) = rb_size r \<and> rb_start r < rb_size r \<and> rb_count r \<le> rb_size r
     \<and> (rb_count r < rb_size r \<longrightarrow> rb_start r = 0)"

lemma ring_inv_new: "NewRingBuffer z n = Ret r \<Longrightarrow> ring_inv r"
  by (auto simp: NewRingBuffer_def ring_inv_def split: if_splits)

lemma ring_inv_push: "ring_inv r \<Longrightarrow> ring_inv (ring_Push r v)"
  by (auto simp: ring_inv_def ring_Push_def)

section \<open>Interface: a log of the last entries\<close>

definition last_n :: "nat \<Rightarrow> 'a list \<Rightarrow> 'a list" where
  "last_n n xs = drop (length xs - n) xs"

lemma last_n_append: "last_n c (last_n c xs @ ys) = last_n c (xs @ ys)"
proof (cases "length xs \<le> c")
  case False
  then have "length xs - c + length ys = length xs + length ys - c" "length ys - c = length xs + length ys - c - length xs"
    by auto
  with False show ?thesis by (simp add: last_n_def add.commute)
qed (simp add: last_n_def)

locale bounded_log =
  fixes inv :: "'s \<Rightarrow> bool" and push :: "'s \<Rightarrow> 'a \<Rightarrow> 's" and vals :: "'s \<Rightarrow> 'a list" and cap :: "'s \<Rightarrow> nat"
  assumes inv_push: "inv s \<Longrightarrow> inv (push s v)"
    and cap_push: "inv s \<Longrightarrow> cap (push s v) = cap s"
    and vals_push: "inv s \<Longrightarrow> vals (push s v) = last_n (cap s) (vals s @ [v])"
begin

lemma inv_pushes: "inv s \<Longrightarrow> inv (foldl push s vs)"
  by (induction vs arbitrary: s) (auto simp: inv_push)

lemma cap_pushes: "inv s \<Longrightarrow> cap (foldl push s vs) = cap s"
  by (induction vs arbitrary: s) (auto simp: inv_push cap_push)

lemma vals_pushes: "inv s \<Longrightarrow> length (vals s) \<le> cap s \<Longrightarrow> vals (foldl push s vs) = last_n (cap s) (vals s @ vs)"
proof (induction vs arbitrary: s)
  case Nil
  then show ?case by (simp add: last_n_def)
next
  case (Cons v vs)
  have "length (vals (push s v)) \<le> cap (push s v)"
    using Cons.prems by (simp add: vals_push cap_push last_n_def)
  with Cons.IH [of "push s v"] Cons.prems show ?case
    using last_n_append [of "cap s" "vals s @ [v]" vs] by (simp add: inv_push cap_push vals_push)
qed

lemma bounded: "inv s \<Longrightarrow> length (vals s) \<le> cap s \<Longrightarrow> length (vals (foldl push s vs)) \<le> cap s"
  by (simp add: vals_pushes last_n_def)

end

lemma ring_Values_push:
  assumes "ring_inv r"
  shows "ring_Values (ring_Push r v) = last_n (rb_size r) (ring_Values r @ [v])"
proof (cases "rb_count r < rb_size r")
  case True
  with assms have s: "rb_start r = 0" by (simp add: ring_inv_def)
  have "ring_Values (ring_Push r v) = ring_Values r @ [v]"
  proof (rule nth_equalityI)
    fix i assume "i < length (ring_Values (ring_Push r v))"
    then have "i \<le> rb_count r" using True by (simp add: ring_Values_def ring_Push_def)
    then show "ring_Values (ring_Push r v) ! i = (ring_Values r @ [v]) ! i"
      using True s assms
      by (auto simp: ring_Values_def ring_Push_def ring_inv_def nth_append simp del: upt_Suc)
  qed (simp add: ring_Values_def ring_Push_def True)
  then show ?thesis using True by (simp add: last_n_def ring_Values_def)
next
  case False
  with assms have c: "rb_count r = rb_size r" and size: "0 < rb_size r" and st: "rb_start r < rb_size r"
    and len: "length (rb_data r) = rb_size r" by (auto simp: ring_inv_def)
  have "ring_Values (ring_Push r v) = tl (ring_Values r) @ [v]"
  proof (rule nth_equalityI)
    show "length (ring_Values (ring_Push r v)) = length (tl (ring_Values r) @ [v])"
      using c size by (simp add: ring_Values_def ring_Push_def)
  next
    fix i assume "i < length (ring_Values (ring_Push r v))"
    then have i: "i < rb_size r" using c by (simp add: ring_Values_def ring_Push_def)
    have idx: "((rb_start r + 1) mod rb_size r + i) mod rb_size r = (rb_start r + Suc i) mod rb_size r"
      by (simp add: mod_add_left_eq)
    have push: "ring_Values (ring_Push r v) ! i = (rb_data r)[rb_start r := v] ! ((rb_start r + Suc i) mod rb_size r)"
      using c i idx by (simp add: ring_Values_def ring_Push_def)
    show "ring_Values (ring_Push r v) ! i = (tl (ring_Values r) @ [v]) ! i"
    proof (cases "Suc i = rb_size r")
      case True
      then have "(rb_start r + Suc i) mod rb_size r = rb_start r" using st by simp
      moreover have "(tl (ring_Values r) @ [v]) ! i = v"
        using c by (simp add: ring_Values_def nth_append True [symmetric])
      ultimately show ?thesis using push st len by simp
    next
      case False
      with i have "Suc i < rb_size r" by simp
      moreover from this have "i < rb_size r - Suc 0" by linarith
      moreover have "(rb_start r + Suc i) mod rb_size r \<noteq> rb_start r"
      proof (cases "rb_start r + Suc i < rb_size r")
        case False
        then have "(rb_start r + Suc i) mod rb_size r = rb_start r + Suc i - rb_size r"
          using st \<open>Suc i < rb_size r\<close> by (simp add: mod_if)
        with \<open>Suc i < rb_size r\<close> False show ?thesis by linarith
      qed simp
      ultimately show ?thesis using push c by (simp add: ring_Values_def nth_append nth_tl)
    qed
  qed
  moreover have "length (ring_Values r) = rb_size r" using c by (simp add: ring_Values_def)
  ultimately show ?thesis using size by (cases "ring_Values r") (simp_all add: last_n_def)
qed

interpretation ring: bounded_log ring_inv ring_Push ring_Values rb_size
  by unfold_locales (simp_all add: ring_inv_push ring_Values_push, simp add: ring_Push_def)

section \<open>A push in two writes\<close>

text \<open>
  \<open>Push\<close> writes the element and then moves a counter. The flush worker of the OpenReports subscriber
  reads the buffer from another goroutine and may do so between the two writes.
\<close>

definition ring_Push_write :: "'a ringBuffer \<Rightarrow> 'a \<Rightarrow> 'a ringBuffer" where
  "ring_Push_write r v =
     (if rb_count r < rb_size r then r\<lparr>rb_data := (rb_data r)[(rb_start r + rb_count r) mod rb_size r := v]\<rparr>
      else r\<lparr>rb_data := (rb_data r)[rb_start r := v]\<rparr>)"

definition ring_Push_advance :: "'a ringBuffer \<Rightarrow> 'a ringBuffer" where
  "ring_Push_advance r =
     (if rb_count r < rb_size r then r\<lparr>rb_count := rb_count r + 1\<rparr>
      else r\<lparr>rb_start := (rb_start r + 1) mod rb_size r\<rparr>)"

lemma ring_Push_two_writes: "ring_Push_advance (ring_Push_write r v) = ring_Push r v"
  by (simp add: ring_Push_def ring_Push_write_def ring_Push_advance_def)

text \<open>While there is room the unfinished push is invisible.\<close>

lemma ring_Values_write_room:
  assumes "ring_inv r" and "rb_count r < rb_size r"
  shows "ring_Values (ring_Push_write r v) = ring_Values r"
  using assms by (auto simp: ring_Values_def ring_Push_write_def ring_inv_def)

text \<open>A full buffer shows the new element in the place of the oldest.\<close>

lemma ring_Values_write_full:
  assumes "ring_inv r" and "\<not> rb_count r < rb_size r"
  shows "ring_Values (ring_Push_write r v) = v # tl (ring_Values r)"
proof -
  from assms have c: "rb_count r = rb_size r" and size: "0 < rb_size r" and st: "rb_start r < rb_size r"
    and len: "length (rb_data r) = rb_size r" by (auto simp: ring_inv_def)
  have other: "(rb_start r + i) mod rb_size r \<noteq> rb_start r" if "0 < i" "i < rb_size r" for i
  proof (cases "rb_start r + i < rb_size r")
    case False
    then have "(rb_start r + i) mod rb_size r = rb_start r + i - rb_size r" using st that by (simp add: mod_if)
    with that False show ?thesis by linarith
  qed (use that in simp)
  show ?thesis
  proof (rule nth_equalityI)
    show "length (ring_Values (ring_Push_write r v)) = length (v # tl (ring_Values r))"
      using c size by (simp add: ring_Values_def ring_Push_write_def)
  next
    fix i assume "i < length (ring_Values (ring_Push_write r v))"
    then have i: "i < rb_size r" using c by (simp add: ring_Values_def ring_Push_write_def)
    show "ring_Values (ring_Push_write r v) ! i = (v # tl (ring_Values r)) ! i"
    proof (cases i)
      case 0
      with c size st len show ?thesis by (simp add: ring_Values_def ring_Push_write_def)
    next
      case (Suc j)
      with i other [of i] c show ?thesis
        by (simp add: ring_Values_def ring_Push_write_def nth_tl del: upt_Suc)
    qed
  qed
qed

lemma ring_pushes_count:
  assumes "NewRingBuffer z n = Ret r"
  shows "rb_count (foldl ring_Push r vs) = min (length vs) (nat n)" and "rb_size (foldl ring_Push r vs) = nat n"
proof -
  note inv = ring_inv_new [OF assms]
  have s: "ring_Values r = []" "rb_size r = nat n"
    using assms by (auto simp: NewRingBuffer_def ring_Values_def split: if_splits)
  show "rb_size (foldl ring_Push r vs) = nat n" using ring.cap_pushes [OF inv] s by simp
  have "length (ring_Values (foldl ring_Push r vs)) = min (length vs) (nat n)"
    using ring.vals_pushes [OF inv, of vs] s by (simp add: last_n_def)
  then show "rb_count (foldl ring_Push r vs) = min (length vs) (nat n)" by (simp add: ring_Values_def)
qed

lemma torn_not_last:
  assumes "distinct (vs @ [v])" and "n \<le> length vs" and "2 \<le> n"
  shows "v # tl (last_n n vs) \<noteq> last_n n vs" and "v # tl (last_n n vs) \<noteq> last_n n (vs @ [v])"
proof -
  have len: "length (last_n n vs) = n" using assms(2) by (simp add: last_n_def)
  then obtain x y ys where l: "last_n n vs = x # y # ys" using assms(3) by (cases "last_n n vs"; cases "tl (last_n n vs)") auto
  have "set (last_n n vs) \<subseteq> set vs" by (auto simp: last_n_def dest: in_set_dropD)
  then have new: "v \<notin> set (last_n n vs)" using assms(1) by auto
  with l show "v # tl (last_n n vs) \<noteq> last_n n vs" by auto
  have "last_n n (vs @ [v]) = tl (last_n n vs) @ [v]"
    using assms(2,3) by (simp add: last_n_def Suc_diff_le drop_Suc tl_drop)
  with l new show "v # tl (last_n n vs) \<noteq> last_n n (vs @ [v])" by auto
qed

section \<open>Properties\<close>

text \<open>
  C29. The buffer is the log of the last entries: made with a positive size, it holds after any
  sequence of pushes exactly the last \<open>size\<close> values pushed, oldest first; with a size that is
  not positive the constructor panics.
\<close>

theorem ring_buffer_keeps_last:
  "(n \<le> 0 \<longrightarrow> NewRingBuffer z n = Panic (ring_size_message n))
    \<and> (0 < n \<longrightarrow> (\<exists>r. NewRingBuffer z n = Ret r \<and> ring_Values (foldl ring_Push r vs) = last_n (nat n) vs
         \<and> length (rb_data (foldl ring_Push r vs)) = nat n))"
proof -
  have "ring_Values (foldl ring_Push r vs) = last_n (nat n) vs \<and> length (rb_data (foldl ring_Push r vs)) = nat n"
    if r: "NewRingBuffer z n = Ret r" for r
  proof -
    note inv = ring_inv_new [OF r]
    have "ring_Values r = []" "rb_size r = nat n"
      using r by (auto simp: NewRingBuffer_def ring_Values_def split: if_splits)
    with ring.vals_pushes [OF inv, of vs] ring.cap_pushes [OF inv, of vs] ring.inv_pushes [OF inv, of vs]
    show ?thesis by (simp add: ring_inv_def)
  qed
  then show ?thesis by (simp add: NewRingBuffer_def)
qed

theorem ring_buffer_keeps_last_witness:
  "\<exists>r. NewRingBuffer (0::nat) 3 = Ret r \<and> ring_Values (foldl ring_Push r [1, 2, 3, 4, 5]) = [3, 4, 5]"
  using ring_buffer_keeps_last [of 3 "0::nat" "[1, 2, 3, 4, 5]"] by (auto simp: last_n_def)

text \<open>
  C38. A flush between the two writes of a push reads a consistent log only while the buffer has room: as
  soon as it is full, the newest result stands in the place of the oldest, and the report is neither the
  log before the push nor the one after it.
\<close>

theorem flush_amid_push_tears_report:
  assumes "NewRingBuffer z n = Ret r0" and "r = foldl ring_Push r0 vs"
  shows "ring_Push_advance (ring_Push_write r v) = ring_Push r v
    \<and> (length vs < nat n \<longrightarrow> ring_Values (ring_Push_write r v) = last_n (nat n) vs)
    \<and> (nat n \<le> length vs \<longrightarrow> ring_Values (ring_Push_write r v) = v # tl (last_n (nat n) vs))
    \<and> (nat n \<le> length vs \<and> 2 \<le> n \<and> distinct (vs @ [v]) \<longrightarrow>
        ring_Values (ring_Push_write r v) \<noteq> last_n (nat n) vs \<and> ring_Values (ring_Push_write r v) \<noteq> last_n (nat n) (vs @ [v]))"
proof -
  have inv: "ring_inv r" using ring.inv_pushes [OF ring_inv_new [OF assms(1)]] by (simp add: assms(2))
  have vals: "ring_Values r = last_n (nat n) vs"
    using ring.vals_pushes [OF ring_inv_new [OF assms(1)], of vs] ring_pushes_count [OF assms(1), of "[]"] assms(2)
    by (simp add: ring_Values_def)
  have room: "rb_count r < rb_size r \<longleftrightarrow> length vs < nat n"
    using ring_pushes_count [OF assms(1), of vs] by (simp add: assms(2) min_def)
  show ?thesis
    using ring_Push_two_writes ring_Values_write_room [OF inv] ring_Values_write_full [OF inv] room vals
      torn_not_last [of vs v "nat n"]
    by (simp add: le_nat_iff)
qed

theorem flush_amid_push_tears_report_witness:
  "\<exists>r. NewRingBuffer (0::nat) 3 = Ret r \<and> ring_Values (ring_Push_write (foldl ring_Push r [1, 2, 3, 4]) 5) = [5, 3, 4]"
proof -
  obtain r where r: "NewRingBuffer (0::nat) 3 = Ret r" by (simp add: NewRingBuffer_def)
  from flush_amid_push_tears_report [OF r refl, of "[1, 2, 3, 4]" 5] r show ?thesis by (simp add: last_n_def)
qed

end
