(* ===== verification/Events.thy ===== *)
theory Events
  imports Metrics RingBuffer
begin

text \<open>
  Decision events (\<open>pkg/events\<close>): the result accessor, the composite subscriber, the writer, the
  Kubernetes events subscriber and the OpenReports subscriber with its ring buffer and counters.
  The background loops are steps that take one event from the channel. JSON encoding, message
  formatting and the API clients are arguments; log messages are left out.
\<close>

section \<open>Results\<close>

definition RequestAllowed :: string where "RequestAllowed = ''Allowed''"
definition RequestDenied :: string where "RequestDenied = ''Denied''"
definition RequestErrored :: string where "RequestErrored = ''Errored''"

lemmas request_labels = RequestAllowed_def RequestDenied_def RequestErrored_def

datatype 'm event_result =
    EnvoyResult "'m EnvoyResponse option"
  | HttpResult CheckResponse
  | OtherResult string

record 'm resultAccessor =
  ra_result :: "'m event_result"
  ra_err :: "go_error option"

definition NewResultAccessor :: "'m event_result \<Rightarrow> go_error option \<Rightarrow> 'm resultAccessor" where
  "NewResultAccessor res err = \<lparr>ra_result = res, ra_err = err\<rparr>"

definition unknown_result_message :: "string \<Rightarrow> string" where
  "unknown_result_message t = ''got an unknown type of result in the accessor '' @ t"

definition MustGet :: "'m resultAccessor \<Rightarrow> (string \<times> go_error option) outcome" where
  "MustGet r =
     (case ra_err r of
        Some err \<Rightarrow> Ret (RequestErrored, Some err)
      | None \<Rightarrow>
          (case ra_result r of
             EnvoyResult res \<Rightarrow>
               (case Option.bind res GetDeniedResponse of
                  Some _ \<Rightarrow> Ret (RequestDenied, None)
                | None \<Rightarrow> Ret (RequestAllowed, None))
           | HttpResult res \<Rightarrow>
               (case resp_Denied res of
                  Some _ \<Rightarrow> Ret (RequestDenied, None)
                | None \<Rightarrow> Ret (RequestAllowed, None))
           | OtherResult t \<Rightarrow> Panic (unknown_result_message t)))"

record event_time =
  t_unix :: int
  t_nanos :: int
  t_rfc3339 :: string

record ('r, 'm) event =
  ev_t :: event_time
  ev_req :: 'r
  ev_res :: "'m resultAccessor"

definition result_string :: "string \<Rightarrow> go_error option \<Rightarrow> string" where
  "result_string result resultErr =
     (case resultErr of Some err \<Rightarrow> result @ '': '' @ error_text err | None \<Rightarrow> result)"

text \<open>JSON encoding of a request, and the configured message format.\<close>

record 'r event_format =
  json_Marshal :: "'r \<Rightarrow> go_error + string"
  msgFormat :: "string \<Rightarrow> string \<Rightarrow> string \<Rightarrow> string"

section \<open>Subscribers\<close>

fun composite_Push :: "('e \<Rightarrow> 's \<Rightarrow> 's outcome) list \<Rightarrow> 'e \<Rightarrow> 's \<Rightarrow> 's outcome" where
  "composite_Push [] ev s = Ret s"
| "composite_Push (sub # subs) ev s = bind_outcome (sub ev s) (composite_Push subs ev)"

text \<open>The writer: \<open>write\<close> is the effect of \<open>Fprintf\<close> on the sink.\<close>

definition writer_Push :: "'r event_format \<Rightarrow> (string \<Rightarrow> 'w \<Rightarrow> 'w) \<Rightarrow> ('r, 'm) event \<Rightarrow> 'w \<Rightarrow> 'w outcome" where
  "writer_Push F write ev w =
     (case json_Marshal F (ev_req ev) of
        Inl err \<Rightarrow> Ret w
      | Inr jsonStr \<Rightarrow>
          bind_outcome (MustGet (ev_res ev)) (\<lambda>(result, resultErr).
            Ret (write (msgFormat F (t_rfc3339 (ev_t ev)) jsonStr (result_string result resultErr)) w)))"

text \<open>Sending on a buffered channel in a \<open>select\<close> with a default: the event is dropped when it is full.\<close>

definition chan_capacity :: nat where
  "chan_capacity = 50"

definition try_send :: "'e list \<Rightarrow> 'e \<Rightarrow> 'e list" where
  "try_send queue ev = (if length queue < chan_capacity then queue @ [ev] else queue)"

section \<open>Interface: a channel that drops when full\<close>

locale dropping_channel =
  fixes push :: "'s \<Rightarrow> 'e \<Rightarrow> 's" and queue :: "'s \<Rightarrow> 'e list" and cap :: nat
  assumes queue_push: "queue (push s e) = (if length (queue s) < cap then queue s @ [e] else queue s)"
begin

lemma bounded_push: "length (queue s) \<le> cap \<Longrightarrow> length (queue (push s e)) \<le> cap"
  by (simp add: queue_push)

lemma burst: "length (queue s) \<le> cap \<Longrightarrow> queue (foldl push s es) = take cap (queue s @ es)"
proof (induction es arbitrary: s)
  case (Cons e es)
  have "take cap (queue (push s e) @ es) = take cap (queue s @ e # es)"
    using Cons.prems by (auto simp: queue_push take_Cons')
  with Cons.IH [of "push s e"] bounded_push [OF Cons.prems] show ?case by simp
qed simp

lemma accepted_stay: "length (queue s) \<le> cap \<Longrightarrow> take (length (queue s)) (queue (foldl push s es)) = queue s"
  by (simp add: burst)

end

section \<open>Kubernetes events\<close>

record k8s_event =
  ke_Name :: string
  ke_Namespace :: string
  ke_InvolvedNamespace :: string
  ke_Reason :: string
  ke_Message :: string
  ke_Type :: string
  ke_Time :: event_time
  ke_Count :: int
  ke_Action :: string
  ke_ReportingController :: string
  ke_ReportingInstance :: string

record ('r, 'm) k8sEventSubscriber =
  k8s_namespace :: string
  k8s_queue :: "('r, 'm) event list"

definition NewK8sEventSubscriber :: "string \<Rightarrow> ('r, 'm) k8sEventSubscriber" where
  "NewK8sEventSubscriber ns = \<lparr>k8s_namespace = ns, k8s_queue = []\<rparr>"

definition k8s_Push :: "('r, 'm) k8sEventSubscriber \<Rightarrow> ('r, 'm) event \<Rightarrow> ('r, 'm) k8sEventSubscriber" where
  "k8s_Push k ev = k\<lparr>k8s_queue := try_send (k8s_queue k) ev\<rparr>"

text \<open>
  One round of the event loop with an event in the channel: \<open>uuid\<close> is the generated
  identifier and \<open>create\<close> the effect of the API call, whose error is only logged.
\<close>

definition k8s_event_of :: "string \<Rightarrow> string \<Rightarrow> ('r, 'm) event \<Rightarrow> string \<Rightarrow> string \<Rightarrow> k8s_event" where
  "k8s_event_of ns uuid ev result eventMsg =
     \<lparr>ke_Name = filter (\<lambda>c. c \<noteq> CHR ''-'') uuid, ke_Namespace = ns, ke_InvolvedNamespace = ns,
      ke_Reason = result, ke_Message = eventMsg, ke_Type = ''Normal'', ke_Time = ev_t ev, ke_Count = 1,
      ke_Action = result, ke_ReportingController = ''kyverno-authz-server'',
      ke_ReportingInstance = ''kyverno-authz-server''\<rparr>"

definition k8s_eventLoop :: "'r event_format \<Rightarrow> (k8s_event \<Rightarrow> 'c \<Rightarrow> 'c) \<Rightarrow> string \<Rightarrow> ('r, 'm) k8sEventSubscriber \<Rightarrow> 'c
    \<Rightarrow> (('r, 'm) k8sEventSubscriber \<times> 'c) outcome" where
  "k8s_eventLoop F create uuid k c =
     (case k8s_queue k of
        [] \<Rightarrow> Ret (k, c)
      | ev # rest \<Rightarrow>
          (let k = k\<lparr>k8s_queue := rest\<rparr> in
           case json_Marshal F (ev_req ev) of
             Inl err \<Rightarrow> Ret (k, c)
           | Inr jsonReq \<Rightarrow>
               bind_outcome (MustGet (ev_res ev)) (\<lambda>(result, resultErr).
                 (let eventMsg = msgFormat F (t_rfc3339 (ev_t ev)) jsonReq (result_string result resultErr)
                  in Ret (k, create (k8s_event_of (k8s_namespace k) uuid ev result eventMsg) c)))))"

interpretation k8s_chan: dropping_channel k8s_Push k8s_queue chan_capacity
  by unfold_locales (simp add: k8s_Push_def try_send_def)

section \<open>OpenReports\<close>

record report_result =
  rr_Result :: string
  rr_Seconds :: int
  rr_Nanos :: int
  rr_Description :: string

record report =
  rp_Name :: string
  rp_Namespace :: string
  rp_resourceVersion :: string
  rp_Error :: int64
  rp_Pass :: int64
  rp_Fail :: int64
  rp_Results :: "report_result list"

record ('r, 'm) openreportsEventSubscriber =
  results :: "report_result ringBuffer"
  or_allowed :: int64
  or_denied :: int64
  or_errored :: int64
  or_namespace :: string
  or_reportName :: string
  flushOnInterval :: bool
  eventChan :: "('r, 'm) event list"

definition empty_result :: report_result where
  "empty_result = \<lparr>rr_Result = [], rr_Seconds = 0, rr_Nanos = 0, rr_Description = []\<rparr>"

definition NewOpenreportsSubscriber :: "int \<Rightarrow> bool \<Rightarrow> string \<Rightarrow> string
    \<Rightarrow> ('r, 'm) openreportsEventSubscriber outcome" where
  "NewOpenreportsSubscriber bufferSize flushInterval reportName ns =
     bind_outcome (NewRingBuffer empty_result bufferSize) (\<lambda>ring.
       Ret \<lparr>results = ring, or_allowed = 0, or_denied = 0, or_errored = 0, or_namespace = ns,
            or_reportName = reportName, flushOnInterval = flushInterval, eventChan = []\<rparr>)"

definition openreports_Push :: "('r, 'm) openreportsEventSubscriber \<Rightarrow> ('r, 'm) event \<Rightarrow> ('r, 'm) openreportsEventSubscriber" where
  "openreports_Push o' ev = o'\<lparr>eventChan := try_send (eventChan o') ev\<rparr>"

interpretation or_chan: dropping_channel openreports_Push eventChan chan_capacity
  by unfold_locales (simp add: openreports_Push_def try_send_def)

text \<open>The counters move before the request is encoded, so an event that cannot be encoded counts too.\<close>

definition count_result :: "string \<Rightarrow> ('r, 'm) openreportsEventSubscriber \<Rightarrow> ('r, 'm) openreportsEventSubscriber" where
  "count_result res o' =
     (if res = RequestAllowed then o'\<lparr>or_allowed := or_allowed o' + 1\<rparr>
      else if res = RequestDenied then o'\<lparr>or_denied := or_denied o' + 1\<rparr>
      else if res = RequestErrored then o'\<lparr>or_errored := or_errored o' + 1\<rparr>
      else o')"

definition report_label :: "string \<Rightarrow> string" where
  "report_label res =
     (if res = RequestAllowed then ''pass'' else if res = RequestDenied then ''fail''
      else if res = RequestErrored then ''error'' else [])"

definition newReportResult :: "'r event_format \<Rightarrow> event_time \<Rightarrow> 'r \<Rightarrow> 'm resultAccessor \<Rightarrow> ('r, 'm) openreportsEventSubscriber
    \<Rightarrow> (('r, 'm) openreportsEventSubscriber \<times> (go_error + report_result)) outcome" where
  "newReportResult F t r resultAccessor o' =
     bind_outcome (MustGet resultAccessor) (\<lambda>(res, resultErr).
       (let o' = count_result res o' in
        case json_Marshal F r of
          Inl err \<Rightarrow> Ret (o', Inl err)
        | Inr jsonStr \<Rightarrow>
            Ret (o', Inr \<lparr>rr_Result = report_label res, rr_Seconds = t_unix t, rr_Nanos = t_nanos t,
                         rr_Description = msgFormat F (t_rfc3339 t) jsonStr (result_string res resultErr)\<rparr>)))"

definition newReport :: "('r, 'm) openreportsEventSubscriber \<Rightarrow> report" where
  "newReport o' = \<lparr>rp_Name = or_reportName o', rp_Namespace = or_namespace o', rp_resourceVersion = [],
     rp_Error = or_errored o', rp_Pass = or_allowed o', rp_Fail = or_denied o', rp_Results = ring_Values (results o')\<rparr>"

text \<open>The reports API over a state of the server.\<close>

record 'c reports_client =
  reports_Get :: "string \<Rightarrow> string \<Rightarrow> 'c \<Rightarrow> go_error + report"
  reports_Create :: "report \<Rightarrow> 'c \<Rightarrow> 'c"
  reports_Update :: "report \<Rightarrow> 'c \<Rightarrow> 'c"

definition pushReport :: "'c reports_client \<Rightarrow> ('r, 'm) openreportsEventSubscriber \<Rightarrow> 'c \<Rightarrow> 'c" where
  "pushReport K o' c =
     (case reports_Get K (or_namespace o') (or_reportName o') c of
        Inl err \<Rightarrow> if is_not_found err then reports_Create K (newReport o') c else c
      | Inr rep \<Rightarrow>
          reports_Update K (rep\<lparr>rp_Results := ring_Values (results o'), rp_Error := or_errored o',
            rp_Pass := or_allowed o', rp_Fail := or_denied o'\<rparr>) c)"

definition openreports_eventLoop :: "'r event_format \<Rightarrow> 'c reports_client \<Rightarrow> ('r, 'm) openreportsEventSubscriber \<Rightarrow> 'c
    \<Rightarrow> (('r, 'm) openreportsEventSubscriber \<times> 'c) outcome" where
  "openreports_eventLoop F K o' c =
     (case eventChan o' of
        [] \<Rightarrow> Ret (o', c)
      | ev # rest \<Rightarrow>
          bind_outcome (newReportResult F (ev_t ev) (ev_req ev) (ev_res ev) (o'\<lparr>eventChan := rest\<rparr>)) (\<lambda>(o', r).
            (case r of
               Inl err \<Rightarrow> Ret (o', c)
             | Inr reportResult \<Rightarrow>
                 (let o' = o'\<lparr>results := ring_Push (results o') reportResult\<rparr> in
                  if flushOnInterval o' then Ret (o', c) else Ret (o', pushReport K o' c)))))"

text \<open>The flush worker pushes the report whenever the interval elapses.\<close>

definition flushResultsToReport :: "'c reports_client \<Rightarrow> ('r, 'm) openreportsEventSubscriber \<Rightarrow> 'c \<Rightarrow> 'c" where
  "flushResultsToReport K o' c = pushReport K o' c"

section \<open>What the report says\<close>

fun openreports_drain :: "'r event_format \<Rightarrow> 'c reports_client \<Rightarrow> nat \<Rightarrow> ('r, 'm) openreportsEventSubscriber \<Rightarrow> 'c
    \<Rightarrow> (('r, 'm) openreportsEventSubscriber \<times> 'c) outcome" where
  "openreports_drain F K 0 o' c = Ret (o', c)"
| "openreports_drain F K (Suc n) o' c =
     bind_outcome (openreports_eventLoop F K o' c) (\<lambda>(o', c). openreports_drain F K n o' c)"

definition event_class :: "('r, 'm) event \<Rightarrow> string" where
  "event_class ev = (case MustGet (ev_res ev) of Ret (c, _) \<Rightarrow> c | _ \<Rightarrow> [])"

definition report_entry :: "'r event_format \<Rightarrow> ('r, 'm) event \<Rightarrow> report_result option" where
  "report_entry F ev =
     (case MustGet (ev_res ev) of
        Ret (c, err) \<Rightarrow>
          (case json_Marshal F (ev_req ev) of
             Inl _ \<Rightarrow> None
           | Inr json \<Rightarrow> Some \<lparr>rr_Result = report_label c, rr_Seconds = t_unix (ev_t ev), rr_Nanos = t_nanos (ev_t ev),
               rr_Description = msgFormat F (t_rfc3339 (ev_t ev)) json (result_string c err)\<rparr>)
      | _ \<Rightarrow> None)"

lemma MustGet_cases: "MustGet r = Ret (c, err) \<Longrightarrow> c \<in> {RequestAllowed, RequestDenied, RequestErrored}"
  by (auto simp: MustGet_def split: option.splits event_result.splits)

lemma count_result_sel [simp]:
  "results (count_result c o') = results o'" "eventChan (count_result c o') = eventChan o'"
  "or_allowed (count_result c o') = or_allowed o' + (if c = RequestAllowed then 1 else 0)"
  "or_denied (count_result c o') = or_denied o' + (if c = RequestDenied then 1 else 0)"
  "or_errored (count_result c o') = or_errored o' + (if c = RequestErrored then 1 else 0)"
  by (simp_all add: count_result_def request_labels)

lemma eventLoop_step:
  assumes "eventChan o' = ev # rest" and "returns (MustGet (ev_res ev))"
  shows "\<exists>o2 c2. openreports_eventLoop F K o' c = Ret (o2, c2) \<and> eventChan o2 = rest
    \<and> results o2 = (case report_entry F ev of None \<Rightarrow> results o' | Some e \<Rightarrow> ring_Push (results o') e)
    \<and> or_allowed o2 = or_allowed o' + (if event_class ev = RequestAllowed then 1 else 0)
    \<and> or_denied o2 = or_denied o' + (if event_class ev = RequestDenied then 1 else 0)
    \<and> or_errored o2 = or_errored o' + (if event_class ev = RequestErrored then 1 else 0)"
proof -
  obtain cl err where "MustGet (ev_res ev) = Ret (cl, err)" using assms(2) by (auto simp: returns_iff)
  with assms(1) show ?thesis
    by (cases "json_Marshal F (ev_req ev)")
      (simp_all add: openreports_eventLoop_def newReportResult_def report_entry_def event_class_def Let_def)
qed

lemma drain_events:
  assumes "eventChan o' = evs" and "\<forall>ev \<in> set evs. returns (MustGet (ev_res ev))"
  shows "\<exists>o2 c2. openreports_drain F K (length evs) o' c = Ret (o2, c2) \<and> eventChan o2 = []
    \<and> results o2 = foldl ring_Push (results o') (List.map_filter (report_entry F) evs)
    \<and> or_allowed o2 = or_allowed o' + of_nat (length (filter (\<lambda>ev. event_class ev = RequestAllowed) evs))
    \<and> or_denied o2 = or_denied o' + of_nat (length (filter (\<lambda>ev. event_class ev = RequestDenied) evs))
    \<and> or_errored o2 = or_errored o' + of_nat (length (filter (\<lambda>ev. event_class ev = RequestErrored) evs))"
  using assms
proof (induction evs arbitrary: o' c)
  case Nil
  then show ?case by (simp add: map_filter_simps)
next
  case (Cons ev evs)
  from eventLoop_step [OF Cons.prems(1), of F K c] Cons.prems(2) obtain o1 c1 where
    1: "openreports_eventLoop F K o' c = Ret (o1, c1)" "eventChan o1 = evs"
      "results o1 = (case report_entry F ev of None \<Rightarrow> results o' | Some e \<Rightarrow> ring_Push (results o') e)"
      "or_allowed o1 = or_allowed o' + (if event_class ev = RequestAllowed then 1 else 0)"
      "or_denied o1 = or_denied o' + (if event_class ev = RequestDenied then 1 else 0)"
      "or_errored o1 = or_errored o' + (if event_class ev = RequestErrored then 1 else 0)"
    by auto
  have rest: "\<forall>ev \<in> set evs. returns (MustGet (ev_res ev))" using Cons.prems(2) by simp
  from Cons.IH [OF 1(2) rest, of c1] 1 show ?case
    by (cases "report_entry F ev") (auto simp: map_filter_simps)
qed

section \<open>Properties\<close>

text \<open>
  C30. A burst of events never blocks a request and never reorders: while the loops are busy both
  background subscribers keep the first fifty events in order and drop the rest.
\<close>

theorem event_burst_keeps_first_fifty:
  assumes "NewOpenreportsSubscriber n flush name ns = Ret o'"
  shows "k8s_queue (foldl k8s_Push (NewK8sEventSubscriber ns) evs) = take 50 evs
    \<and> eventChan (foldl openreports_Push o' evs) = take 50 evs"
proof -
  have "eventChan o' = []"
    using assms by (auto simp: NewOpenreportsSubscriber_def bind_outcome_Ret_iff)
  then show ?thesis
    using k8s_chan.burst [of "NewK8sEventSubscriber ns" evs] or_chan.burst [of o' evs]
    by (simp add: NewK8sEventSubscriber_def chan_capacity_def)
qed

theorem event_burst_keeps_first_fifty_witness:
  "\<exists>o' :: (nat, unit) openreportsEventSubscriber. NewOpenreportsSubscriber 3 False ''r'' ''ns'' = Ret o'
     \<and> (\<forall>ev. length (eventChan (foldl openreports_Push o' (replicate 60 ev))) = 50)"
proof -
  obtain o' :: "(nat, unit) openreportsEventSubscriber" where "NewOpenreportsSubscriber 3 False ''r'' ''ns'' = Ret o'"
    by (simp add: NewOpenreportsSubscriber_def NewRingBuffer_def)
  with event_burst_keeps_first_fifty [OF this, of "replicate 60 _"] show ?thesis by auto
qed

text \<open>
  The report tells the truth about the events taken from the channel: its counters are the
  numbers of allowed, denied and errored requests, and its results are the last \<open>bufferSize\<close>
  of the requests that could be encoded, in order.
\<close>

lemma report_counts_and_results:
  assumes "NewOpenreportsSubscriber n flush name ns = Ret o0"
    and "\<forall>ev \<in> set evs. returns (MustGet (ev_res ev))"
  shows "\<exists>o' c'. openreports_drain F K (length evs) (o0\<lparr>eventChan := evs\<rparr>) c = Ret (o', c')
    \<and> rp_Results (newReport o') = last_n (nat n) (List.map_filter (report_entry F) evs)
    \<and> rp_Pass (newReport o') = of_nat (length (filter (\<lambda>ev. event_class ev = RequestAllowed) evs))
    \<and> rp_Fail (newReport o') = of_nat (length (filter (\<lambda>ev. event_class ev = RequestDenied) evs))
    \<and> rp_Error (newReport o') = of_nat (length (filter (\<lambda>ev. event_class ev = RequestErrored) evs))"
proof -
  obtain ring where ring: "NewRingBuffer empty_result n = Ret ring" "results o0 = ring"
    and zero: "or_allowed o0 = 0" "or_denied o0 = 0" "or_errored o0 = 0"
    using assms(1) by (auto simp: NewOpenreportsSubscriber_def bind_outcome_Ret_iff)
  have "ring_Values ring = []" "rb_size ring = nat n"
    using ring(1) by (auto simp: NewRingBuffer_def ring_Values_def split: if_splits)
  then have vals: "ring_Values (foldl ring_Push ring es) = last_n (nat n) es" for es
    using ring.vals_pushes [OF ring_inv_new [OF ring(1)], of es] by simp
  from drain_events [of "o0\<lparr>eventChan := evs\<rparr>" evs F K c] assms(2) vals zero ring(2) show ?thesis
    by (auto simp: newReport_def)
qed

definition sample_format :: "string event_format" where
  "sample_format = \<lparr>json_Marshal = Inr, msgFormat = (\<lambda>t j r. t @ '' '' @ j @ '' '' @ r)\<rparr>"

definition sample_event :: "bool \<Rightarrow> (string, unit) event" where
  "sample_event ok = \<lparr>ev_t = \<lparr>t_unix = 1, t_nanos = 0, t_rfc3339 = ''t''\<rparr>, ev_req = ''q'',
     ev_res = NewResultAccessor (HttpResult \<lparr>resp_Ok = Some (), resp_Denied = if ok then None else Some \<lparr>Reason = ''no''\<rparr>\<rparr>) None\<rparr>"

definition sample_client :: "unit reports_client" where
  "sample_client = \<lparr>reports_Get = (\<lambda>_ _ _. Inl (ApiNotFound ''nf'')), reports_Create = (\<lambda>_ c. c), reports_Update = (\<lambda>_ c. c)\<rparr>"

lemma report_counts_and_results_sample:
  "\<exists>o0 o'. NewOpenreportsSubscriber 1 False ''r'' ''ns'' = Ret o0
     \<and> openreports_drain sample_format sample_client 3
         (o0\<lparr>eventChan := [sample_event True, sample_event False, sample_event True]\<rparr>) () = Ret (o', ())
     \<and> rp_Pass (newReport o') = 2 \<and> rp_Fail (newReport o') = 1 \<and> length (rp_Results (newReport o')) = 1"
proof -
  let ?evs = "[sample_event True, sample_event False, sample_event True]"
  obtain o0 :: "(string, unit) openreportsEventSubscriber" where o0: "NewOpenreportsSubscriber 1 False ''r'' ''ns'' = Ret o0"
    by (simp add: NewOpenreportsSubscriber_def NewRingBuffer_def)
  have r: "\<forall>ev \<in> set ?evs. returns (MustGet (ev_res ev))"
    by (simp add: sample_event_def NewResultAccessor_def MustGet_def)
  have c: "event_class (sample_event ok) = (if ok then RequestAllowed else RequestDenied)" for ok
    by (simp add: sample_event_def event_class_def NewResultAccessor_def MustGet_def)
  have e: "report_entry sample_format (sample_event ok) \<noteq> None" for ok
    by (simp add: sample_event_def report_entry_def NewResultAccessor_def MustGet_def sample_format_def)
  have l: "length (last_n 1 (List.map_filter (report_entry sample_format) ?evs)) = 1"
    using e [of True] e [of False] by (auto simp: map_filter_simps last_n_def)
  have k: "length (filter (\<lambda>ev. event_class ev = RequestAllowed) ?evs) = 2"
    "length (filter (\<lambda>ev. event_class ev = RequestDenied) ?evs) = 1"
    by (simp_all add: c request_labels)
  have n: "length ?evs = 3" by simp
  from report_counts_and_results [OF o0 r, of sample_format sample_client "()"]
  obtain o' where d: "openreports_drain sample_format sample_client 3 (o0\<lparr>eventChan := ?evs\<rparr>) () = Ret (o', ())"
    "rp_Results (newReport o') = last_n (nat 1) (List.map_filter (report_entry sample_format) ?evs)"
    "rp_Pass (newReport o') = of_nat 2" "rp_Fail (newReport o') = of_nat 1"
    unfolding n k by auto
  have "length (rp_Results (newReport o')) = 1" using l d(2) by (simp only: nat_one_as_int [symmetric])
  with o0 d(1,3,4) show ?thesis by (intro exI conjI) simp_all
qed

end
