(* ===== verification/Dispatch.thy ===== *)
theory Dispatch
  imports Events
begin

text \<open>
  How a request is put to the policies (\<open>pkg/authz/http/server.go\<close> and
  \<open>pkg/authz/envoy/server.go\<close>): the classification of an evaluation for the metrics, the
  breaker and the predicate of the resulter that both servers hand to the SDK's engine. The
  engine itself is a parameter; \<open>first_dispatch_engine\<close> states what its documentation says of
  a sequential dispatcher with a breaker and a first-match resulter.
\<close>

section \<open>Evaluations\<close>

text \<open>\<open>policy.Evaluation\<close>: a result and an error, either of which may be nil.\<close>

type_synonym 'r evaluation = "'r option \<times> go_error option"

definition http_classify :: "CheckResponse evaluation \<Rightarrow> string" where
  "http_classify out =
     (case out of
        (_, Some _) \<Rightarrow> DecisionError
      | (None, None) \<Rightarrow> DecisionNoMatch
      | (Some r, None) \<Rightarrow> (case resp_Denied r of Some _ \<Rightarrow> DecisionDeny | None \<Rightarrow> DecisionAllow))"

definition envoy_classify :: "'m EnvoyResponse evaluation \<Rightarrow> string" where
  "envoy_classify out =
     (case out of
        (_, Some _) \<Rightarrow> DecisionError
      | (None, None) \<Rightarrow> DecisionNoMatch
      | (Some r, None) \<Rightarrow> (case GetDeniedResponse r of Some _ \<Rightarrow> DecisionDeny | None \<Rightarrow> DecisionAllow))"

definition http_breaker :: "CheckResponse evaluation \<Rightarrow> bool" where
  "http_breaker out \<longleftrightarrow> fst out \<noteq> None"

definition envoy_breaker :: "'m EnvoyResponse evaluation \<Rightarrow> bool" where
  "envoy_breaker out \<longleftrightarrow> fst out \<noteq> None"

definition http_decisive :: "CheckResponse evaluation \<Rightarrow> bool" where
  "http_decisive out \<longleftrightarrow> fst out \<noteq> None \<or> snd out \<noteq> None"

definition envoy_decisive :: "'m EnvoyResponse evaluation \<Rightarrow> bool" where
  "envoy_decisive out \<longleftrightarrow> fst out \<noteq> None \<or> snd out \<noteq> None"

section \<open>The engine\<close>

text \<open>
  Sequential dispatch: the policies are evaluated in order until the breaker holds; the resulter
  returns the first output its predicate accepts, and the zero evaluation if there is none.
\<close>

fun sequential :: "('p \<Rightarrow> 'o) \<Rightarrow> ('o \<Rightarrow> bool) \<Rightarrow> 'p list \<Rightarrow> 'o list" where
  "sequential evaluate brk [] = []"
| "sequential evaluate brk (p # ps) =
     (let out = evaluate p in if brk out then [out] else out # sequential evaluate brk ps)"

definition first_dispatch_engine :: "('i \<Rightarrow> 'r evaluation) \<Rightarrow> ('p \<Rightarrow> 'i \<Rightarrow> 'r evaluation)
    \<Rightarrow> ('r evaluation \<Rightarrow> bool) \<Rightarrow> ('r evaluation \<Rightarrow> bool) \<Rightarrow> 'p list \<Rightarrow> bool" where
  "first_dispatch_engine handle evaluate brk decisive policies \<longleftrightarrow>
     (\<forall>req. handle req =
        (case find decisive (sequential (\<lambda>p. evaluate p req) brk policies) of
           Some out \<Rightarrow> out | None \<Rightarrow> (None, None)))"

section \<open>Interface: what a mode makes of an evaluation\<close>

text \<open>
  Both modes decide alike, up to what a denial is: the contract ties the classification, the
  breaker and the resulter's predicate to it.
\<close>

locale decision_mode =
  fixes denied_by :: "'r \<Rightarrow> bool" and classify :: "'r evaluation \<Rightarrow> string"
    and breaker :: "'r evaluation \<Rightarrow> bool" and decisive :: "'r evaluation \<Rightarrow> bool"
  assumes classify_error: "classify (r, Some err) = DecisionError"
    and classify_none: "classify (None, None) = DecisionNoMatch"
    and classify_some: "classify (Some x, None) = (if denied_by x then DecisionDeny else DecisionAllow)"
    and breaker_iff: "breaker (r, e) \<longleftrightarrow> r \<noteq> None"
    and decisive_iff: "decisive (r, e) \<longleftrightarrow> r \<noteq> None \<or> e \<noteq> None"
begin

lemma breaker_decisive: "breaker out \<Longrightarrow> decisive out"
  by (cases out) (simp add: breaker_iff decisive_iff)

lemma no_match_iff: "classify out = DecisionNoMatch \<longleftrightarrow> \<not> decisive out"
  by (cases out; cases "fst out"; cases "snd out")
    (auto simp: classify_error classify_none classify_some decisive_iff metric_labels)

lemma find_sequential: "find decisive (sequential evaluate breaker ps) = find decisive (map evaluate ps)"
  by (induction ps) (auto simp: Let_def dest: breaker_decisive)

lemma engine_first:
  assumes "first_dispatch_engine handle evaluate breaker decisive policies"
  shows "handle req = (case find (\<lambda>p. decisive (evaluate p req)) policies of
    Some p \<Rightarrow> evaluate p req | None \<Rightarrow> (None, None))"
proof -
  have "find decisive (map (\<lambda>p. evaluate p req) ps) = map_option (\<lambda>p. evaluate p req) (find (\<lambda>p. decisive (evaluate p req)) ps)" for ps
    by (induction ps) auto
  then show ?thesis
    using assms by (simp add: first_dispatch_engine_def find_sequential split: option.split)
qed

end

interpretation http_mode: decision_mode "\<lambda>r. resp_Denied r \<noteq> None" http_classify http_breaker http_decisive
  by unfold_locales (auto simp: http_classify_def http_breaker_def http_decisive_def split: option.split)

interpretation envoy_mode: decision_mode "\<lambda>r. GetDeniedResponse r \<noteq> None" envoy_classify envoy_breaker envoy_decisive
  by unfold_locales (auto simp: envoy_classify_def envoy_breaker_def envoy_decisive_def split: option.split)

section \<open>Properties\<close>

text \<open>
  The first policy that decides or errs decides the request: stopping at the first response
  never changes the outcome, an error of an earlier policy is not overridden by a later
  response, and policies without a verdict are transparent. Every policy evaluated before it is
  counted as \<open>no_match\<close>.
\<close>

lemma first_decisive_policy_wins:
  assumes "first_dispatch_engine handle evaluate http_breaker http_decisive (pre @ p # post)"
    and "\<forall>q \<in> set pre. \<not> http_decisive (evaluate q req)" and "http_decisive (evaluate p req)"
  shows "handle req = evaluate p req \<and> (\<forall>q \<in> set pre. http_classify (evaluate q req) = DecisionNoMatch)"
proof -
  have "find (\<lambda>p. http_decisive (evaluate p req)) (pre @ p # post) = Some p"
    using assms(2,3) by (induction pre) auto
  then show ?thesis
    using http_mode.engine_first [OF assms(1)] http_mode.no_match_iff assms(2) by simp
qed

definition sample_response :: "bool \<Rightarrow> CheckResponse" where
  "sample_response ok = (if ok then \<lparr>resp_Ok = Some (), resp_Denied = None\<rparr>
     else \<lparr>resp_Ok = None, resp_Denied = Some \<lparr>Reason = ''no''\<rparr>\<rparr>)"

definition sample_evaluate :: "nat \<Rightarrow> unit \<Rightarrow> CheckResponse evaluation" where
  "sample_evaluate p _ = (if p = 0 then (None, None) else if p = 1 then (None, Some (Errorf ''failed''))
     else (Some (sample_response (p = 2)), None))"

lemma first_decisive_policy_wins_sample:
  "\<exists>handle. first_dispatch_engine handle sample_evaluate http_breaker http_decisive [0, 1, 2]
     \<and> handle () = (None, Some (Errorf ''failed''))"
proof -
  let ?handle = "\<lambda>req. case find http_decisive (sequential (\<lambda>p. sample_evaluate p req) http_breaker [0, 1, 2]) of
     Some out \<Rightarrow> out | None \<Rightarrow> (None, None)"
  have law: "first_dispatch_engine ?handle sample_evaluate http_breaker http_decisive ([0] @ 1 # [2])"
    by (simp add: first_dispatch_engine_def)
  have "?handle () = sample_evaluate 1 () \<and> (\<forall>q \<in> set [0]. http_classify (sample_evaluate q ()) = DecisionNoMatch)"
    by (rule first_decisive_policy_wins [OF law]) (simp_all add: sample_evaluate_def http_decisive_def)
  then have "?handle () = (None, Some (Errorf ''failed''))" by (simp add: sample_evaluate_def)
  with law show ?thesis by (intro exI [of _ ?handle]) simp
qed

end
