(* ===== verification/AuthzHttp.thy ===== *)
theory AuthzHttp
  imports Dispatch
begin

text \<open>
  The HTTP authorization service (\<open>pkg/authz/http/authorizer.go\<close>): from an incoming request to
  the answer written, the event pushed and the metrics recorded. The response writer follows
  \<open>net/http\<close>: a final status is written once, an invalid one panics, an informational one is
  not final, and a handler that writes none answers 200. A panic ends the handler after its
  deferred functions ran, so the result of serving is the state and the panic, if any: the server
  closes the connection of a handler that panicked, and the client gets no answer. The recordings of
  a request panic when the metrics client does (theory Metrics).
\<close>

section \<open>The world of a request\<close>

text \<open>
  The writer's headers, final status and body; the events pushed to the subscriber, the request
  with its result accessor; the metrics.
\<close>

record ('id, 'x) http_world =
  w_Header :: header_map
  w_Status :: "int64 option"
  w_Body :: string
  w_events :: "(('id, 'x) CheckRequest \<times> unit resultAccessor) list"
  w_metrics :: metrics

text \<open>What a value of the input program holds: nothing, a request pointer, something else.\<close>

datatype ('id, 'x) input_value = ValNil | ValRequest "('id, 'x) CheckRequest option" | ValOther

record ('id, 'x) authorizer =
  engine :: "('id, 'x) CheckRequest \<Rightarrow> metrics \<Rightarrow> CheckResponse evaluation \<times> metrics"
  inputProgram :: "(('id, 'x) CheckRequest \<Rightarrow> go_error + ('id, 'x) input_value) option"
  outputProgram :: "CheckResponse \<Rightarrow> go_error + (go_error + HttpResponse)"
  nestedRequest :: bool
  ReadRequest :: "go_error + string \<Rightarrow> go_error + http_request"
  newRequest :: "http_request \<Rightarrow> go_error + ('id, 'x) CheckRequest"
  metric_vectors :: vectors

text \<open>\<open>read_req\<close> and \<open>new_req\<close> are the functions of \<open>net/http\<close> and of the HTTP library it calls,
  \<open>P\<close> the vectors of the metrics client.\<close>

definition NewAuthorizer :: "(('id, 'x) CheckRequest \<Rightarrow> metrics \<Rightarrow> CheckResponse evaluation \<times> metrics)
    \<Rightarrow> (('id, 'x) CheckRequest \<Rightarrow> go_error + ('id, 'x) input_value) option
    \<Rightarrow> (CheckResponse \<Rightarrow> go_error + (go_error + HttpResponse)) \<Rightarrow> bool
    \<Rightarrow> (go_error + string \<Rightarrow> go_error + http_request) \<Rightarrow> (http_request \<Rightarrow> go_error + ('id, 'x) CheckRequest)
    \<Rightarrow> vectors \<Rightarrow> ('id, 'x) authorizer" where
  "NewAuthorizer e inputProg outputProg nested read_req new_req P =
     \<lparr>engine = e, inputProgram = inputProg, outputProgram = outputProg, nestedRequest = nested,
      ReadRequest = read_req, newRequest = new_req, metric_vectors = P\<rparr>"

section \<open>The response writer\<close>

definition statusMin :: int where "statusMin = 100"
definition statusMax :: int where "statusMax = 999"

definition invalid_status_message :: "int64 \<Rightarrow> string" where
  "invalid_status_message code = ''invalid WriteHeader code '' @ itoa (sint code)"

definition WriteHeader :: "int64 \<Rightarrow> ('id, 'x) http_world \<Rightarrow> ('id, 'x) http_world \<times> string option" where
  "WriteHeader code w =
     (if w_Status w \<noteq> None then (w, None)
      else if sint code < statusMin \<or> statusMax < sint code then (w, Some (invalid_status_message code))
      else if sint code \<le> 199 \<and> sint code \<noteq> 101 then (w, None)
      else (w\<lparr>w_Status := Some code\<rparr>, None))"

definition bodyAllowedForStatus :: "int64 \<Rightarrow> bool" where
  "bodyAllowedForStatus code \<longleftrightarrow> \<not> (100 \<le> sint code \<and> sint code \<le> 199) \<and> code \<noteq> 204 \<and> code \<noteq> 304"

definition Write :: "string \<Rightarrow> ('id, 'x) http_world \<Rightarrow> ('id, 'x) http_world" where
  "Write data w =
     (let w = (case w_Status w of None \<Rightarrow> w\<lparr>w_Status := Some 200\<rparr> | Some _ \<Rightarrow> w)
      in case w_Status w of
           Some code \<Rightarrow> if bodyAllowedForStatus code then w\<lparr>w_Body := w_Body w @ data\<rparr> else w
         | None \<Rightarrow> w)"

definition header_Set :: "string \<Rightarrow> string \<Rightarrow> ('id, 'x) http_world \<Rightarrow> ('id, 'x) http_world" where
  "header_Set key val w = w\<lparr>w_Header := (w_Header w)(CanonicalMIMEHeaderKey key \<mapsto> [val])\<rparr>"

text \<open>The status the client sees once the handler has returned without a panic.\<close>

definition final_status :: "('id, 'x) http_world \<Rightarrow> int64" where
  "final_status w = (case w_Status w of Some code \<Rightarrow> code | None \<Rightarrow> 200)"

section \<open>Writing the answer\<close>

definition writeErrResp :: "go_error \<Rightarrow> ('id, 'x) http_world \<Rightarrow> ('id, 'x) http_world" where
  "writeErrResp err w = Write (error_text err) (fst (WriteHeader 500 w))"

definition writeResponse :: "string list \<Rightarrow> HttpResponse \<Rightarrow> ('id, 'x) http_world \<Rightarrow> ('id, 'x) http_world \<times> string option" where
  "writeResponse it resp w =
     (let w = (case hr_Header resp of
                 None \<Rightarrow> w
               | Some h \<Rightarrow> fold (\<lambda>k w. fold (header_Set k) (case h k of Some v \<Rightarrow> v | None \<Rightarrow> []) w) it w)
      in case WriteHeader (hr_Status resp) w of
           (w, Some panic) \<Rightarrow> (w, Some panic)
         | (w, None) \<Rightarrow> (case hr_Body resp of None \<Rightarrow> (w, None) | Some body \<Rightarrow> (Write body w, None)))"

section \<open>Serving a request\<close>

definition record_decision :: "string \<Rightarrow> string \<Rightarrow> ('id, 'x) http_world \<Rightarrow> ('id, 'x) http_world" where
  "record_decision decision source w = w\<lparr>w_metrics := RecordAuthzDecision ModeHTTP decision source (w_metrics w)\<rparr>"

definition push_event :: "('id, 'x) CheckRequest \<Rightarrow> unit event_result \<Rightarrow> go_error option \<Rightarrow> ('id, 'x) http_world
    \<Rightarrow> ('id, 'x) http_world" where
  "push_event req res err w = w\<lparr>w_events := w_events w @ [(req, NewResultAccessor res err)]\<rparr>"

definition run_input :: "('id, 'x) authorizer \<Rightarrow> ('id, 'x) CheckRequest \<Rightarrow> go_error + ('id, 'x) CheckRequest" where
  "run_input A httpReq =
     (case inputProgram A of
        None \<Rightarrow> Inr httpReq
      | Some prog \<Rightarrow>
          (case prog httpReq of
             Inl err \<Rightarrow> Inl err
           | Inr (ValRequest (Some out)) \<Rightarrow> Inr out
           | Inr _ \<Rightarrow> Inr httpReq))"

definition http_read :: "('id, 'x) authorizer \<Rightarrow> http_request \<Rightarrow> go_error + ('id, 'x) CheckRequest" where
  "http_read A r =
     (case (if nestedRequest A then ReadRequest A (rq_Body r) else Inr r) of
        Inl err \<Rightarrow> Inl err
      | Inr r \<Rightarrow> (case newRequest A r of Inl err \<Rightarrow> Inl err | Inr httpReq \<Rightarrow> run_input A httpReq))"

definition http_result :: "CheckResponse option \<Rightarrow> CheckResponse \<times> string \<times> string" where
  "http_result res =
     (case res of
        None \<Rightarrow> (\<lparr>resp_Ok = Some (), resp_Denied = None\<rparr>, DecisionAllow, SourceDefault)
      | Some r \<Rightarrow>
          (case resp_Denied r of
             Some _ \<Rightarrow> (r, DecisionDeny, SourcePolicy)
           | None \<Rightarrow> (r, DecisionAllow, SourcePolicy)))"

text \<open>
  The functions deferred once there is a result, the last one first: the request is recorded, then
  the decision. A panic of the recording replaces one of the handler, and the decision is recorded
  nevertheless.
\<close>

definition deferred_records :: "('id, 'x) authorizer \<Rightarrow> ('id, 'x) CheckRequest \<Rightarrow> CheckResponse \<Rightarrow> string \<Rightarrow> string
    \<Rightarrow> ('id, 'x) http_world \<times> string option \<Rightarrow> ('id, 'x) http_world \<times> string option" where
  "deferred_records A httpReq res decision source wp =
     (case wp of (w, panic) \<Rightarrow>
        (case RecordHTTPRequest (metric_vectors A) httpReq (Some res) (w_metrics w) of (m, late) \<Rightarrow>
           (record_decision decision source (w\<lparr>w_metrics := m\<rparr>),
            case late of Some p \<Rightarrow> Some p | None \<Rightarrow> panic)))"

definition ServeHTTP :: "('id, 'x) authorizer \<Rightarrow> string list \<Rightarrow> http_request \<Rightarrow> ('id, 'x) http_world
    \<Rightarrow> ('id, 'x) http_world \<times> string option" where
  "ServeHTTP A it r w =
     (case http_read A r of
        Inl err \<Rightarrow> (record_decision DecisionError SourceServer (writeErrResp err w), None)
      | Inr httpReq \<Rightarrow>
          (let ((result, error), m) = engine A httpReq (w_metrics w);
               w = w\<lparr>w_metrics := m\<rparr>
           in case error of
                Some err \<Rightarrow>
                  (case RecordHTTPRequestError (metric_vectors A) httpReq (w_metrics w) of
                     (m, Some panic) \<Rightarrow> (record_decision DecisionError SourceEngine (w\<lparr>w_metrics := m\<rparr>), Some panic)
                   | (m, None) \<Rightarrow>
                       (let w = push_event httpReq (OtherResult ''<nil>'') (Some err) (w\<lparr>w_metrics := m\<rparr>)
                        in (record_decision DecisionError SourceEngine (writeErrResp err w), None)))
              | None \<Rightarrow>
                  (let (res, decision, source) = http_result result;
                       w = push_event httpReq (HttpResult res) None w
                   in case outputProgram A res of
                        Inl err \<Rightarrow> deferred_records A httpReq res DecisionError SourceServer (writeErrResp err w, None)
                      | Inr (Inl err) \<Rightarrow> deferred_records A httpReq res DecisionError SourceServer (writeErrResp err w, None)
                      | Inr (Inr resp) \<Rightarrow> deferred_records A httpReq res decision source (writeResponse it resp w))))"

section \<open>Lemmas\<close>

lemma sint_500: "sint (500 :: int64) = 500" by simp

lemma writeErrResp_fresh: "w_Status w = None \<Longrightarrow>
    w_Status (writeErrResp err w) = Some 500 \<and> w_Body (writeErrResp err w) = w_Body w @ error_text err
    \<and> w_events (writeErrResp err w) = w_events w \<and> w_metrics (writeErrResp err w) = w_metrics w"
  by (simp add: writeErrResp_def WriteHeader_def Write_def Let_def statusMin_def statusMax_def bodyAllowedForStatus_def)

lemma header_Set_sel [simp]:
  "w_Status (header_Set k v w) = w_Status w" "w_Body (header_Set k v w) = w_Body w"
  "w_events (header_Set k v w) = w_events w" "w_metrics (header_Set k v w) = w_metrics w"
  by (simp_all add: header_Set_def)

lemma fold_header_Set_sel [simp]:
  "w_Status (fold (header_Set k) vs w) = w_Status w" "w_Body (fold (header_Set k) vs w) = w_Body w"
  "w_events (fold (header_Set k) vs w) = w_events w" "w_metrics (fold (header_Set k) vs w) = w_metrics w"
  by (induction vs arbitrary: w) simp_all

lemma fold_headers_sel [simp]:
  "w_Status (fold (\<lambda>k. fold (header_Set k) (g k)) it w) = w_Status w"
  "w_Body (fold (\<lambda>k. fold (header_Set k) (g k)) it w) = w_Body w"
  "w_events (fold (\<lambda>k. fold (header_Set k) (g k)) it w) = w_events w"
  "w_metrics (fold (\<lambda>k. fold (header_Set k) (g k)) it w) = w_metrics w"
  by (induction it arbitrary: w) simp_all

lemma Write_sel [simp]: "w_events (Write d w) = w_events w" "w_metrics (Write d w) = w_metrics w" "w_Header (Write d w) = w_Header w"
  by (simp_all add: Write_def Let_def split: option.split)

lemma writeResponse_sel:
  "writeResponse it resp w = (w', p) \<Longrightarrow> w_events w' = w_events w \<and> w_metrics w' = w_metrics w"
  by (auto simp: writeResponse_def WriteHeader_def Let_def split: option.splits if_splits)

lemma writeResponse_status:
  assumes "w_Status w = None" and "200 \<le> sint (hr_Status resp)" and "sint (hr_Status resp) \<le> 999"
  shows "\<exists>w'. writeResponse it resp w = (w', None) \<and> w_Status w' = Some (hr_Status resp)"
  using assms
  by (cases "hr_Header resp"; cases "hr_Body resp")
    (simp_all add: writeResponse_def WriteHeader_def Write_def Let_def statusMin_def statusMax_def)

lemma writeResponse_panics:
  assumes "w_Status w = None" and "sint (hr_Status resp) < 100 \<or> 999 < sint (hr_Status resp)"
  shows "\<exists>w'. writeResponse it resp w = (w', Some (invalid_status_message (hr_Status resp))) \<and> w_Status w' = None"
  using assms
  by (cases "hr_Header resp") (auto simp: writeResponse_def WriteHeader_def Let_def statusMin_def statusMax_def)

section \<open>The default output expression\<close>

text \<open>
  \<open>has(object.ok) ? HttpResponse{status: 200} : HttpResponse{status: 403, body: bytes(object.denied.reason)}\<close>;
  selecting the reason of a missing denial is the evaluation error \<open>no_field\<close>.
\<close>

definition default_output :: "go_error \<Rightarrow> CheckResponse \<Rightarrow> go_error + (go_error + HttpResponse)" where
  "default_output no_field r =
     (case resp_Ok r of
        Some _ \<Rightarrow> Inr (Inr \<lparr>hr_Status = 200, hr_Header = None, hr_Body = None\<rparr>)
      | None \<Rightarrow>
          (case resp_Denied r of
             Some d \<Rightarrow> Inr (Inr \<lparr>hr_Status = 403, hr_Header = None, hr_Body = Some (Reason d)\<rparr>)
           | None \<Rightarrow> Inl no_field))"

section \<open>What a request comes to\<close>

definition serve_outcome :: "('id, 'x) authorizer \<Rightarrow> http_request \<Rightarrow> metrics \<Rightarrow> string \<times> string" where
  "serve_outcome A r m =
     (case http_read A r of
        Inl _ \<Rightarrow> (DecisionError, SourceServer)
      | Inr q \<Rightarrow>
          (case fst (engine A q m) of
             (_, Some _) \<Rightarrow> (DecisionError, SourceEngine)
           | (result, None) \<Rightarrow>
               (case http_result result of (res, decision, source) \<Rightarrow>
                  (case outputProgram A res of Inr (Inr _) \<Rightarrow> (decision, source) | _ \<Rightarrow> (DecisionError, SourceServer)))))"

text \<open>The engine counts policy evaluations, not requests.\<close>

definition engine_counts_policies :: "('id, 'x) authorizer \<Rightarrow> bool" where
  "engine_counts_policies A \<longleftrightarrow>
     (\<forall>q m. authzRequestDecisionsTotal (snd (engine A q m)) = authzRequestDecisionsTotal m)"

lemma record_decision_sel [simp]:
  "w_Status (record_decision d s w) = w_Status w" "w_Body (record_decision d s w) = w_Body w"
  "w_events (record_decision d s w) = w_events w"
  "authzRequestDecisionsTotal (w_metrics (record_decision d s w)) =
     Inc [ModeHTTP, d, s] (authzRequestDecisionsTotal (w_metrics w))"
  by (simp_all add: record_decision_def RecordAuthzDecision_def)

lemma push_event_sel [simp]:
  "w_Status (push_event q res err w) = w_Status w" "w_metrics (push_event q res err w) = w_metrics w"
  "w_Body (push_event q res err w) = w_Body w"
  "w_events (push_event q res err w) = w_events w @ [(q, NewResultAccessor res err)]"
  by (simp_all add: push_event_def)

lemma count_requests_sel [simp]:
  "authzRequestDecisionsTotal (count_request q res m) = authzRequestDecisionsTotal m"
  "authzRequestDecisionsTotal (count_request_error q m) = authzRequestDecisionsTotal m"
  by (simp_all add: count_request_def count_request_error_def)

lemma http_result_decision: "http_result res = (r, d, s) \<Longrightarrow> d \<in> {DecisionAllow, DecisionDeny}
    \<and> (d = DecisionDeny \<longleftrightarrow> (\<exists>x. res = Some x \<and> resp_Denied x \<noteq> None))"
  by (auto simp: http_result_def metric_labels split: option.splits)

text \<open>The ways through the handler, for metrics that panic as documented.\<close>

lemma serve_unread:
  "http_read A r = Inl err \<Longrightarrow>
    ServeHTTP A it r w = (record_decision DecisionError SourceServer (writeErrResp err w), None)"
  by (simp add: ServeHTTP_def)

lemma serve_engine_error:
  assumes "http_read A r = Inr q" and "engine A q (w_metrics w) = ((result, Some err), m)" and "vector_law (metric_vectors A)"
  shows "labels_valid q \<Longrightarrow> ServeHTTP A it r w =
      (record_decision DecisionError SourceEngine (writeErrResp err
         (push_event q (OtherResult ''<nil>'') (Some err) (w\<lparr>w_metrics := count_request_error q m\<rparr>))), None)"
    and "\<not> labels_valid q \<Longrightarrow> \<exists>panic. ServeHTTP A it r w =
      (record_decision DecisionError SourceEngine (w\<lparr>w_metrics := m\<rparr>), Some panic)"
proof -
  show "ServeHTTP A it r w =
      (record_decision DecisionError SourceEngine (writeErrResp err
         (push_event q (OtherResult ''<nil>'') (Some err) (w\<lparr>w_metrics := count_request_error q m\<rparr>))), None)"
    if "labels_valid q"
    by (simp add: ServeHTTP_def assms(1,2) RecordHTTPRequestError_valid [OF assms(3) that] Let_def)
  show "\<exists>panic. ServeHTTP A it r w = (record_decision DecisionError SourceEngine (w\<lparr>w_metrics := m\<rparr>), Some panic)"
    if n: "\<not> labels_valid q"
  proof -
    obtain panic where "RecordHTTPRequestError (metric_vectors A) q m = (m, Some panic)"
      using RecordHTTPRequestError_panics [OF assms(3) n] by blast
    then show ?thesis by (simp add: ServeHTTP_def assms(1,2) Let_def)
  qed
qed

lemma deferred_records_valid:
  "vector_law (metric_vectors A) \<Longrightarrow> labels_valid q \<Longrightarrow> deferred_records A q res d s (w, panic)
    = (record_decision d s (w\<lparr>w_metrics := count_request q (Some res) (w_metrics w)\<rparr>), panic)"
  by (simp add: deferred_records_def RecordHTTPRequest_valid)

lemma deferred_records_panics:
  assumes "vector_law (metric_vectors A)" and "\<not> labels_valid q"
  shows "\<exists>late. deferred_records A q res d s (w, panic) = (record_decision d s w, Some late)"
  using RecordHTTPRequest_panics [OF assms, of "Some res" "w_metrics w"]
  by (auto simp: deferred_records_def)

text \<open>What the deferred functions leave of the world: the answer as written and one decision.\<close>

lemma deferred_records_sel:
  assumes "vector_law (metric_vectors A)" and "deferred_records A q res d s (w, panic) = (w', panic')"
  shows "w_Status w' = w_Status w" and "w_Body w' = w_Body w"
    and "authzRequestDecisionsTotal (w_metrics w') = Inc [ModeHTTP, d, s] (authzRequestDecisionsTotal (w_metrics w))"
    and "panic' = None \<longleftrightarrow> panic = None \<and> labels_valid q"
proof -
  have "w_Status w' = w_Status w \<and> w_Body w' = w_Body w
    \<and> authzRequestDecisionsTotal (w_metrics w') = Inc [ModeHTTP, d, s] (authzRequestDecisionsTotal (w_metrics w))
    \<and> (panic' = None \<longleftrightarrow> panic = None \<and> labels_valid q)"
  proof (cases "labels_valid q")
    case True
    then show ?thesis using deferred_records_valid [OF assms(1) True, of res d s w panic] assms(2) by auto
  next
    case False
    then show ?thesis using deferred_records_panics [OF assms(1) False, of res d s w panic] assms(2) by auto
  qed
  then show "w_Status w' = w_Status w" and "w_Body w' = w_Body w"
    and "authzRequestDecisionsTotal (w_metrics w') = Inc [ModeHTTP, d, s] (authzRequestDecisionsTotal (w_metrics w))"
    and "panic' = None \<longleftrightarrow> panic = None \<and> labels_valid q" by blast+
qed

text \<open>An answer with a status that \<open>net/http\<close> refuses.\<close>

definition invalid_answer :: "('id, 'x) authorizer \<Rightarrow> CheckResponse option \<Rightarrow> bool" where
  "invalid_answer A result \<longleftrightarrow>
     (\<exists>resp. outputProgram A (fst (http_result result)) = Inr (Inr resp)
        \<and> (sint (hr_Status resp) < statusMin \<or> statusMax < sint (hr_Status resp)))"

lemma writeResponse_panic_iff:
  assumes "w_Status w = None" and "writeResponse it resp w = (w', panic)"
  shows "panic = None \<longleftrightarrow> \<not> (sint (hr_Status resp) < statusMin \<or> statusMax < sint (hr_Status resp))"
  using assms
  by (cases "hr_Header resp"; cases "hr_Body resp") (auto simp: writeResponse_def WriteHeader_def Let_def split: if_splits)

lemma serve_result:
  assumes "http_read A r = Inr q" and "engine A q (w_metrics w) = ((result, None), m)" and "vector_law (metric_vectors A)"
    and "w_Status w = None" and "ServeHTTP A it r w = (w', panic)"
  shows "authzRequestDecisionsTotal (w_metrics w') =
      (case serve_outcome A r (w_metrics w) of (d, s) \<Rightarrow> Inc [ModeHTTP, d, s] (authzRequestDecisionsTotal m))"
    and "panic = None \<longleftrightarrow> labels_valid q \<and> \<not> invalid_answer A result"
    and "fst (serve_outcome A r (w_metrics w)) = DecisionError \<Longrightarrow> w_Status w' = Some 500 \<and> \<not> invalid_answer A result"
proof -
  obtain res d s where h: "http_result result = (res, d, s)" by (metis surj_pair)
  note d = http_result_decision [OF h]
  let ?w = "push_event q (HttpResult res) None (w\<lparr>w_metrics := m\<rparr>)"
  have st: "w_Status ?w = None" using assms(4) by simp
  have o: "serve_outcome A r (w_metrics w) =
      (case outputProgram A res of Inr (Inr _) \<Rightarrow> (d, s) | _ \<Rightarrow> (DecisionError, SourceServer))"
    by (simp add: serve_outcome_def assms(1,2) h)
  have "authzRequestDecisionsTotal (w_metrics w') =
      (case serve_outcome A r (w_metrics w) of (d, s) \<Rightarrow> Inc [ModeHTTP, d, s] (authzRequestDecisionsTotal m))
    \<and> (panic = None \<longleftrightarrow> labels_valid q \<and> \<not> invalid_answer A result)
    \<and> (fst (serve_outcome A r (w_metrics w)) = DecisionError \<longrightarrow> w_Status w' = Some 500 \<and> \<not> invalid_answer A result)"
  proof (cases "\<exists>resp. outputProgram A res = Inr (Inr resp)")
    case True
    then obtain resp where out: "outputProgram A res = Inr (Inr resp)" by blast
    obtain w1 p where wr: "writeResponse it resp ?w = (w1, p)" by fastforce
    with assms(5) have "deferred_records A q res d s (w1, p) = (w', panic)"
      by (simp add: ServeHTTP_def assms(1,2) h out Let_def)
    from deferred_records_sel [OF assms(3) this] writeResponse_sel [OF wr] writeResponse_panic_iff [OF st wr] d
    show ?thesis by (auto simp: o out invalid_answer_def h)
  next
    case False
    then obtain err where "outputProgram A res = Inl err \<or> outputProgram A res = Inr (Inl err)"
      by (metis sum.exhaust)
    then have "deferred_records A q res DecisionError SourceServer (writeErrResp err ?w, None) = (w', panic)"
      and o2: "serve_outcome A r (w_metrics w) = (DecisionError, SourceServer)"
      using assms(5) by (auto simp: ServeHTTP_def assms(1,2) h Let_def o)
    from deferred_records_sel [OF assms(3) this(1)] writeErrResp_fresh [OF st, of err] False
    show ?thesis by (simp add: o2 invalid_answer_def h)
  qed
  then show "authzRequestDecisionsTotal (w_metrics w') =
      (case serve_outcome A r (w_metrics w) of (d, s) \<Rightarrow> Inc [ModeHTTP, d, s] (authzRequestDecisionsTotal m))"
    and "panic = None \<longleftrightarrow> labels_valid q \<and> \<not> invalid_answer A result"
    and "fst (serve_outcome A r (w_metrics w)) = DecisionError \<Longrightarrow> w_Status w' = Some 500 \<and> \<not> invalid_answer A result"
    by blast+
qed

text \<open>
  An error is answered 500, or not at all when the request it is about cannot be recorded.
\<close>

lemma serve_error:
  assumes "ServeHTTP A it r w = (w', panic)" and "w_Status w = None" and "vector_law (metric_vectors A)"
    and "fst (serve_outcome A r (w_metrics w)) = DecisionError"
  shows "(w_Status w' = Some 500 \<or> w_Status w' = None \<and> panic \<noteq> None)
    \<and> (panic \<noteq> None \<longleftrightarrow> (\<exists>q. http_read A r = Inr q \<and> \<not> labels_valid q))"
proof (cases "http_read A r")
  case (Inl err)
  with assms(1) serve_unread [OF Inl, of it w] writeErrResp_fresh [OF assms(2), of err] show ?thesis by auto
next
  case (Inr q)
  obtain result error m where e: "engine A q (w_metrics w) = ((result, error), m)" by (metis surj_pair)
  show ?thesis
  proof (cases error)
    case (Some err)
    note es = serve_engine_error [OF Inr e [unfolded Some] assms(3), of it]
    show ?thesis
    proof (cases "labels_valid q")
      case True
      with es(1) assms(1,2) Inr show ?thesis by (auto simp: writeErrResp_fresh)
    next
      case False
      with es(2) assms(1,2) Inr show ?thesis by auto
    qed
  next
    case None
    from serve_result [OF Inr e [unfolded None] assms(3,2,1)] assms(4) Inr show ?thesis by auto
  qed
qed

lemma serve_counts:
  assumes "ServeHTTP A it r w = (w', panic)" and "w_Status w = None" and "engine_counts_policies A"
    and "vector_law (metric_vectors A)"
  shows "authzRequestDecisionsTotal (w_metrics w') =
    (case serve_outcome A r (w_metrics w) of (d, s) \<Rightarrow> Inc [ModeHTTP, d, s] (authzRequestDecisionsTotal (w_metrics w)))"
proof (cases "http_read A r")
  case (Inl err)
  with assms(1) serve_unread [OF Inl, of it w] writeErrResp_fresh [OF assms(2), of err] show ?thesis
    by (auto simp: serve_outcome_def)
next
  case (Inr q)
  obtain result error m where e: "engine A q (w_metrics w) = ((result, error), m)" by (metis surj_pair)
  then have m: "authzRequestDecisionsTotal m = authzRequestDecisionsTotal (w_metrics w)"
    using assms(3) by (metis engine_counts_policies_def snd_conv)
  show ?thesis
  proof (cases error)
    case (Some err)
    note es = serve_engine_error [OF Inr e [unfolded Some] assms(4), of it]
    have o: "serve_outcome A r (w_metrics w) = (DecisionError, SourceEngine)" by (simp add: serve_outcome_def Inr e Some)
    show ?thesis
    proof (cases "labels_valid q")
      case True
      with es(1) assms(1,2) m o show ?thesis by (auto simp: writeErrResp_fresh)
    next
      case False
      with es(2) assms(1) m o show ?thesis by auto
    qed
  next
    case None
    from serve_result(1) [OF Inr e [unfolded None] assms(4,2,1)] m show ?thesis by simp
  qed
qed

lemma serve_panics:
  assumes "ServeHTTP A it r w = (w', panic)" and "w_Status w = None" and "vector_law (metric_vectors A)"
  shows "panic \<noteq> None \<longleftrightarrow> (\<exists>q. http_read A r = Inr q \<and> (\<not> labels_valid q
    \<or> (\<exists>result m. engine A q (w_metrics w) = ((result, None), m) \<and> invalid_answer A result)))"
proof (cases "http_read A r")
  case (Inl err)
  with assms(1) serve_unread [OF Inl, of it w] show ?thesis by auto
next
  case (Inr q)
  obtain result error m where e: "engine A q (w_metrics w) = ((result, error), m)" by (metis surj_pair)
  show ?thesis
  proof (cases error)
    case (Some err)
    note es = serve_engine_error [OF Inr e [unfolded Some] assms(3), of it]
    from es assms(1) Inr e Some show ?thesis by (cases "labels_valid q") auto
  next
    case None
    from serve_result(2) [OF Inr e [unfolded None] assms(3,2,1)] Inr e None show ?thesis by auto
  qed
qed

lemma serve_default_output:
  assumes "ServeHTTP A it r w = (w', panic)" and "w_Status w = None" and "w_Body w = []"
    and "outputProgram A = default_output no_field" and "http_read A r = Inr q"
    and "engine A q (w_metrics w) = ((result, None), m)"
    and "\<forall>x. result = Some x \<longrightarrow> (resp_Ok x = None) \<noteq> (resp_Denied x = None)"
    and "vector_law (metric_vectors A)" and "labels_valid q"
  shows "panic = None \<and> w_Status w' = Some (if \<exists>x. result = Some x \<and> resp_Denied x \<noteq> None then 403 else 200)
    \<and> (case result of
         Some x \<Rightarrow> (case resp_Denied x of Some d \<Rightarrow> w_Body w' = Reason d | None \<Rightarrow> w_Body w' = [])
       | None \<Rightarrow> w_Body w' = [])"
proof (cases result)
  case None
  with assms show ?thesis
    by (auto simp: ServeHTTP_def Let_def http_result_def default_output_def writeResponse_def WriteHeader_def
        statusMin_def statusMax_def deferred_records_valid)
next
  case (Some x)
  with assms show ?thesis
    by (cases "resp_Denied x"; cases "resp_Ok x")
      (auto simp: ServeHTTP_def Let_def http_result_def default_output_def writeResponse_def WriteHeader_def
        statusMin_def statusMax_def Write_def bodyAllowedForStatus_def deferred_records_valid)
qed

section \<open>A sample authorizer\<close>

definition fresh_world :: "(nat, unit) http_world" where
  "fresh_world = \<lparr>w_Header = Map.empty, w_Status = None, w_Body = [], w_events = [], w_metrics = zero_metrics\<rparr>"

definition sample_authorizer :: "(nat, unit) authorizer" where
  "sample_authorizer =
    \<lparr>engine = (\<lambda>q m. (if attr_Path (Attributes q) = ''/err'' then (None, Some (Errorf ''boom''))
        else if attr_Path (Attributes q) = ''/deny'' then (Some (sample_response False), None)
        else (None, None), m)),
     inputProgram = None, outputProgram = default_output (Errorf ''no such field''), nestedRequest = False,
     ReadRequest = (\<lambda>_. Inl (Errorf ''malformed HTTP request'')),
     newRequest = NewRequest Inr 0 sample_package, metric_vectors = sample_vectors\<rparr>"

definition sample_request_to :: "string \<Rightarrow> http_request" where
  "sample_request_to path = (sample_http_request ''ping'')\<lparr>rq_Path := path\<rparr>"

lemma sample_http_read:
  "\<exists>q. http_read sample_authorizer (sample_request_to path) = Inr q \<and> attr_Path (Attributes q) = path"
  by (simp add: http_read_def sample_authorizer_def sample_request_to_def sample_http_request_def NewRequest_def
      run_input_def)

lemma sample_authorizer_vectors: "vector_law (metric_vectors sample_authorizer)"
  by (simp add: sample_authorizer_def sample_vectors_law)

lemma sample_labels_valid:
  assumes "http_read sample_authorizer (sample_request_to path) = Inr q" and "utf8_valid path"
  shows "labels_valid q"
  using assms
  by (auto simp: http_read_def sample_authorizer_def sample_request_to_def sample_http_request_def NewRequest_def
      run_input_def labels_valid_def http_labels_def utf8_valid_ascii)

lemma sample_engine_counts: "engine_counts_policies sample_authorizer"
  by (simp add: engine_counts_policies_def sample_authorizer_def)

section \<open>Properties\<close>

text \<open>
  C13. Fail closed and accounted for, for a metrics client that panics as it documents: every request
  is recorded as exactly one decision. An error anywhere (reading, input, engine, output) is recorded
  as an error, and the only answer it can get is status 500: it gets it, unless the request cannot be
  recorded, when the handler panics. A denial is recorded only for a policy's denial, and an allowance
  only when no policy denied and none erred. The handler panics exactly when a request was read whose
  method, host, path or scheme is not valid UTF-8, or the output expression gives a status that
  \<open>net/http\<close> refuses.
\<close>

theorem http_fails_closed:
  assumes "ServeHTTP A it r w = (w', panic)" and "w_Status w = None" and "engine_counts_policies A"
    and "vector_law (metric_vectors A)"
  shows "\<exists>d s. d \<in> {DecisionAllow, DecisionDeny, DecisionError}
    \<and> authzRequestDecisionsTotal (w_metrics w') = Inc [ModeHTTP, d, s] (authzRequestDecisionsTotal (w_metrics w))
    \<and> (d = DecisionError \<longrightarrow>
         (panic = None \<and> w_Status w' = Some 500
          \<or> panic \<noteq> None \<and> w_Status w' \<in> {None, Some 500} \<and> (\<exists>q. http_read A r = Inr q \<and> \<not> labels_valid q)))
    \<and> (d \<noteq> DecisionError \<longrightarrow> (\<exists>q res m. http_read A r = Inr q \<and> engine A q (w_metrics w) = ((res, None), m)
         \<and> (d = DecisionDeny \<longleftrightarrow> (\<exists>x. res = Some x \<and> resp_Denied x \<noteq> None))))
    \<and> (panic \<noteq> None \<longleftrightarrow> (\<exists>q. http_read A r = Inr q \<and> (\<not> labels_valid q
         \<or> (\<exists>res m. engine A q (w_metrics w) = ((res, None), m) \<and> invalid_answer A res))))"
proof -
  obtain d s where o: "serve_outcome A r (w_metrics w) = (d, s)" by fastforce
  note count = serve_counts [OF assms] and err = serve_error [OF assms(1,2,4)] and panics = serve_panics [OF assms(1,2,4)]
  have outcome: "d \<in> {DecisionAllow, DecisionDeny, DecisionError} \<and> (d \<noteq> DecisionError \<longrightarrow>
      (\<exists>q res m. http_read A r = Inr q \<and> engine A q (w_metrics w) = ((res, None), m)
         \<and> (d = DecisionDeny \<longleftrightarrow> (\<exists>x. res = Some x \<and> resp_Denied x \<noteq> None))))"
    using o
    by (auto simp: serve_outcome_def split: sum.splits prod.splits option.splits dest!: http_result_decision)
      (metis prod.collapse)+
  have error: "d = DecisionError \<longrightarrow>
         (panic = None \<and> w_Status w' = Some 500
          \<or> panic \<noteq> None \<and> w_Status w' \<in> {None, Some 500} \<and> (\<exists>q. http_read A r = Inr q \<and> \<not> labels_valid q))"
    using err o by auto
  have counted: "authzRequestDecisionsTotal (w_metrics w') = Inc [ModeHTTP, d, s] (authzRequestDecisionsTotal (w_metrics w))"
    using count o by simp
  show ?thesis
    by (rule exI [of _ d], rule exI [of _ s])
      (intro conjI conjunct1 [OF outcome] counted error conjunct2 [OF outcome] panics)
qed

text \<open>An error that is answered, and one whose request cannot be recorded.\<close>

theorem http_fails_closed_witness:
  "(\<exists>w'. ServeHTTP sample_authorizer [] (sample_request_to ''/err'') fresh_world = (w', None) \<and> w_Status w' = Some 500)
   \<and> (\<exists>w' panic. ServeHTTP sample_authorizer [] (sample_request_to [CHR ''/'', CHR 0xFF]) fresh_world = (w', Some panic))"
proof -
  have st: "w_Status fresh_world = None" by (simp add: fresh_world_def)
  obtain w1 p1 where s1: "ServeHTTP sample_authorizer [] (sample_request_to ''/err'') fresh_world = (w1, p1)"
    by fastforce
  obtain q1 where q1: "http_read sample_authorizer (sample_request_to ''/err'') = Inr q1" "attr_Path (Attributes q1) = ''/err''"
    using sample_http_read by blast
  have v: "labels_valid q1" using sample_labels_valid [OF q1(1)] by (simp add: utf8_valid_ascii)
  have "p1 = None \<and> w_Status w1 = Some 500"
    using http_fails_closed [OF s1 st sample_engine_counts sample_authorizer_vectors] q1 v
    by (auto simp: sample_authorizer_def)
  moreover obtain w2 p2 where s2: "ServeHTTP sample_authorizer [] (sample_request_to [CHR ''/'', CHR 0xFF]) fresh_world = (w2, p2)"
    by fastforce
  obtain q2 where q2: "http_read sample_authorizer (sample_request_to [CHR ''/'', CHR 0xFF]) = Inr q2"
      "attr_Path (Attributes q2) = [CHR ''/'', CHR 0xFF]"
    using sample_http_read by blast
  have "\<not> utf8_valid [CHR ''/'', CHR 0xFF]" by (simp add: byte_in_def utf8_valid.simps(2))
  with q2(2) have "\<not> labels_valid q2" by (auto simp: labels_valid_def http_labels_def)
  with http_fails_closed [OF s2 st sample_engine_counts sample_authorizer_vectors] q2(1) have "p2 \<noteq> None" by blast
  ultimately show ?thesis using s1 s2 by auto
qed

text \<open>
  With the default output expression the status is the decision: a policy's denial is
  answered 403 with its reason, everything the policies let through, and a request no policy
  speaks to, 200, whenever the request can be recorded.
\<close>

lemma http_status_is_decision:
  assumes "ServeHTTP A it r w = (w', panic)" and "w_Status w = None" and "w_Body w = []"
    and "outputProgram A = default_output no_field" and "http_read A r = Inr q"
    and "engine A q (w_metrics w) = ((result, None), m)"
    and "\<forall>x. result = Some x \<longrightarrow> (resp_Ok x = None) \<noteq> (resp_Denied x = None)"
    and "vector_law (metric_vectors A)" and "labels_valid q"
  shows "panic = None
    \<and> final_status w' = (if \<exists>x. result = Some x \<and> resp_Denied x \<noteq> None then 403 else 200)
    \<and> (\<forall>x d. result = Some x \<longrightarrow> resp_Denied x = Some d \<longrightarrow> w_Body w' = Reason d)"
  using serve_default_output [OF assms] by (auto simp: final_status_def)

lemma http_status_is_decision_sample:
  "\<exists>w' panic. ServeHTTP sample_authorizer [] (sample_request_to ''/deny'') fresh_world = (w', panic)
     \<and> final_status w' = 403 \<and> w_Body w' = ''no''"
proof -
  obtain w' panic where s: "ServeHTTP sample_authorizer [] (sample_request_to ''/deny'') fresh_world = (w', panic)"
    by fastforce
  obtain q where q: "http_read sample_authorizer (sample_request_to ''/deny'') = Inr q" "attr_Path (Attributes q) = ''/deny''"
    using sample_http_read by blast
  have e: "engine sample_authorizer q (w_metrics fresh_world) = ((Some (sample_response False), None), zero_metrics)"
    by (simp add: sample_authorizer_def q(2) fresh_world_def)
  have "w_Status fresh_world = None" "w_Body fresh_world = []"
    "outputProgram sample_authorizer = default_output (Errorf ''no such field'')"
    by (simp_all add: fresh_world_def sample_authorizer_def)
  from http_status_is_decision [OF s this q(1) e _ sample_authorizer_vectors sample_labels_valid [OF q(1)]] s show ?thesis by (auto simp: sample_response_def utf8_valid_ascii)
qed

lemma fold_header_Set_value:
  "w_Header (fold (header_Set k) vs w) =
    (if vs = [] then w_Header w else (w_Header w)(CanonicalMIMEHeaderKey k \<mapsto> [last vs]))"
  by (induction vs arbitrary: w) (auto simp: header_Set_def)

lemma fold_headers_other:
  "\<forall>k \<in> set it. CanonicalMIMEHeaderKey k \<noteq> c \<Longrightarrow>
    w_Header (fold (\<lambda>k. fold (header_Set k) (g k)) it w) c = w_Header w c"
  by (induction it arbitrary: w) (auto simp: fold_header_Set_value)

lemma fold_headers_value:
  assumes "distinct it" and "inj_on CanonicalMIMEHeaderKey (set it)" and "k \<in> set it" and "g k \<noteq> []"
  shows "w_Header (fold (\<lambda>k. fold (header_Set k) (g k)) it w) (CanonicalMIMEHeaderKey k) = Some [last (g k)]"
  using assms
proof (induction it arbitrary: w)
  case (Cons l it)
  show ?case
  proof (cases "l = k")
    case True
    have "\<forall>j \<in> set it. CanonicalMIMEHeaderKey j \<noteq> CanonicalMIMEHeaderKey k"
      using Cons.prems(1,2,3) True by (auto simp: inj_on_def)
    with True Cons.prems(4) show ?thesis by (simp add: fold_headers_other fold_header_Set_value)
  next
    case False
    with Cons show ?thesis by (auto simp: inj_on_def)
  qed
qed simp

text \<open>
  Multi-valued response headers are cut to one value: of the values an output expression
  gives for a header only the last is sent.
\<close>

lemma response_header_keeps_last_value:
  assumes "writeResponse it resp w = (w', None)" and "hr_Header resp = Some h" and "iterates it h"
    and "inj_on CanonicalMIMEHeaderKey (dom h)" and "h k = Some vs" and "vs \<noteq> []"
  shows "w_Header w' (CanonicalMIMEHeaderKey k) = Some [last vs]"
proof -
  let ?g = "\<lambda>k. case h k of Some v \<Rightarrow> v | None \<Rightarrow> []"
  have "w_Header (fold (\<lambda>k. fold (header_Set k) (?g k)) it w) (CanonicalMIMEHeaderKey k) = Some [last (?g k)]"
    using assms(3-6) by (intro fold_headers_value) (auto simp: iterates_def)
  with assms(1,2,5) show ?thesis
    by (auto simp: writeResponse_def WriteHeader_def Let_def split: option.splits if_splits)
qed

lemma response_header_keeps_last_value_sample:
  "\<exists>w'. writeResponse [''X-A''] \<lparr>hr_Status = 200, hr_Header = Some [''X-A'' \<mapsto> [''1'', ''2'']], hr_Body = None\<rparr> fresh_world
      = (w', None) \<and> w_Header w' (CanonicalMIMEHeaderKey ''X-A'') = Some [''2'']"
proof -
  let ?resp = "\<lparr>hr_Status = 200, hr_Header = Some [''X-A'' \<mapsto> [''1'', ''2'']], hr_Body = None\<rparr>"
  have "w_Status fresh_world = None" by (simp add: fresh_world_def)
  with writeResponse_status [of fresh_world ?resp "[''X-A'']"]
  obtain w' where w: "writeResponse [''X-A''] ?resp fresh_world = (w', None)" by auto
  have "w_Header w' (CanonicalMIMEHeaderKey ''X-A'') = Some [last [''1'', ''2'']]"
    by (rule response_header_keeps_last_value [OF w, where h = "[''X-A'' \<mapsto> [''1'', ''2'']]"])
      (simp_all add: iterates_def)
  with w show ?thesis by auto
qed

end
