(* ===== verification/AuthzEnvoy.thy ===== *)
theory AuthzEnvoy
  imports Dispatch
begin

text \<open>
  The Envoy authorization service (\<open>pkg/authz/envoy/service.go\<close>): the gRPC answer to a check
  request, the event pushed and the metrics recorded. The engine is a parameter.
\<close>

section \<open>The service\<close>

record 'm envoy_world =
  e_events :: "(envoy_request \<times> 'm resultAccessor) list"
  e_metrics :: metrics

record 'm service =
  s_engine :: "envoy_request \<Rightarrow> metrics \<Rightarrow> 'm EnvoyResponse evaluation \<times> metrics"

definition empty_response :: "'m EnvoyResponse" where
  "empty_response = \<lparr>Status = None, HttpResponseKind = NoHttpResponse, DynamicMetadata = None\<rparr>"

definition envoy_check :: "'m service \<Rightarrow> envoy_request \<Rightarrow> metrics \<Rightarrow> ('m EnvoyResponse \<times> go_error option) \<times> metrics" where
  "envoy_check S r m =
     (let ((result, error), m) = s_engine S r m
      in case result of
           None \<Rightarrow> ((empty_response, error), m)
         | Some res \<Rightarrow> ((res, None), m))"

definition envoy_push :: "envoy_request \<Rightarrow> 'm event_result \<Rightarrow> go_error option \<Rightarrow> 'm envoy_world \<Rightarrow> 'm envoy_world" where
  "envoy_push r res err w = w\<lparr>e_events := e_events w @ [(r, NewResultAccessor res err)]\<rparr>"

definition Check :: "'m service \<Rightarrow> envoy_request \<Rightarrow> 'm envoy_world
    \<Rightarrow> ('m EnvoyResponse \<times> go_error option) \<times> 'm envoy_world" where
  "Check S r w =
     (let ((response, err), m) = envoy_check S r (e_metrics w);
          w = w\<lparr>e_metrics := m\<rparr>
      in case err of
           Some err \<Rightarrow>
             (let w = w\<lparr>e_metrics := RecordEnvoyRequestError r (e_metrics w)\<rparr>;
                  w = envoy_push r (OtherResult ''<nil>'') (Some err) w
              in ((response, Some err),
                  w\<lparr>e_metrics := RecordAuthzDecision ModeEnvoy DecisionError SourceEngine (e_metrics w)\<rparr>))
         | None \<Rightarrow>
             (let (decision, source) =
                    (if GetDeniedResponse response \<noteq> None then (DecisionDeny, SourcePolicy)
                     else if GetOkResponse response \<noteq> None then (DecisionAllow, SourcePolicy)
                     else (DecisionAllow, SourceDefault));
                  w = envoy_push r (EnvoyResult (Some response)) None w;
                  w = w\<lparr>e_metrics := RecordEnvoyRequest r (Some response) (e_metrics w)\<rparr>
              in ((response, None),
                  w\<lparr>e_metrics := RecordAuthzDecision ModeEnvoy decision source (e_metrics w)\<rparr>)))"

lemma RecordEnvoy_sel [simp]:
  "authzRequestDecisionsTotal (RecordEnvoyRequest r res m) = authzRequestDecisionsTotal m"
  "authzRequestDecisionsTotal (RecordEnvoyRequestError r m) = authzRequestDecisionsTotal m"
  by (simp_all add: RecordEnvoyRequest_def RecordEnvoyRequestError_def Let_def split: prod.split)

section \<open>Properties\<close>

text \<open>
  C14. The answer, the metric and the event agree: a request is answered with the policies'
  response if there is one, with an error if the engine only has one, and with the empty
  (allowing) response otherwise; the decision recorded is that of the answer, and the one event
  pushed yields the same class without panicking.
\<close>

theorem envoy_check_consistent:
  assumes "s_engine S r (e_metrics w) = ((result, error), m)"
    and "authzRequestDecisionsTotal m = authzRequestDecisionsTotal (e_metrics w)"
    and "Check S r w = ((response, err), w')"
  shows "response = (case result of Some x \<Rightarrow> x | None \<Rightarrow> empty_response)
    \<and> err = (if result = None then error else None)
    \<and> (\<exists>acc d s class e. e_events w' = e_events w @ [(r, acc)] \<and> MustGet acc = Ret (class, e) \<and> e = err
        \<and> authzRequestDecisionsTotal (e_metrics w') = Inc [ModeEnvoy, d, s] (authzRequestDecisionsTotal (e_metrics w))
        \<and> d = (if err \<noteq> None then DecisionError else if GetDeniedResponse response \<noteq> None then DecisionDeny else DecisionAllow)
        \<and> class = (if d = DecisionError then RequestErrored else if d = DecisionDeny then RequestDenied else RequestAllowed))"
proof (cases "result = None \<and> error \<noteq> None")
  case True
  with assms show ?thesis
    by (auto simp: Check_def envoy_check_def Let_def envoy_push_def NewResultAccessor_def MustGet_def
        RecordAuthzDecision_def; blast)
next
  case False
  then have c: "envoy_check S r (e_metrics w) = ((case result of Some x \<Rightarrow> x | None \<Rightarrow> empty_response, None), m)"
    using assms(1) by (auto simp: envoy_check_def split: option.split)
  let ?x = "case result of Some x \<Rightarrow> x | None \<Rightarrow> empty_response"
  have "response = ?x" "err = None"
    using assms(3) c by (auto simp: Check_def Let_def split: if_splits)
  moreover have "err = (if result = None then error else None)" using False calculation by auto
  moreover have "MustGet (NewResultAccessor (EnvoyResult (Some ?x)) None)
      = Ret (if GetDeniedResponse ?x \<noteq> None then RequestDenied else RequestAllowed, None)"
    by (auto simp: MustGet_def NewResultAccessor_def split: option.split)
  moreover have "e_events w' = e_events w @ [(r, NewResultAccessor (EnvoyResult (Some ?x)) None)]"
    using assms(3) c by (auto simp: Check_def Let_def envoy_push_def split: if_splits)
  moreover have "\<exists>s. authzRequestDecisionsTotal (e_metrics w') =
      Inc [ModeEnvoy, if GetDeniedResponse ?x \<noteq> None then DecisionDeny else DecisionAllow, s]
        (authzRequestDecisionsTotal (e_metrics w))"
    using assms(2,3) c
    by (auto simp: Check_def Let_def envoy_push_def RecordAuthzDecision_def split: if_splits)
  ultimately show ?thesis by auto
qed

definition sample_service :: "unit service" where
  "sample_service = \<lparr>s_engine = (\<lambda>r m. ((None, None), m))\<rparr>"

theorem envoy_check_consistent_witness:
  "\<exists>w'. Check sample_service None \<lparr>e_events = [], e_metrics = zero_metrics\<rparr> = ((empty_response, None), w')
     \<and> (\<exists>acc. e_events w' = [(None, acc)] \<and> MustGet acc = Ret (RequestAllowed, None))"
proof -
  let ?w = "\<lparr>e_events = [], e_metrics = zero_metrics\<rparr> :: unit envoy_world"
  obtain response err w' where c: "Check sample_service None ?w = ((response, err), w')" by (metis surj_pair)
  have "s_engine sample_service None (e_metrics ?w) = ((None, None), zero_metrics)" by (simp add: sample_service_def)
  from envoy_check_consistent [OF this _ c] c show ?thesis
    by (auto simp: empty_response_def GetDeniedResponse_def metric_labels)
qed

end
