(* ===== verification/Policy.thy ===== *)
theory Policy
  imports Cel
begin

text \<open>
  A compiled policy and its evaluation (\<open>pkg/engine/compiler/policy.go\<close>): match conditions,
  lazily evaluated variables, policy exceptions and rules, and the failure policy. The second
  half states what a policy means (the verdict of each condition, exception and rule, and the
  first decisive one) and shows that the loops compute it; the last section shows how deep the
  evaluation of variables that reference each other can go.
\<close>

section \<open>State\<close>

type_synonym failure_policy = string

definition Fail :: failure_policy where "Fail = ''Fail''"
definition Ignore :: failure_policy where "Ignore = ''Ignore''"

record ('in, 'v) compiledException =
  ex_matchConditions :: "('in, 'v) program list"

record ('in, 'v) compiledPolicy =
  cp_name :: string
  failurePolicy :: failure_policy
  matchConditions :: "('in, 'v) program list"
  variables :: "string \<rightharpoonup> ('in, 'v) program"
  rules :: "('in, 'v) program list"
  exceptions :: "('in, 'v) compiledException list"

definition zero_policy :: "('in, 'v) compiledPolicy" where
  "zero_policy = \<lparr>cp_name = [], failurePolicy = [], matchConditions = [],
     variables = Map.empty, rules = [], exceptions = []\<rparr>"

definition policy_Name :: "('in, 'v) compiledPolicy \<Rightarrow> string" where
  "policy_Name p = cp_name p"

section \<open>Match conditions\<close>

text \<open>
  The loop of \<open>match\<close>: errors are collected, the first condition that is false ends the
  loop with no match and no error, and the collected errors are combined at the end. A nil
  value without an error makes the conversion dereference nil.
\<close>

fun match_loop :: "('v, 'o) val_api \<Rightarrow> ('in, 'v) program list \<Rightarrow> ('in, 'v) activation
    \<Rightarrow> go_error list \<Rightarrow> (bool \<times> go_error option) outcome" where
  "match_loop A [] data errs = Ret (True, combine A errs)"
| "match_loop A (matchCondition # mcs) data errs =
     (case matchCondition data of
        (_, Some err) \<Rightarrow> match_loop A mcs data (errs @ [err])
      | (None, None) \<Rightarrow> Panic nil_deref
      | (Some out, None) \<Rightarrow>
          bind_outcome (ConvertToBool A out) (\<lambda>(result, err).
            case err of
              Some e \<Rightarrow> match_loop A mcs data (errs @ [e])
            | None \<Rightarrow> if \<not> result then Ret (False, None) else match_loop A mcs data errs))"

definition policy_match :: "('v, 'o) val_api \<Rightarrow> ('in, 'v) compiledPolicy \<Rightarrow> 'in
    \<Rightarrow> (bool \<times> go_error option) outcome" where
  "policy_match A p r = match_loop A (matchConditions p) \<lparr>act_object = r, act_variables = None\<rparr> []"

section \<open>Variables\<close>

text \<open>
  The callback of a variable: its value; a CEL error value if there is only an error; the nil
  interface if there is neither. The callback runs the variable's program on the same
  activation that holds the callbacks, so a variable may read other variables. The recursion
  depth is bounded by \<open>fuel\<close>; \<open>lazy_vars_enough\<close> below says how much is needed.
\<close>

definition variable_callback :: "('v, 'o) val_api \<Rightarrow> ('in, 'v) program \<Rightarrow> ('in, 'v) activation \<Rightarrow> 'v option" where
  "variable_callback A variable data =
     (case variable data of
        (Some out, _) \<Rightarrow> Some out
      | (None, Some err) \<Rightarrow> Some (wrap_err A err)
      | (None, None) \<Rightarrow> None)"

fun lazy_vars :: "nat \<Rightarrow> ('v, 'o) val_api \<Rightarrow> (string \<rightharpoonup> ('in, 'v) program) \<Rightarrow> 'in \<Rightarrow> (string \<rightharpoonup> 'v option)" where
  "lazy_vars 0 A vs r = Map.empty"
| "lazy_vars (Suc fuel) A vs r =
     (\<lambda>name. case vs name of
        None \<Rightarrow> None
      | Some variable \<Rightarrow>
          Some (variable_callback A variable \<lparr>act_object = r, act_variables = Some (lazy_vars fuel A vs r)\<rparr>))"

definition setupVariables :: "nat \<Rightarrow> ('v, 'o) val_api \<Rightarrow> ('in, 'v) compiledPolicy \<Rightarrow> 'in
    \<Rightarrow> ('in, 'v) activation \<times> go_error option" where
  "setupVariables fuel A p r =
     (\<lparr>act_object = r, act_variables = Some (lazy_vars fuel A (variables p) r)\<rparr>, None)"

section \<open>Exceptions\<close>

text \<open>
  All conditions of an exception are evaluated, also after one was false; an error or a value
  that is not a bool ends the evaluation of the policy with an error.
\<close>

definition not_bool_error :: go_error where
  "not_bool_error = Errorf ''got an output for the match condition that isn't bool''"

fun exception_conds :: "('v, 'o) val_api \<Rightarrow> ('in, 'v) program list \<Rightarrow> ('in, 'v) activation
    \<Rightarrow> bool \<Rightarrow> (go_error + bool) outcome" where
  "exception_conds A [] data exceptionMatches = Ret (Inr exceptionMatches)"
| "exception_conds A (matchCond # mcs) data exceptionMatches =
     (case matchCond data of
        (_, Some err) \<Rightarrow> Ret (Inl err)
      | (None, None) \<Rightarrow> Panic nil_deref
      | (Some out, None) \<Rightarrow>
          (case any_bool (go_value A out) of
             None \<Rightarrow> Ret (Inl not_bool_error)
           | Some m \<Rightarrow> exception_conds A mcs data (if \<not> m then False else exceptionMatches)))"

fun exceptions_loop :: "('v, 'o) val_api \<Rightarrow> ('in, 'v) compiledException list \<Rightarrow> ('in, 'v) activation
    \<Rightarrow> (go_error + bool) outcome" where
  "exceptions_loop A [] data = Ret (Inr False)"
| "exceptions_loop A (polex # ps) data =
     bind_outcome (exception_conds A (ex_matchConditions polex) data True) (\<lambda>res.
       case res of
         Inl err \<Rightarrow> Ret (Inl err)
       | Inr exceptionMatches \<Rightarrow>
           if exceptionMatches then Ret (Inr True) else exceptions_loop A ps data)"

section \<open>Rules\<close>

definition evaluateRule :: "('v, 'o) val_api \<Rightarrow> ('in, 'v) program \<Rightarrow> ('in, 'v) activation
    \<Rightarrow> 'o go_any \<times> go_error option" where
  "evaluateRule A rule data =
     (case rule data of
        (_, Some err) \<Rightarrow> (AnyNil, Some err)
      | (None, None) \<Rightarrow> (AnyNil, None)
      | (Some out, None) \<Rightarrow>
          if is_null_value A out then (AnyNil, None) else (go_value A out, None))"

definition rule_type_error :: "('v, 'o) val_api \<Rightarrow> go_error" where
  "rule_type_error A = Errorf (''rule result is expected to be '' @ out_type_name A)"

fun rules_loop :: "('v, 'o) val_api \<Rightarrow> ('in, 'v) program list \<Rightarrow> ('in, 'v) activation
    \<Rightarrow> 'o option \<times> go_error option" where
  "rules_loop A [] data = (None, None)"
| "rules_loop A (rule # rs) data =
     (case evaluateRule A rule data of
        (_, Some err) \<Rightarrow> (None, Some err)
      | (AnyNil, None) \<Rightarrow> rules_loop A rs data
      | (AnyOut val, None) \<Rightarrow> (val, None)
      | (_, None) \<Rightarrow> (None, Some (rule_type_error A)))"

section \<open>The policy\<close>

definition evaluateRules :: "nat \<Rightarrow> ('v, 'o) val_api \<Rightarrow> ('in, 'v) compiledPolicy \<Rightarrow> 'in
    \<Rightarrow> ('o option \<times> go_error option) outcome" where
  "evaluateRules fuel A p r =
     bind_outcome (policy_match A p r) (\<lambda>(matched, err).
       case err of
         Some e \<Rightarrow> Ret (None, Some e)
       | None \<Rightarrow>
           if \<not> matched then Ret (None, None)
           else (case setupVariables fuel A p r of
                   (_, Some e) \<Rightarrow> Ret (None, Some e)
                 | (data, None) \<Rightarrow>
                     bind_outcome (exceptions_loop A (exceptions p) data) (\<lambda>res.
                       case res of
                         Inl e \<Rightarrow> Ret (None, Some e)
                       | Inr exempt \<Rightarrow>
                           if exempt then Ret (None, None)
                           else Ret (rules_loop A (rules p) data))))"

definition Evaluate :: "nat \<Rightarrow> ('v, 'o) val_api \<Rightarrow> ('in, 'v) compiledPolicy \<Rightarrow> 'in
    \<Rightarrow> ('o option \<times> go_error option) outcome" where
  "Evaluate fuel A p r =
     bind_outcome (evaluateRules fuel A p r) (\<lambda>(response, err).
       if err \<noteq> None \<and> failurePolicy p = Fail then Ret (None, err) else Ret (response, None))"

section \<open>What the conditions, exceptions and rules say\<close>

datatype cond_verdict = CTrue | CFalse | CError go_error | CPanic

definition match_verdict :: "('v, 'o) val_api \<Rightarrow> ('in, 'v) activation \<Rightarrow> ('in, 'v) program \<Rightarrow> cond_verdict" where
  "match_verdict A data mc =
     (case mc data of
        (_, Some e) \<Rightarrow> CError e
      | (None, None) \<Rightarrow> CPanic
      | (Some out, None) \<Rightarrow>
          (case native_bool A out of
             Inl e \<Rightarrow> CError e
           | Inr v \<Rightarrow> (case any_bool v of Some b \<Rightarrow> if b then CTrue else CFalse | None \<Rightarrow> CPanic)))"

definition exc_cond_verdict :: "('v, 'o) val_api \<Rightarrow> ('in, 'v) activation \<Rightarrow> ('in, 'v) program \<Rightarrow> cond_verdict" where
  "exc_cond_verdict A data mc =
     (case mc data of
        (_, Some e) \<Rightarrow> CError e
      | (None, None) \<Rightarrow> CPanic
      | (Some out, None) \<Rightarrow>
          (case any_bool (go_value A out) of
             Some b \<Rightarrow> if b then CTrue else CFalse
           | None \<Rightarrow> CError not_bool_error))"

fun cond_errors :: "cond_verdict list \<Rightarrow> go_error list" where
  "cond_errors [] = []"
| "cond_errors (CError e # vs) = e # cond_errors vs"
| "cond_errors (_ # vs) = cond_errors vs"

datatype exc_verdict = Exempts | Applies | EError go_error | EPanic

definition exception_verdict :: "('v, 'o) val_api \<Rightarrow> ('in, 'v) activation \<Rightarrow> ('in, 'v) compiledException \<Rightarrow> exc_verdict" where
  "exception_verdict A data polex =
     (let vs = map (exc_cond_verdict A data) (ex_matchConditions polex) in
      case find (\<lambda>v. v \<noteq> CTrue \<and> v \<noteq> CFalse) vs of
        Some (CError e) \<Rightarrow> EError e
      | Some CPanic \<Rightarrow> EPanic
      | _ \<Rightarrow> if CFalse \<in> set vs then Applies else Exempts)"

datatype 'o rule_verdict = RNull | RError go_error | RResponse "'o option"

definition rule_verdict :: "('v, 'o) val_api \<Rightarrow> ('in, 'v) activation \<Rightarrow> ('in, 'v) program \<Rightarrow> 'o rule_verdict" where
  "rule_verdict A data rule =
     (case rule data of
        (_, Some e) \<Rightarrow> RError e
      | (None, None) \<Rightarrow> RNull
      | (Some out, None) \<Rightarrow>
          if is_null_value A out then RNull
          else (case go_value A out of
                  AnyNil \<Rightarrow> RNull
                | AnyOut val \<Rightarrow> RResponse val
                | _ \<Rightarrow> RError (rule_type_error A)))"

section \<open>The loops compute the verdicts\<close>

lemma match_loop_verdicts:
  "CPanic \<notin> set (map (match_verdict A data) mcs) \<Longrightarrow>
   match_loop A mcs data errs =
     (if CFalse \<in> set (map (match_verdict A data) mcs) then Ret (False, None)
      else Ret (True, combine A (errs @ cond_errors (map (match_verdict A data) mcs))))"
proof (induction mcs arbitrary: errs)
  case Nil
  then show ?case by simp
next
  case (Cons mc mcs)
  then show ?case
    by (auto simp: match_verdict_def [of A data mc] ConvertToBool_def ConvertToNative_def
        split: prod.splits option.splits sum.splits if_splits)
qed

lemma exception_conds_step:
  "exception_conds A (mc # mcs) data b =
     (case exc_cond_verdict A data mc of
        CError e \<Rightarrow> Ret (Inl e)
      | CPanic \<Rightarrow> Panic nil_deref
      | CTrue \<Rightarrow> exception_conds A mcs data b
      | CFalse \<Rightarrow> exception_conds A mcs data False)"
  by (auto simp: exc_cond_verdict_def split: option.splits prod.splits)

lemma exception_conds_verdicts:
  "exception_conds A mcs data b =
     (let vs = map (exc_cond_verdict A data) mcs in
      case find (\<lambda>v. v \<noteq> CTrue \<and> v \<noteq> CFalse) vs of
        Some (CError e) \<Rightarrow> Ret (Inl e)
      | Some CPanic \<Rightarrow> Panic nil_deref
      | _ \<Rightarrow> Ret (Inr (b \<and> CFalse \<notin> set vs)))"
proof (induction mcs arbitrary: b)
  case Nil
  then show ?case by simp
next
  case (Cons mc mcs)
  show ?case
    by (cases "exc_cond_verdict A data mc")
       (simp_all add: exception_conds_step Cons.IH Let_def
          del: exception_conds.simps split: option.split cond_verdict.split)
qed

lemma exceptions_loop_step:
  "exceptions_loop A (polex # ps) data =
     (case exception_verdict A data polex of
        Exempts \<Rightarrow> Ret (Inr True)
      | Applies \<Rightarrow> exceptions_loop A ps data
      | EError e \<Rightarrow> Ret (Inl e)
      | EPanic \<Rightarrow> Panic nil_deref)"
  by (simp add: exception_verdict_def exception_conds_verdicts Let_def
      split: option.split cond_verdict.split)

lemma exceptions_loop_verdicts:
  "exceptions_loop A ps data =
     (case find (\<lambda>v. v \<noteq> Applies) (map (exception_verdict A data) ps) of
        None \<Rightarrow> Ret (Inr False)
      | Some Exempts \<Rightarrow> Ret (Inr True)
      | Some (EError e) \<Rightarrow> Ret (Inl e)
      | _ \<Rightarrow> Panic nil_deref)"
proof (induction ps)
  case Nil
  then show ?case by simp
next
  case (Cons polex ps)
  then show ?case
    by (cases "exception_verdict A data polex")
       (simp_all add: exceptions_loop_step del: exceptions_loop.simps)
qed

lemma rules_loop_verdicts:
  "rules_loop A rs data =
     (case find (\<lambda>v. v \<noteq> RNull) (map (rule_verdict A data) rs) of
        Some (RError e) \<Rightarrow> (None, Some e)
      | Some (RResponse val) \<Rightarrow> (val, None)
      | _ \<Rightarrow> (None, None))"
proof (induction rs)
  case Nil
  then show ?case by simp
next
  case (Cons rule rs)
  then show ?case
    by (auto simp: evaluateRule_def rule_verdict_def [of A data rule] split: option.splits prod.splits go_any.splits)
qed

section \<open>The meaning of a policy\<close>

text \<open>
  \<open>multierr.Combine\<close> of the errors collected: nil exactly when none was collected (its
  documented behaviour on non-nil errors).
\<close>

definition multierr_law :: "('v, 'o) val_api \<Rightarrow> bool" where
  "multierr_law A \<longleftrightarrow> (\<forall>errs. combine A errs = None \<longleftrightarrow> errs = [])"

lemma multierr_law_Nil: "multierr_law A \<Longrightarrow> combine A [] = None"
  by (simp add: multierr_law_def)

lemma multierr_law_Some: "multierr_law A \<Longrightarrow> errs \<noteq> [] \<Longrightarrow> combine A errs = Some (the (combine A errs))"
  by (auto simp: multierr_law_def)

definition match_data :: "'in \<Rightarrow> ('in, 'v) activation" where
  "match_data r = \<lparr>act_object = r, act_variables = None\<rparr>"

definition rule_data :: "nat \<Rightarrow> ('v, 'o) val_api \<Rightarrow> ('in, 'v) compiledPolicy \<Rightarrow> 'in \<Rightarrow> ('in, 'v) activation" where
  "rule_data fuel A p r = fst (setupVariables fuel A p r)"

abbreviation match_verdicts where
  "match_verdicts A p r \<equiv> map (match_verdict A (match_data r)) (matchConditions p)"

abbreviation exception_verdicts where
  "exception_verdicts fuel A p r \<equiv> map (exception_verdict A (rule_data fuel A p r)) (exceptions p)"

abbreviation rule_verdicts where
  "rule_verdicts fuel A p r \<equiv> map (rule_verdict A (rule_data fuel A p r)) (rules p)"

datatype 'o verdict = Skipped | Errored go_error | Decided "'o option"

definition policy_verdict :: "nat \<Rightarrow> ('v, 'o) val_api \<Rightarrow> ('in, 'v) compiledPolicy \<Rightarrow> 'in \<Rightarrow> 'o verdict" where
  "policy_verdict fuel A p r =
     (if CFalse \<in> set (match_verdicts A p r) then Skipped
      else if cond_errors (match_verdicts A p r) \<noteq> []
        then Errored (the (combine A (cond_errors (match_verdicts A p r))))
      else case find (\<lambda>v. v \<noteq> Applies) (exception_verdicts fuel A p r) of
          Some (EError e) \<Rightarrow> Errored e
        | Some _ \<Rightarrow> Skipped
        | None \<Rightarrow>
            (case find (\<lambda>v. v \<noteq> RNull) (rule_verdicts fuel A p r) of
               Some (RError e) \<Rightarrow> Errored e
             | Some (RResponse val) \<Rightarrow> Decided val
             | _ \<Rightarrow> Skipped))"

definition apply_failure_policy :: "failure_policy \<Rightarrow> 'o verdict \<Rightarrow> 'o option \<times> go_error option" where
  "apply_failure_policy fp v =
     (case v of
        Skipped \<Rightarrow> (None, None)
      | Decided val \<Rightarrow> (val, None)
      | Errored e \<Rightarrow> (None, if fp = Fail then Some e else None))"

text \<open>No condition evaluates to the nil interface without an error.\<close>

definition no_nil_values :: "nat \<Rightarrow> ('v, 'o) val_api \<Rightarrow> ('in, 'v) compiledPolicy \<Rightarrow> 'in \<Rightarrow> bool" where
  "no_nil_values fuel A p r \<longleftrightarrow>
     CPanic \<notin> set (match_verdicts A p r) \<and> EPanic \<notin> set (exception_verdicts fuel A p r)"

lemma policy_match_verdicts:
  assumes "CPanic \<notin> set (match_verdicts A p r)"
  shows "policy_match A p r =
    (if CFalse \<in> set (match_verdicts A p r) then Ret (False, None)
     else Ret (True, combine A (cond_errors (match_verdicts A p r))))"
  using match_loop_verdicts [OF assms] by (simp add: policy_match_def match_data_def)

lemma find_in_set: "find P xs = Some x \<Longrightarrow> x \<in> set xs \<and> P x"
  by (auto simp: find_Some_iff)

lemma setupVariables_rule_data: "setupVariables fuel A p r = (rule_data fuel A p r, None)"
  by (simp add: rule_data_def setupVariables_def)

lemma evaluateRules_verdict:
  assumes "multierr_law A" and "no_nil_values fuel A p r"
  shows "evaluateRules fuel A p r = Ret (apply_failure_policy Fail (policy_verdict fuel A p r))"
proof -
  have no: "find (\<lambda>v. v \<noteq> Applies) (exception_verdicts fuel A p r) \<noteq> Some EPanic"
      "find (\<lambda>v. v \<noteq> Applies) (exception_verdicts fuel A p r) \<noteq> Some Applies"
    using assms(2) by (auto simp: no_nil_values_def dest: find_in_set)
  show ?thesis
    using assms(2) no multierr_law_Nil [OF assms(1)]
      multierr_law_Some [OF assms(1), of "cond_errors (match_verdicts A p r)"]
    by (auto simp: evaluateRules_def policy_match_verdicts no_nil_values_def
        exceptions_loop_verdicts rules_loop_verdicts setupVariables_rule_data policy_verdict_def
        apply_failure_policy_def Fail_def split: option.splits exc_verdict.splits rule_verdict.splits)
qed

lemma Evaluate_verdict:
  assumes "multierr_law A" and "no_nil_values fuel A p r"
  shows "Evaluate fuel A p r = Ret (apply_failure_policy (failurePolicy p) (policy_verdict fuel A p r))"
  using evaluateRules_verdict [OF assms]
  by (auto simp: Evaluate_def apply_failure_policy_def Fail_def split: verdict.splits)

lemma Evaluate_evaluateRules:
  "evaluateRules fuel A p r = Ret (resp, err) \<Longrightarrow>
   Evaluate fuel A p r =
     Ret (if err \<noteq> None \<and> failurePolicy p = Fail then (None, err) else (resp, None))"
  by (simp add: Evaluate_def)

text \<open>An error of the rules carries no response, so ignoring it leaves no response.\<close>

lemma rules_loop_error_no_response: "rules_loop A rs data = (resp, Some e) \<Longrightarrow> resp = None"
  by (induction rs) (auto split: prod.splits option.splits go_any.splits)

text \<open>
  How an evaluation that returns got there: the match conditions returned an error, or did not
  match, or an exception returned an error or exempted the request, or the rules decided.
\<close>

lemma evaluateRules_cases:
  assumes "evaluateRules fuel A p r = Ret res"
  obtains (match_error) m e where "policy_match A p r = Ret (m, Some e)" "res = (None, Some e)"
    | (no_match) "policy_match A p r = Ret (False, None)" "res = (None, None)"
    | (exception_error) e where "policy_match A p r = Ret (True, None)"
        "exceptions_loop A (exceptions p) (rule_data fuel A p r) = Ret (Inl e)" "res = (None, Some e)"
    | (exempt) "policy_match A p r = Ret (True, None)"
        "exceptions_loop A (exceptions p) (rule_data fuel A p r) = Ret (Inr True)" "res = (None, None)"
    | (rules) "policy_match A p r = Ret (True, None)"
        "exceptions_loop A (exceptions p) (rule_data fuel A p r) = Ret (Inr False)"
        "res = rules_loop A (rules p) (rule_data fuel A p r)"
proof -
  obtain m err where pm: "policy_match A p r = Ret (m, err)"
    using assms by (cases "policy_match A p r") (auto simp: evaluateRules_def)
  show ?thesis
  proof (cases "err = None \<and> m")
    case False
    with pm assms match_error no_match show ?thesis
      by (cases err) (auto simp: evaluateRules_def)
  next
    case True
    with pm assms obtain x where x: "exceptions_loop A (exceptions p) (rule_data fuel A p r) = Ret x"
      by (cases "exceptions_loop A (exceptions p) (rule_data fuel A p r)")
         (auto simp: evaluateRules_def setupVariables_rule_data)
    from True pm assms x exception_error exempt rules show ?thesis
      by (cases x) (auto simp: evaluateRules_def setupVariables_rule_data split: if_splits)
  qed
qed

lemma evaluateRules_error_no_response:
  "evaluateRules fuel A p r = Ret (resp, Some e) \<Longrightarrow> resp = None"
  by (erule evaluateRules_cases) (auto dest: rules_loop_error_no_response [OF sym])

section \<open>Variables that reference each other\<close>

text \<open>
  \<open>reads_only P S\<close>: the program depends on the variables only through the names in
  \<open>S\<close>. The compiler registers a variable after it has checked its expression, so a
  variable reads only variables declared before it: \<open>vars_ordered\<close> says this of a map of
  variables and the list of their names in declaration order.
\<close>

definition reads_only :: "('in, 'v) program \<Rightarrow> string set \<Rightarrow> bool" where
  "reads_only P S \<longleftrightarrow>
     (\<forall>r L L'. (\<forall>n \<in> S. L n = L' n) \<longrightarrow>
        P \<lparr>act_object = r, act_variables = Some L\<rparr> = P \<lparr>act_object = r, act_variables = Some L'\<rparr>)"

definition vars_ordered :: "(string \<rightharpoonup> ('in, 'v) program) \<Rightarrow> string list \<Rightarrow> bool" where
  "vars_ordered vs order \<longleftrightarrow>
     set order = dom vs \<and>
     (\<forall>i < length order. \<forall>P. vs (order ! i) = Some P \<longrightarrow> reads_only P (set (take i order)))"

lemma reads_only_callback:
  assumes "reads_only P S" and "\<And>n. n \<in> S \<Longrightarrow> L n = L' n"
  shows "variable_callback A P \<lparr>act_object = r, act_variables = Some L\<rparr> =
    variable_callback A P \<lparr>act_object = r, act_variables = Some L'\<rparr>"
proof -
  have "P \<lparr>act_object = r, act_variables = Some L\<rparr> = P \<lparr>act_object = r, act_variables = Some L'\<rparr>"
    using assms unfolding reads_only_def by blast
  then show ?thesis by (simp add: variable_callback_def)
qed

lemma lazy_vars_index:
  assumes "vars_ordered vs order"
  shows "i < length order \<Longrightarrow> i < n \<Longrightarrow> i < m \<Longrightarrow>
    lazy_vars n A vs r (order ! i) = lazy_vars m A vs r (order ! i)"
proof (induction i arbitrary: n m rule: less_induct)
  case (less i)
  then obtain n' m' where nm: "n = Suc n'" "m = Suc m'" by (metis less_imp_Suc_add)
  show ?case
  proof (cases "vs (order ! i)")
    case None
    then show ?thesis by (simp add: nm)
  next
    case (Some P)
    with assms less.prems have ro: "reads_only P (set (take i order))"
      by (auto simp: vars_ordered_def)
    have "lazy_vars n' A vs r k = lazy_vars m' A vs r k" if "k \<in> set (take i order)" for k
    proof -
      from that obtain j where "j < i" "j < length order" "k = order ! j"
        by (auto simp: in_set_conv_nth)
      with less.IH [of j n' m'] less.prems nm show ?thesis by auto
    qed
    then have "variable_callback A P \<lparr>act_object = r, act_variables = Some (lazy_vars n' A vs r)\<rparr> =
        variable_callback A P \<lparr>act_object = r, act_variables = Some (lazy_vars m' A vs r)\<rparr>"
      by (rule reads_only_callback [OF ro])
    then show ?thesis by (simp add: nm Some)
  qed
qed

text \<open>Fuel equal to the number of variables is enough: more does not change any variable.\<close>

lemma lazy_vars_enough:
  assumes "vars_ordered vs order" and "length order \<le> n" and "length order \<le> m"
  shows "lazy_vars n A vs r = lazy_vars m A vs r"
proof
  fix k
  show "lazy_vars n A vs r k = lazy_vars m A vs r k"
  proof (cases "k \<in> set order")
    case True
    then obtain i where "i < length order" "k = order ! i" by (auto simp: in_set_conv_nth)
    then show ?thesis using lazy_vars_index [OF assms(1), of i n m] assms(2,3) by simp
  next
    case False
    then have "vs k = None" using assms(1) by (auto simp: vars_ordered_def)
    then show ?thesis by (cases n; cases m) auto
  qed
qed

text \<open>With enough fuel the variables are a fixed point: each is its callback over all of them.\<close>

lemma lazy_vars_fixpoint:
  assumes "vars_ordered vs order" and "length order \<le> n" and "vs k = Some P"
  shows "lazy_vars n A vs r k =
    Some (variable_callback A P \<lparr>act_object = r, act_variables = Some (lazy_vars n A vs r)\<rparr>)"
proof -
  have "lazy_vars n A vs r k = lazy_vars (Suc n) A vs r k"
    by (rule fun_cong [OF lazy_vars_enough [OF assms(1)]]) (use assms(2) in auto)
  then show ?thesis by (simp add: assms(3))
qed

lemma Evaluate_fuel_irrelevant:
  assumes "vars_ordered (variables p) order" and "length order \<le> n" and "length order \<le> m"
  shows "Evaluate n A p r = Evaluate m A p r"
proof -
  have eq: "setupVariables n A p r = setupVariables m A p r"
    using lazy_vars_enough [OF assms, of A r] by (simp add: setupVariables_def)
  show ?thesis unfolding Evaluate_def evaluateRules_def eq ..
qed

lemma policy_verdict_fuel_irrelevant:
  assumes "vars_ordered (variables p) order" and "length order \<le> n" and "length order \<le> m"
  shows "policy_verdict n A p r = policy_verdict m A p r" and "no_nil_values n A p r = no_nil_values m A p r"
proof -
  have eq: "rule_data n A p r = rule_data m A p r"
    using lazy_vars_enough [OF assms, of A r] by (simp add: rule_data_def setupVariables_def)
  show "policy_verdict n A p r = policy_verdict m A p r" unfolding policy_verdict_def eq ..
  show "no_nil_values n A p r = no_nil_values m A p r" unfolding no_nil_values_def eq ..
qed

section \<open>A sample instance of the CEL interface\<close>

text \<open>
  Concrete values and policies on which the theorems are evaluated: a value is a bool, null, a
  response, an error value or something else; requests are paths.
\<close>

datatype sample_val = SBool bool | SNull | SResp string | SErr go_error | SOther

fun sample_native_bool :: "sample_val \<Rightarrow> go_error + string go_any" where
  "sample_native_bool (SBool b) = Inr (AnyBool b)"
| "sample_native_bool (SErr e) = Inl e"
| "sample_native_bool _ = Inl (Errorf ''unsupported conversion'')"

fun sample_go_value :: "sample_val \<Rightarrow> string go_any" where
  "sample_go_value (SBool b) = AnyBool b"
| "sample_go_value SNull = AnyNil"
| "sample_go_value (SResp s) = AnyOut (Some s)"
| "sample_go_value _ = AnyOther"

fun sample_combine :: "go_error list \<Rightarrow> go_error option" where
  "sample_combine [] = None"
| "sample_combine [e] = Some e"
| "sample_combine es = Some (Errorf (concat (map error_text es)))"

definition sample_api :: "(sample_val, string) val_api" where
  "sample_api = \<lparr>native_bool = sample_native_bool, go_value = sample_go_value,
     is_null_value = (\<lambda>v. v = SNull), wrap_err = SErr, combine = sample_combine,
     out_type_name = ''*CheckResponse''\<rparr>"

definition prog_val :: "sample_val \<Rightarrow> (string, sample_val) program" where
  "prog_val v d = (Some v, None)"

definition prog_err :: "string \<Rightarrow> (string, sample_val) program" where
  "prog_err m d = (None, Some (Errorf m))"

definition prog_is_path :: "string \<Rightarrow> (string, sample_val) program" where
  "prog_is_path s d = (Some (SBool (act_object d = s)), None)"

definition prog_var :: "string \<Rightarrow> (string, sample_val) program" where
  "prog_var n d = (case act_variables d of
       None \<Rightarrow> (None, Some (Errorf ''no variables''))
     | Some L \<Rightarrow> (case L n of Some (Some v) \<Rightarrow> (Some v, None)
                           | _ \<Rightarrow> (None, Some (Errorf ''no such key''))))"

definition prog_deny_if :: "string \<Rightarrow> (string, sample_val) program" where
  "prog_deny_if n d = (case fst (prog_var n d) of
       Some (SBool True) \<Rightarrow> (Some (SResp ''denied''), None)
     | _ \<Rightarrow> (Some SNull, None))"

definition sample_policy :: "(string, sample_val) compiledPolicy" where
  "sample_policy = \<lparr>cp_name = ''demo'', failurePolicy = Fail,
     matchConditions = [prog_val (SBool True)],
     variables = [''admin'' \<mapsto> prog_is_path ''/admin'', ''blocked'' \<mapsto> prog_var ''admin''],
     rules = [prog_deny_if ''blocked''],
     exceptions = [\<lparr>ex_matchConditions = [prog_is_path ''/health'']\<rparr>]\<rparr>"

lemmas sample_defs = sample_api_def prog_val_def prog_err_def prog_is_path_def prog_var_def
  prog_deny_if_def sample_policy_def

lemmas eval_defs = Evaluate_def evaluateRules_def policy_match_def setupVariables_def
  evaluateRule_def ConvertToBool_def ConvertToNative_def variable_callback_def

lemma multierr_law_sample: "multierr_law sample_api"
proof -
  have "sample_combine es = None \<longleftrightarrow> es = []" for es
    by (cases es rule: sample_combine.cases) auto
  then show ?thesis by (simp add: multierr_law_def sample_api_def)
qed

lemma no_nil_values_sample: "no_nil_values fuel sample_api sample_policy r"
  by (simp add: no_nil_values_def sample_defs match_verdict_def exception_verdict_def
      exc_cond_verdict_def rule_data_def setupVariables_def Let_def)

lemma vars_ordered_sample: "vars_ordered (variables sample_policy) [''admin'', ''blocked'']"
  by (auto simp: vars_ordered_def sample_defs reads_only_def less_Suc_eq nth_Cons'
      split: if_splits)

lemma cond_errors_empty_iff: "cond_errors vs = [] \<longleftrightarrow> (\<forall>e. CError e \<notin> set vs)"
  by (induction vs rule: cond_errors.induct) auto

lemma cond_errors_map_empty_iff:
  "cond_errors (map f mcs) = [] \<longleftrightarrow> (\<forall>mc \<in> set mcs. \<forall>e. f mc \<noteq> CError e)"
proof (induction mcs)
  case (Cons a mcs)
  then show ?case by (cases "f a") auto
qed simp

section \<open>Properties\<close>

text \<open>
  C4. Evaluating a policy computes its declarative verdict: not applicable if a match condition
  is false; otherwise an error if a match condition failed; otherwise the first exception that
  fails or exempts decides; otherwise the first rule that is not null; and the failure policy
  turns an error into an error (Fail) or into no decision (Ignore).
\<close>

theorem Evaluate_computes_verdict:
  assumes "multierr_law A" and "no_nil_values fuel A p r"
  shows "Evaluate fuel A p r =
    Ret (apply_failure_policy (failurePolicy p) (policy_verdict fuel A p r))"
  by (rule Evaluate_verdict [OF assms])

theorem Evaluate_computes_verdict_witness:
  "Evaluate 2 sample_api sample_policy ''/admin'' = Ret (Some ''denied'', None)
   \<and> Evaluate 2 sample_api sample_policy ''/health'' = Ret (None, None)"
  using Evaluate_computes_verdict [OF multierr_law_sample no_nil_values_sample [of 2 "''/admin''"]]
    Evaluate_computes_verdict [OF multierr_law_sample no_nil_values_sample [of 2 "''/health''"]]
  by (simp add: sample_defs policy_verdict_def apply_failure_policy_def match_verdict_def
      exception_verdict_def exc_cond_verdict_def rule_verdict_def rule_data_def setupVariables_def
      variable_callback_def Let_def eval_nat_numeral)

text \<open>
  C5. Match conditions: the policy is skipped exactly when some condition evaluates to false,
  even if other conditions fail; it is an error exactly when none is false and some condition
  fails.
\<close>

theorem match_conditions_semantics:
  assumes "multierr_law A"
    and "CPanic \<notin> set (map (match_verdict A (match_data r)) (matchConditions p))"
  shows "\<exists>m err. policy_match A p r = Ret (m, err)
    \<and> (\<not> m \<longleftrightarrow> (\<exists>mc \<in> set (matchConditions p). match_verdict A (match_data r) mc = CFalse))
    \<and> (err \<noteq> None \<longleftrightarrow> m \<and> (\<exists>mc \<in> set (matchConditions p). \<exists>e. match_verdict A (match_data r) mc = CError e))"
proof -
  have "combine A (cond_errors (match_verdicts A p r)) = None \<longleftrightarrow>
      (\<forall>mc \<in> set (matchConditions p). \<forall>e. match_verdict A (match_data r) mc \<noteq> CError e)"
    using assms(1) by (simp add: multierr_law_def cond_errors_map_empty_iff)
  moreover have "CFalse \<in> set (match_verdicts A p r) \<longleftrightarrow>
      (\<exists>mc \<in> set (matchConditions p). match_verdict A (match_data r) mc = CFalse)"
    by force
  ultimately show ?thesis
    using policy_match_verdicts [OF assms(2)] by auto
qed

theorem match_conditions_semantics_witness:
  "policy_match sample_api
      (sample_policy\<lparr>matchConditions := [prog_err ''boom'', prog_val (SBool False)]\<rparr>) ''/''
    = Ret (False, None)"
  using match_conditions_semantics [OF multierr_law_sample, of "''/''"
      "sample_policy\<lparr>matchConditions := [prog_err ''boom'', prog_val (SBool False)]\<rparr>"]
  by (simp add: sample_defs match_verdict_def)

text \<open>
  Failure policy: when the rules end in an error, the policy fails closed under Fail (the
  error is returned, with no response) and decides nothing under Ignore; an error is only ever
  returned under Fail and never together with a response.
\<close>

lemma failure_policy_fails_closed:
  "(\<forall>resp e. evaluateRules fuel A p r = Ret (resp, Some e) \<longrightarrow>
      Evaluate fuel A p r = Ret (None, if failurePolicy p = Fail then Some e else None))
   \<and> (\<forall>resp e. Evaluate fuel A p r = Ret (resp, Some e) \<longrightarrow>
      failurePolicy p = Fail \<and> resp = None)"
proof (intro conjI allI impI)
  fix resp e
  assume "evaluateRules fuel A p r = Ret (resp, Some e)"
  with evaluateRules_error_no_response [OF this]
  show "Evaluate fuel A p r = Ret (None, if failurePolicy p = Fail then Some e else None)"
    by (simp add: Evaluate_evaluateRules)
next
  fix resp e
  assume "Evaluate fuel A p r = Ret (resp, Some e)"
  then show "failurePolicy p = Fail" "resp = None"
    by (auto simp: Evaluate_def bind_outcome_Ret_iff split: if_splits)
qed

lemma failure_policy_fails_closed_sample:
  "Evaluate 2 sample_api (sample_policy\<lparr>rules := [prog_err ''boom'']\<rparr>) ''/'' = Ret (None, Some (Errorf ''boom''))
   \<and> Evaluate 2 sample_api (sample_policy\<lparr>rules := [prog_err ''boom''], failurePolicy := Ignore\<rparr>) ''/'' = Ret (None, None)"
proof -
  have a: "evaluateRules 2 sample_api (sample_policy\<lparr>rules := [prog_err ''boom'']\<rparr>) ''/'' = Ret (None, Some (Errorf ''boom''))"
    by (simp add: sample_defs eval_defs)
  have b: "evaluateRules 2 sample_api (sample_policy\<lparr>rules := [prog_err ''boom''], failurePolicy := Ignore\<rparr>) ''/'' = Ret (None, Some (Errorf ''boom''))"
    by (simp add: sample_defs eval_defs)
  show ?thesis
    using failure_policy_fails_closed [of 2 sample_api "sample_policy\<lparr>rules := [prog_err ''boom'']\<rparr>" "''/''"]
      failure_policy_fails_closed [of 2 sample_api "sample_policy\<lparr>rules := [prog_err ''boom''], failurePolicy := Ignore\<rparr>" "''/''"]
      a b by (simp add: sample_policy_def Fail_def Ignore_def)
qed

text \<open>
  C6. Exceptions only exempt: whenever a policy with exceptions decides on a response, the same
  policy without exceptions decides on the same response, so an exception can remove a decision
  (or fail) but never make or change one.
\<close>

theorem exceptions_only_exempt:
  assumes "Evaluate fuel A p r = Ret (Some resp, None)"
  shows "Evaluate fuel A (p\<lparr>exceptions := []\<rparr>) r = Ret (Some resp, None)"
proof -
  obtain res err where ev: "evaluateRules fuel A p r = Ret (res, err)"
    using assms by (auto simp: Evaluate_def bind_outcome_Ret_iff)
  have "err = None" "res = Some resp"
    using assms ev evaluateRules_error_no_response [of fuel A p r res]
    by (cases err; auto simp: Evaluate_evaluateRules split: if_splits)+
  with ev have "evaluateRules fuel A p r = Ret (Some resp, None)" by simp
  then have "policy_match A p r = Ret (True, None)"
    and "rules_loop A (rules p) (rule_data fuel A p r) = (Some resp, None)"
    by (auto elim: evaluateRules_cases)
  then show ?thesis
    by (simp add: Evaluate_def evaluateRules_def policy_match_def setupVariables_def rule_data_def)
qed

theorem exceptions_only_exempt_witness:
  "Evaluate 2 sample_api (sample_policy\<lparr>exceptions := []\<rparr>) ''/admin'' = Ret (Some ''denied'', None)"
proof -
  have "Evaluate 2 sample_api sample_policy ''/admin'' = Ret (Some ''denied'', None)"
    by (simp add: sample_defs eval_defs eval_nat_numeral)
  then show ?thesis by (rule exceptions_only_exempt)
qed

text \<open>
  C7. Variables may read the variables declared before them; their lazy evaluation then ends at a
  depth of at most the number of variables: with that fuel every variable is the value of its
  expression over all the variables, and more fuel changes no evaluation.
\<close>

theorem lazy_variables_terminate:
  assumes "vars_ordered (variables p) order" and "length order \<le> fuel"
  shows "Evaluate fuel A p r = Evaluate (length order) A p r
    \<and> (\<forall>k P. variables p k = Some P \<longrightarrow>
         lazy_vars fuel A (variables p) r k =
           Some (variable_callback A P
             \<lparr>act_object = r, act_variables = Some (lazy_vars fuel A (variables p) r)\<rparr>))"
  using Evaluate_fuel_irrelevant [OF assms] lazy_vars_fixpoint [OF assms] by blast

theorem lazy_variables_terminate_witness:
  "Evaluate 7 sample_api sample_policy ''/admin'' = Evaluate 2 sample_api sample_policy ''/admin''
   \<and> lazy_vars 2 sample_api (variables sample_policy) ''/admin'' ''blocked'' = Some (Some (SBool True))"
  using lazy_variables_terminate [OF vars_ordered_sample, of 7 sample_api "''/admin''"]
  by (simp add: sample_defs variable_callback_def eval_nat_numeral)

end
