(* ===== verification/Env.thy ===== *)
theory Env
  imports Cel
begin

text \<open>
  The CEL environments (\<open>pkg/cel/env.go\<close>, \<open>apis/constants.go\<close>): which libraries and
  options are registered, in which order, and for which evaluation mode. Building an
  environment from options is the CEL library's work: it is the parameter \<open>cel_lib\<close>, over
  an abstract type \<open>'e\<close> of environments.
\<close>

section \<open>Evaluation modes\<close>

type_synonym evaluation_mode = string

definition EvaluationModeEnvoy :: evaluation_mode where
  "EvaluationModeEnvoy = ''Envoy''"

definition EvaluationModeHTTP :: evaluation_mode where
  "EvaluationModeHTTP = ''HTTP''"

lemma evaluation_modes_differ [simp]:
  "EvaluationModeEnvoy \<noteq> EvaluationModeHTTP" "EvaluationModeHTTP \<noteq> EvaluationModeEnvoy"
  by (simp_all add: EvaluationModeEnvoy_def EvaluationModeHTTP_def)

section \<open>Environment options\<close>

datatype cel_library =
    ExtBindings | ExtEncoders | ExtLists | ExtMath | ExtProtos | ExtSets | ExtStrings
  | K8sCIDR | K8sFormat | K8sIP | K8sLists | K8sRegex | K8sURLs | K8sQuantity | K8sSemver
  | LibAuthzEnvoy | LibAuthzHTTP | LibHttp | LibJwt | LibJson | LibMcp
  | LibResource | LibImage | LibImageData | LibHttpServer

datatype env_option =
    HomogeneousAggregateLiterals
  | EagerlyValidateDeclarations bool
  | DefaultUTCTimeZone bool
  | CrossTypeNumericComparisons bool
  | OptionalTypes
  | Library cel_library
  | Variable string cel_type
  | CustomTypeProvider

text \<open>
  \<open>cel.NewEnv\<close>, \<open>Env.Extend\<close> and the image data loader of \<open>variables.ImageData(nil)\<close>
  (\<open>None\<close> when it is created, its error otherwise).
\<close>

record 'e cel_lib =
  cel_NewEnv :: "env_option list \<Rightarrow> go_error + 'e"
  cel_Extend :: "'e \<Rightarrow> env_option list \<Rightarrow> go_error + 'e"
  image_loader_error :: "go_error option"

definition base_options :: "env_option list" where
  "base_options =
     [HomogeneousAggregateLiterals, EagerlyValidateDeclarations True, DefaultUTCTimeZone True,
      CrossTypeNumericComparisons True, OptionalTypes,
      Library ExtBindings, Library ExtEncoders, Library ExtLists, Library ExtMath,
      Library ExtProtos, Library ExtSets, Library ExtStrings,
      Library K8sCIDR, Library K8sFormat, Library K8sIP, Library K8sLists, Library K8sRegex,
      Library K8sURLs, Library K8sQuantity, Library K8sSemver]"

definition NewBaseEnv :: "'e cel_lib \<Rightarrow> go_error + 'e" where
  "NewBaseEnv L = cel_NewEnv L base_options"

definition kyverno_libs :: "env_option list" where
  "kyverno_libs = [Library LibHttp, Library LibJwt, Library LibJson, Library LibMcp,
     Library LibResource, Library LibImage, Library LibImageData]"

definition invalid_mode_error :: go_error where
  "invalid_mode_error = Errorf ''invalid evaluation mode passed for env builder''"

definition NewEnv :: "'e cel_lib \<Rightarrow> evaluation_mode \<Rightarrow> go_error + 'e" where
  "NewEnv L evalMode =
     (case NewBaseEnv L of
        Inl err \<Rightarrow> Inl err
      | Inr base \<Rightarrow>
          (case (if evalMode = EvaluationModeEnvoy then cel_Extend L base [Library LibAuthzEnvoy]
                 else if evalMode = EvaluationModeHTTP then cel_Extend L base [Library LibAuthzHTTP]
                 else Inl invalid_mode_error) of
             Inl err \<Rightarrow> Inl err
           | Inr base' \<Rightarrow>
               (case image_loader_error L of
                  Some err \<Rightarrow> Inl err
                | None \<Rightarrow> cel_Extend L base' kyverno_libs)))"

text \<open>A CEL library whose environments are the lists of the options they were built from.\<close>

definition list_cel_lib :: "env_option list cel_lib" where
  "list_cel_lib = \<lparr>cel_NewEnv = Inr, cel_Extend = (\<lambda>e opts. Inr (e @ opts)), image_loader_error = None\<rparr>"

lemma NewEnv_invalid_mode:
  "evalMode \<noteq> EvaluationModeEnvoy \<Longrightarrow> evalMode \<noteq> EvaluationModeHTTP \<Longrightarrow> \<exists>err. NewEnv L evalMode = Inl err"
  by (auto simp: NewEnv_def split: sum.split)

lemma NewEnv_valid_mode:
  "NewEnv L evalMode = Inr e \<Longrightarrow> evalMode = EvaluationModeEnvoy \<or> evalMode = EvaluationModeHTTP"
  by (auto simp: NewEnv_def split: sum.splits if_splits)

text \<open>Exactly one of the two authorization libraries is in an environment, the one of its mode.\<close>

lemma NewEnv_list_options:
  "NewEnv list_cel_lib EvaluationModeEnvoy = Inr (base_options @ Library LibAuthzEnvoy # kyverno_libs)"
  "NewEnv list_cel_lib EvaluationModeHTTP = Inr (base_options @ Library LibAuthzHTTP # kyverno_libs)"
  by (simp_all add: NewEnv_def NewBaseEnv_def list_cel_lib_def)

end
