(* ===== verification/Compiler.thy ===== *)
theory Compiler
  imports Policy Env
begin

text \<open>
  The policy compiler (\<open>pkg/engine/compiler/compiler.go\<close>): from a \<open>ValidatingPolicy\<close> and
  its exceptions to a compiled policy, or a list of field errors. Checking an expression,
  its output type and planning a program are the CEL library's work and fields of
  \<open>cel_compiler\<close>; what is checked, in which order, against which declarations and with
  which error is the code's.
\<close>

section \<open>The policies of the API\<close>

record named_expression =
  ne_name :: string
  ne_expression :: string

record ValidatingPolicy =
  vp_name :: string
  vp_resourceVersion :: string
  vp_evaluationMode :: evaluation_mode
  vp_failurePolicy :: "failure_policy option"
  vp_matchConditions :: "named_expression list"
  vp_variables :: "named_expression list"
  vp_validations :: "string list"

record PolicyException =
  pe_name :: string
  pe_evaluationMode :: evaluation_mode
  pe_policyRefs :: "string list"
  pe_matchConditions :: "named_expression list"

section \<open>Field errors\<close>

datatype path_elem = Child string | Index nat

type_synonym field_path = "path_elem list"

datatype field_error =
    InternalError go_error
  | Invalid field_path string string

section \<open>The compiler's interface to CEL\<close>

text \<open>
  \<open>env_Compile e p s\<close> checks the expression \<open>s\<close> in the environment \<open>e\<close>, where
  \<open>p\<close> is the current state of the variables provider the environment was extended with;
  \<open>OutputType\<close> is the type of a checked expression; \<open>env_Program\<close> plans it. The three
  types are those of the context variables \<open>http\<close>, \<open>image\<close> and \<open>resource\<close>.
\<close>

record ('e, 'ast, 'in, 'v) cel_compiler = "'e cel_lib" +
  env_provider :: "'e \<Rightarrow> 'v inner_provider"
  env_Compile :: "'e \<Rightarrow> 'v variablesProvider \<Rightarrow> string \<Rightarrow> go_error + 'ast"
  OutputType :: "'ast \<Rightarrow> cel_type"
  env_Program :: "'e \<Rightarrow> 'ast \<Rightarrow> go_error + ('in, 'v) program"
  http_ContextType :: cel_type
  imagedata_ContextType :: cel_type
  resource_ContextType :: cel_type

definition HttpKey :: string where "HttpKey = ''http''"
definition ImageDataKey :: string where "ImageDataKey = ''image''"
definition ObjectKey :: string where "ObjectKey = ''object''"
definition VariablesKey :: string where "VariablesKey = ''variables''"
definition ResourceKey :: string where "ResourceKey = ''resource''"

section \<open>One expression\<close>

definition expression_error :: "field_path \<Rightarrow> string \<Rightarrow> go_error \<Rightarrow> field_error list" where
  "expression_error path expr err = [Invalid path expr (error_text err)]"

text \<open>A match condition of the policy: must check, be of type bool, and be planned.\<close>

definition compile_matchCondition :: "('e, 'ast, 'in, 'v) cel_compiler \<Rightarrow> 'e \<Rightarrow> 'v variablesProvider \<Rightarrow> nat
    \<Rightarrow> string \<Rightarrow> field_error list + ('in, 'v) program" where
  "compile_matchCondition C env pr i expr =
     (let path = [Child ''spec'', Child ''matchConditions'', Index i, Child ''expression''] in
      case env_Compile C env pr expr of
        Inl err \<Rightarrow> Inl (expression_error path expr err)
      | Inr ast \<Rightarrow>
          if OutputType C ast \<noteq> BoolType
          then Inl [Invalid path expr ''matchCondition output is expected to be of type bool'']
          else (case env_Program C env ast of
                  Inl err \<Rightarrow> Inl (expression_error path expr err)
                | Inr prog \<Rightarrow> Inr prog))"

fun compile_matchConditions :: "('e, 'ast, 'in, 'v) cel_compiler \<Rightarrow> 'e \<Rightarrow> 'v variablesProvider \<Rightarrow> nat
    \<Rightarrow> named_expression list \<Rightarrow> field_error list + ('in, 'v) program list" where
  "compile_matchConditions C env pr i [] = Inr []"
| "compile_matchConditions C env pr i (mc # mcs) =
     (case compile_matchCondition C env pr i (ne_expression mc) of
        Inl errs \<Rightarrow> Inl errs
      | Inr prog \<Rightarrow>
          (case compile_matchConditions C env pr (Suc i) mcs of
             Inl errs \<Rightarrow> Inl errs
           | Inr progs \<Rightarrow> Inr (prog # progs)))"

text \<open>
  Variables: each is checked against the variables before it, registered under its type, then
  planned and stored under its name.
\<close>

fun compile_variables :: "('e, 'ast, 'in, 'v) cel_compiler \<Rightarrow> 'e \<Rightarrow> 'v variablesProvider
    \<Rightarrow> (string \<rightharpoonup> ('in, 'v) program) \<Rightarrow> nat \<Rightarrow> named_expression list
    \<Rightarrow> field_error list + ('v variablesProvider \<times> (string \<rightharpoonup> ('in, 'v) program))" where
  "compile_variables C env pr vars i [] = Inr (pr, vars)"
| "compile_variables C env pr vars i (v # vs) =
     (let path = [Child ''spec'', Child ''variables'', Index i, Child ''expression''] in
      case env_Compile C env pr (ne_expression v) of
        Inl err \<Rightarrow> Inl (expression_error path (ne_expression v) err)
      | Inr ast \<Rightarrow>
          (let pr' = RegisterField pr (ne_name v) (OutputType C ast) in
           case env_Program C env ast of
             Inl err \<Rightarrow> Inl (expression_error path (ne_expression v) err)
           | Inr prog \<Rightarrow> compile_variables C env pr' (vars(ne_name v \<mapsto> prog)) (Suc i) vs))"

definition response_type_message :: "cel_type \<Rightarrow> string" where
  "response_type_message t = ''rule response output is expected to be of type '' @
     (case t of ObjectType n \<Rightarrow> n | _ \<Rightarrow> [])"

text \<open>A rule: must check, be of the response type of the mode or null, and be planned.\<close>

definition compileAuthorization :: "('e, 'ast, 'in, 'v) cel_compiler \<Rightarrow> field_path \<Rightarrow> evaluation_mode
    \<Rightarrow> string \<Rightarrow> 'e \<Rightarrow> 'v variablesProvider \<Rightarrow> field_error list + ('in, 'v) program" where
  "compileAuthorization C path0 evalMode expr env pr =
     (let path = path0 @ [Child ''expression''] in
      case env_Compile C env pr expr of
        Inl err \<Rightarrow> Inl (expression_error path expr err)
      | Inr ast \<Rightarrow>
          if evalMode = EvaluationModeEnvoy \<and> OutputType C ast \<noteq> envoy_CheckResponse \<and> OutputType C ast \<noteq> NullType
          then Inl [Invalid path expr (response_type_message envoy_CheckResponse)]
          else if evalMode = EvaluationModeHTTP \<and> OutputType C ast \<noteq> http_ResponseType \<and> OutputType C ast \<noteq> NullType
          then Inl [Invalid path expr (response_type_message http_ResponseType)]
          else (case env_Program C env ast of
                  Inl err \<Rightarrow> Inl (expression_error path expr err)
                | Inr prog \<Rightarrow> Inr prog))"

fun compile_rules :: "('e, 'ast, 'in, 'v) cel_compiler \<Rightarrow> 'e \<Rightarrow> 'v variablesProvider \<Rightarrow> evaluation_mode \<Rightarrow> nat
    \<Rightarrow> string list \<Rightarrow> field_error list + ('in, 'v) program list" where
  "compile_rules C env pr evalMode i [] = Inr []"
| "compile_rules C env pr evalMode i (rule # rs) =
     (case compileAuthorization C [Child ''spec'', Child ''validations'', Index i] evalMode rule env pr of
        Inl errs \<Rightarrow> Inl errs
      | Inr prog \<Rightarrow>
          (case compile_rules C env pr evalMode (Suc i) rs of
             Inl errs \<Rightarrow> Inl errs
           | Inr progs \<Rightarrow> Inr (prog # progs)))"

section \<open>Exceptions\<close>

definition exception_type_message :: string where
  "exception_type_message = ''output is expected to be of type bool''"

fun compile_exception_conds :: "('e, 'ast, 'in, 'v) cel_compiler \<Rightarrow> 'e \<Rightarrow> 'v variablesProvider
    \<Rightarrow> named_expression list \<Rightarrow> field_error list + ('in, 'v) program list" where
  "compile_exception_conds C env pr [] = Inr []"
| "compile_exception_conds C env pr (mc # mcs) =
     (let path = [Child ''spec'', Child ''matchConditions'']; expr = ne_expression mc in
      case env_Compile C env pr expr of
        Inl err \<Rightarrow> Inl (expression_error path expr err)
      | Inr ast \<Rightarrow>
          if OutputType C ast \<noteq> BoolType then Inl [Invalid path expr exception_type_message]
          else (case env_Program C env ast of
                  Inl err \<Rightarrow> Inl (expression_error path expr err)
                | Inr prog \<Rightarrow>
                    (case compile_exception_conds C env pr mcs of
                       Inl errs \<Rightarrow> Inl errs
                     | Inr progs \<Rightarrow> Inr (prog # progs))))"

text \<open>\<open>compileException\<close> returns a pointer, nil with the errors.\<close>

definition compileException :: "('e, 'ast, 'in, 'v) cel_compiler \<Rightarrow> PolicyException \<Rightarrow> 'e \<Rightarrow> 'v variablesProvider
    \<Rightarrow> ('in, 'v) compiledException option \<times> field_error list" where
  "compileException C ex env pr =
     (case compile_exception_conds C env pr (pe_matchConditions ex) of
        Inl errs \<Rightarrow> (None, errs)
      | Inr progs \<Rightarrow> (Some \<lparr>ex_matchConditions = progs\<rparr>, []))"

text \<open>
  The loop over the exceptions. It tests \<open>err\<close>, the variable of the enclosing function that
  holds the error of the last environment call, not the \<open>errs\<close> of the exception it has just
  compiled; the result is dereferenced otherwise.
\<close>

fun compile_exceptions :: "('e, 'ast, 'in, 'v) cel_compiler \<Rightarrow> 'e \<Rightarrow> 'v variablesProvider \<Rightarrow> go_error option
    \<Rightarrow> PolicyException list \<Rightarrow> (field_error list + ('in, 'v) compiledException list) outcome" where
  "compile_exceptions C env pr err [] = Ret (Inr [])"
| "compile_exceptions C env pr err (ex # exs) =
     (case compileException C ex env pr of
        (cex, errs) \<Rightarrow>
          if err \<noteq> None then Ret (Inl errs)
          else (case cex of
                  None \<Rightarrow> Panic nil_deref
                | Some c \<Rightarrow>
                    bind_outcome (compile_exceptions C env pr err exs) (\<lambda>res.
                      case res of Inl errs' \<Rightarrow> Ret (Inl errs') | Inr cs \<Rightarrow> Ret (Inr (c # cs)))))"

section \<open>The policy\<close>

definition invalid_policy_mode :: "evaluation_mode \<Rightarrow> go_error" where
  "invalid_policy_mode m = Errorf (''invalid policy evaluation mode: '' @ m)"

definition policy_env_options :: "('e, 'ast, 'in, 'v) cel_compiler \<Rightarrow> env_option \<Rightarrow> env_option list" where
  "policy_env_options C objectKey =
     [Variable HttpKey (http_ContextType C), Variable ImageDataKey (imagedata_ContextType C),
      objectKey, Variable VariablesKey VariablesType,
      Variable ResourceKey (resource_ContextType C), CustomTypeProvider]"

text \<open>The environment of a policy and the empty variables provider over its base environment.\<close>

definition policy_env :: "('e, 'ast, 'in, 'v) cel_compiler \<Rightarrow> evaluation_mode
    \<Rightarrow> field_error list + ('e \<times> 'v variablesProvider)" where
  "policy_env C evalMode =
     (case NewEnv (cel_lib.truncate C) evalMode of
        Inl err \<Rightarrow> Inl [InternalError err]
      | Inr base \<Rightarrow>
          (case (if evalMode = EvaluationModeEnvoy then Some (Variable ObjectKey envoy_CheckRequest)
                 else if evalMode = EvaluationModeHTTP then Some (Variable ObjectKey http_RequestType)
                 else None) of
             None \<Rightarrow> Inl [InternalError (invalid_policy_mode evalMode)]
           | Some objectKey \<Rightarrow>
               (let provider = NewVariablesProvider (env_provider C base) in
                case cel_Extend C base (policy_env_options C objectKey) of
                  Inl err \<Rightarrow> Inl [InternalError err]
                | Inr env \<Rightarrow> Inr (env, provider))))"

definition compile :: "('e, 'ast, 'in, 'v) cel_compiler \<Rightarrow> ValidatingPolicy \<Rightarrow> PolicyException list
    \<Rightarrow> (field_error list + ('in, 'v) compiledPolicy) outcome" where
  "compile C policy exs =
     (case policy_env C (vp_evaluationMode policy) of
        Inl errs \<Rightarrow> Ret (Inl errs)
      | Inr (env, provider) \<Rightarrow>
     (case compile_matchConditions C env provider 0 (vp_matchConditions policy) of
        Inl errs \<Rightarrow> Ret (Inl errs)
      | Inr mcs \<Rightarrow>
     (case compile_variables C env provider Map.empty 0 (vp_variables policy) of
        Inl errs \<Rightarrow> Ret (Inl errs)
      | Inr (provider', vars) \<Rightarrow>
     (case compile_rules C env provider' (vp_evaluationMode policy) 0 (vp_validations policy) of
        Inl errs \<Rightarrow> Ret (Inl errs)
      | Inr rs \<Rightarrow>
          bind_outcome (compile_exceptions C env provider' None exs) (\<lambda>res.
            case res of
              Inl errs \<Rightarrow> Ret (Inl errs)
            | Inr cexs \<Rightarrow>
                Ret (Inr \<lparr>cp_name = vp_name policy, failurePolicy = [], matchConditions = mcs,
                  variables = vars, rules = rs, exceptions = cexs\<rparr>))))))"

definition Compile :: "('e, 'ast, 'in, 'v) cel_compiler \<Rightarrow> ValidatingPolicy \<Rightarrow> PolicyException list
    \<Rightarrow> (('in, 'v) compiledPolicy \<times> field_error list) outcome" where
  "Compile C policy exs =
     bind_outcome (compile C policy exs) (\<lambda>res.
       case res of
         Inl errs \<Rightarrow> Ret (zero_policy, errs)
       | Inr cp \<Rightarrow>
           Ret (cp\<lparr>failurePolicy :=
             (case vp_failurePolicy policy of None \<Rightarrow> Fail | Some fp \<Rightarrow> fp)\<rparr>, []))"

section \<open>What a successful compilation has checked\<close>

definition cond_checks :: "('e, 'ast, 'in, 'v) cel_compiler \<Rightarrow> 'e \<Rightarrow> 'v variablesProvider \<Rightarrow> string
    \<Rightarrow> ('in, 'v) program \<Rightarrow> bool" where
  "cond_checks C env pr expr prog \<longleftrightarrow>
     (\<exists>ast. env_Compile C env pr expr = Inr ast \<and> OutputType C ast = BoolType \<and> env_Program C env ast = Inr prog)"

definition response_type_of :: "evaluation_mode \<Rightarrow> cel_type" where
  "response_type_of m = (if m = EvaluationModeEnvoy then envoy_CheckResponse else http_ResponseType)"

definition rule_checks :: "('e, 'ast, 'in, 'v) cel_compiler \<Rightarrow> 'e \<Rightarrow> 'v variablesProvider \<Rightarrow> evaluation_mode
    \<Rightarrow> string \<Rightarrow> ('in, 'v) program \<Rightarrow> bool" where
  "rule_checks C env pr m expr prog \<longleftrightarrow>
     (\<exists>ast. env_Compile C env pr expr = Inr ast \<and> OutputType C ast \<in> {response_type_of m, NullType}
        \<and> env_Program C env ast = Inr prog)"

definition exception_checks :: "('e, 'ast, 'in, 'v) cel_compiler \<Rightarrow> 'e \<Rightarrow> 'v variablesProvider
    \<Rightarrow> PolicyException \<Rightarrow> ('in, 'v) compiledException \<Rightarrow> bool" where
  "exception_checks C env pr ex cex \<longleftrightarrow>
     list_all2 (\<lambda>mc prog. cond_checks C env pr (ne_expression mc) prog)
       (pe_matchConditions ex) (ex_matchConditions cex)"

lemma compile_matchCondition_Inr:
  "compile_matchCondition C env pr i expr = Inr prog \<longleftrightarrow> cond_checks C env pr expr prog"
  by (auto simp: compile_matchCondition_def cond_checks_def Let_def split: sum.splits)

lemma compile_matchConditions_Inr:
  "compile_matchConditions C env pr i mcs = Inr progs \<longleftrightarrow>
   list_all2 (\<lambda>mc prog. cond_checks C env pr (ne_expression mc) prog) mcs progs"
proof (induction mcs arbitrary: i progs)
  case Nil
  then show ?case by auto
next
  case (Cons mc mcs)
  have "compile_matchConditions C env pr i (mc # mcs) = Inr progs \<longleftrightarrow>
      (\<exists>a b. progs = a # b \<and> compile_matchCondition C env pr i (ne_expression mc) = Inr a
        \<and> compile_matchConditions C env pr (Suc i) mcs = Inr b)"
    by (auto split: sum.splits)
  then show ?case by (auto simp: list_all2_Cons1 Cons.IH compile_matchCondition_Inr)
qed

lemma compileAuthorization_Inr:
  assumes "m = EvaluationModeEnvoy \<or> m = EvaluationModeHTTP"
  shows "compileAuthorization C path m expr env pr = Inr prog \<longleftrightarrow> rule_checks C env pr m expr prog"
  using assms
  by (auto simp: compileAuthorization_def rule_checks_def response_type_of_def Let_def split: sum.splits)

lemma compile_rules_Inr:
  assumes "m = EvaluationModeEnvoy \<or> m = EvaluationModeHTTP"
  shows "compile_rules C env pr m i rs = Inr progs \<longleftrightarrow> list_all2 (rule_checks C env pr m) rs progs"
proof (induction rs arbitrary: i progs)
  case Nil
  then show ?case by auto
next
  case (Cons rule rs)
  have "compile_rules C env pr m i (rule # rs) = Inr progs \<longleftrightarrow>
      (\<exists>a b. progs = a # b
        \<and> compileAuthorization C [Child ''spec'', Child ''validations'', Index i] m rule env pr = Inr a
        \<and> compile_rules C env pr m (Suc i) rs = Inr b)"
    by (auto split: sum.splits)
  then show ?case by (auto simp: list_all2_Cons1 Cons.IH compileAuthorization_Inr [OF assms])
qed

lemma compile_exception_conds_Inr:
  "compile_exception_conds C env pr mcs = Inr progs \<longleftrightarrow>
   list_all2 (\<lambda>mc prog. cond_checks C env pr (ne_expression mc) prog) mcs progs"
proof (induction mcs arbitrary: progs)
  case Nil
  then show ?case by auto
next
  case (Cons mc mcs)
  have "compile_exception_conds C env pr (mc # mcs) = Inr progs \<longleftrightarrow>
      (\<exists>a b. progs = a # b \<and> cond_checks C env pr (ne_expression mc) a
        \<and> compile_exception_conds C env pr mcs = Inr b)"
    by (auto simp: cond_checks_def Let_def split: sum.splits)
  then show ?case by (auto simp: list_all2_Cons1 Cons.IH)
qed

lemma compile_exceptions_cases:
  "compile_exceptions C env pr None exs =
     (if \<forall>ex \<in> set exs. \<exists>progs. compile_exception_conds C env pr (pe_matchConditions ex) = Inr progs
      then Ret (Inr (map (\<lambda>ex. the (fst (compileException C ex env pr))) exs))
      else Panic nil_deref)"
proof (induction exs)
  case Nil
  then show ?case by simp
next
  case (Cons ex exs)
  then show ?case
    by (cases "compile_exception_conds C env pr (pe_matchConditions ex)")
       (auto simp: compileException_def)
qed

lemma compile_exceptions_Inr:
  assumes "compile_exceptions C env pr None exs = Ret (Inr cexs)"
  shows "list_all2 (exception_checks C env pr) exs cexs"
proof -
  have all: "\<forall>ex \<in> set exs. \<exists>progs. compile_exception_conds C env pr (pe_matchConditions ex) = Inr progs"
    and cexs: "cexs = map (\<lambda>ex. the (fst (compileException C ex env pr))) exs"
    using assms by (auto simp: compile_exceptions_cases split: if_splits)
  have "exception_checks C env pr ex (the (fst (compileException C ex env pr)))" if "ex \<in> set exs" for ex
  proof -
    from all that obtain progs where "compile_exception_conds C env pr (pe_matchConditions ex) = Inr progs"
      by blast
    then show ?thesis
      by (simp add: compileException_def exception_checks_def flip: compile_exception_conds_Inr)
  qed
  then show ?thesis by (simp add: cexs list_all2_conv_all_nth)
qed

text \<open>The variables: every declared name is bound, and the provider and the map agree on the names.\<close>

lemma compile_variables_dom:
  "compile_variables C env pr vars i vs = Inr (pr', vars') \<Longrightarrow>
   dom vars' = dom vars \<union> ne_name ` set vs \<and> dom (vfields pr') = dom (vfields pr) \<union> ne_name ` set vs"
proof (induction vs arbitrary: pr vars i)
  case Nil
  then show ?case by simp
next
  case (Cons v vs)
  then obtain ast prog where "env_Compile C env pr (ne_expression v) = Inr ast" "env_Program C env ast = Inr prog"
    and rest: "compile_variables C env (RegisterField pr (ne_name v) (OutputType C ast))
      (vars(ne_name v \<mapsto> prog)) (Suc i) vs = Inr (pr', vars')"
    by (auto simp: Let_def split: sum.splits)
  from Cons.IH [OF rest] show ?case by auto
qed

text \<open>
  A planned program depends on the variables only through the names that were declared when
  its expression was checked: what type checking against the provider guarantees of expressions
  that select variables by name. An expression that goes through \<open>dyn(variables)\<close> is not checked and
  may read others; the few lemmas below that need the law say nothing of policies with such
  expressions.
\<close>

definition checked_programs_read_declared :: "('e, 'ast, 'in, 'v) cel_compiler \<Rightarrow> bool" where
  "checked_programs_read_declared C \<longleftrightarrow>
     (\<forall>env pr expr ast P. env_Compile C env pr expr = Inr ast \<and> env_Program C env ast = Inr P \<longrightarrow>
        reads_only P (dom (vfields pr)))"

lemma vars_ordered_snoc:
  assumes "vars_ordered vars order" and "n \<notin> set order" and "reads_only P (set order)"
  shows "vars_ordered (vars(n \<mapsto> P)) (order @ [n])"
  using assms by (auto simp: vars_ordered_def nth_append less_Suc_eq dest: nth_mem)

lemma compile_variables_ordered:
  assumes law: "checked_programs_read_declared C"
  shows "compile_variables C env pr vars i vs = Inr (pr', vars') \<Longrightarrow>
    vars_ordered vars order \<Longrightarrow> dom (vfields pr) = set order \<Longrightarrow>
    distinct (order @ map ne_name vs) \<Longrightarrow> vars_ordered vars' (order @ map ne_name vs)"
proof (induction vs arbitrary: pr vars i order)
  case Nil
  then show ?case by simp
next
  case (Cons v vs)
  then obtain ast prog where ast: "env_Compile C env pr (ne_expression v) = Inr ast" "env_Program C env ast = Inr prog"
    and rest: "compile_variables C env (RegisterField pr (ne_name v) (OutputType C ast))
      (vars(ne_name v \<mapsto> prog)) (Suc i) vs = Inr (pr', vars')"
    by (auto simp: Let_def split: sum.splits)
  from law ast have "reads_only prog (dom (vfields pr))"
    unfolding checked_programs_read_declared_def by blast
  then have o: "vars_ordered (vars(ne_name v \<mapsto> prog)) (order @ [ne_name v])"
    using Cons.prems by (intro vars_ordered_snoc) auto
  have d: "dom (vfields (RegisterField pr (ne_name v) (OutputType C ast))) = set (order @ [ne_name v])"
    using Cons.prems(3) by auto
  from Cons.IH [OF rest o d] Cons.prems(4) show ?case by simp
qed

section \<open>How a compilation ends\<close>

lemma compile_matchCondition_one_error:
  "compile_matchCondition C env pr i expr = Inl errs \<Longrightarrow>
   \<exists>msg. errs = [Invalid [Child ''spec'', Child ''matchConditions'', Index i, Child ''expression''] expr msg]"
  by (auto simp: compile_matchCondition_def expression_error_def Let_def split: sum.splits if_splits)

lemma compile_matchConditions_one_error:
  "compile_matchConditions C env pr i mcs = Inl errs \<Longrightarrow>
   \<exists>j < length mcs. \<exists>msg. errs =
     [Invalid [Child ''spec'', Child ''matchConditions'', Index (i + j), Child ''expression''] (ne_expression (mcs ! j)) msg]
     \<and> (\<forall>k < j. \<exists>prog. cond_checks C env pr (ne_expression (mcs ! k)) prog)
     \<and> (\<nexists>prog. cond_checks C env pr (ne_expression (mcs ! j)) prog)"
proof (induction mcs arbitrary: i)
  case Nil
  then show ?case by simp
next
  case (Cons mc mcs)
  show ?case
  proof (cases "compile_matchCondition C env pr i (ne_expression mc)")
    case (Inl e)
    then have "\<nexists>prog. cond_checks C env pr (ne_expression mc) prog"
      by (simp flip: compile_matchCondition_Inr [of C env pr i])
    with Inl Cons.prems compile_matchCondition_one_error [OF Inl] show ?thesis
      by (intro exI [of _ 0]) auto
  next
    case (Inr prog)
    with Cons.prems obtain j msg where j: "j < length mcs"
      "errs = [Invalid [Child ''spec'', Child ''matchConditions'', Index (Suc i + j), Child ''expression''] (ne_expression (mcs ! j)) msg]"
      "\<forall>k < j. \<exists>prog. cond_checks C env pr (ne_expression (mcs ! k)) prog"
      "\<nexists>prog. cond_checks C env pr (ne_expression (mcs ! j)) prog"
      using Cons.IH [of "Suc i"] by (auto split: sum.splits)
    from Inr have "cond_checks C env pr (ne_expression mc) prog"
      by (simp add: compile_matchCondition_Inr)
    with j show ?thesis
      by (intro exI [of _ "Suc j"]) (auto simp: nth_Cons' less_Suc_eq_0_disj)
  qed
qed

lemma compile_variables_one_error:
  "compile_variables C env pr vars i vs = Inl errs \<Longrightarrow> \<exists>path expr msg. errs = [Invalid path expr msg]"
  by (induction vs arbitrary: pr vars i)
     (auto simp: expression_error_def Let_def split: sum.splits)

lemma compile_rules_one_error:
  "compile_rules C env pr m i rs = Inl errs \<Longrightarrow> \<exists>path expr msg. errs = [Invalid path expr msg]"
  by (induction rs arbitrary: i)
     (auto simp: compileAuthorization_def expression_error_def Let_def split: sum.splits if_splits)

lemma policy_env_one_error: "policy_env C m = Inl errs \<Longrightarrow> \<exists>e. errs = [InternalError e]"
  by (auto simp: policy_env_def Let_def split: sum.splits option.splits)

lemma policy_env_mode: "policy_env C m = Inr ep \<Longrightarrow> m = EvaluationModeEnvoy \<or> m = EvaluationModeHTTP"
  by (auto simp: policy_env_def Let_def split: sum.splits option.splits if_splits)

lemma policy_env_provider: "policy_env C m = Inr (env, pr) \<Longrightarrow> vfields pr = Map.empty"
  by (auto simp: policy_env_def NewVariablesProvider_def Let_def split: sum.splits option.splits if_splits)

text \<open>The steps before the exceptions, as one result.\<close>

definition compile_front :: "('e, 'ast, 'in, 'v) cel_compiler \<Rightarrow> ValidatingPolicy \<Rightarrow> field_error list +
    ('e \<times> 'v variablesProvider \<times> 'v variablesProvider \<times> ('in, 'v) program list \<times>
     (string \<rightharpoonup> ('in, 'v) program) \<times> ('in, 'v) program list)" where
  "compile_front C policy =
     (case policy_env C (vp_evaluationMode policy) of
        Inl errs \<Rightarrow> Inl errs
      | Inr (env, pr) \<Rightarrow>
     (case compile_matchConditions C env pr 0 (vp_matchConditions policy) of
        Inl errs \<Rightarrow> Inl errs
      | Inr mcs \<Rightarrow>
     (case compile_variables C env pr Map.empty 0 (vp_variables policy) of
        Inl errs \<Rightarrow> Inl errs
      | Inr (pr', vars) \<Rightarrow>
     (case compile_rules C env pr' (vp_evaluationMode policy) 0 (vp_validations policy) of
        Inl errs \<Rightarrow> Inl errs
      | Inr rs \<Rightarrow> Inr (env, pr, pr', mcs, vars, rs)))))"

lemma compile_front_one_error: "compile_front C policy = Inl errs \<Longrightarrow> \<exists>err. errs = [err]"
  by (auto simp: compile_front_def split: sum.splits dest!: policy_env_one_error
      compile_matchConditions_one_error compile_variables_one_error compile_rules_one_error)

lemma compile_by_front:
  "compile C policy exs =
     (case compile_front C policy of
        Inl errs \<Rightarrow> Ret (Inl errs)
      | Inr (env, pr, pr', mcs, vars, rs) \<Rightarrow>
          if \<forall>ex \<in> set exs. \<exists>progs. compile_exception_conds C env pr' (pe_matchConditions ex) = Inr progs
          then Ret (Inr \<lparr>cp_name = vp_name policy, failurePolicy = [], matchConditions = mcs,
            variables = vars, rules = rs,
            exceptions = map (\<lambda>ex. the (fst (compileException C ex env pr'))) exs\<rparr>)
          else Panic nil_deref)"
  by (simp add: compile_def compile_front_def compile_exceptions_cases split: sum.split prod.split)

lemma Compile_by_front:
  "Compile C policy exs =
     (case compile_front C policy of
        Inl errs \<Rightarrow> Ret (zero_policy, errs)
      | Inr (env, pr, pr', mcs, vars, rs) \<Rightarrow>
          if \<forall>ex \<in> set exs. \<exists>progs. compile_exception_conds C env pr' (pe_matchConditions ex) = Inr progs
          then Ret (\<lparr>cp_name = vp_name policy,
            failurePolicy = (case vp_failurePolicy policy of None \<Rightarrow> Fail | Some fp \<Rightarrow> fp),
            matchConditions = mcs, variables = vars, rules = rs,
            exceptions = map (\<lambda>ex. the (fst (compileException C ex env pr'))) exs\<rparr>, [])
          else Panic nil_deref)"
  by (auto simp: Compile_def compile_by_front split: sum.split prod.split)

lemma Compile_ok_front:
  assumes "Compile C policy exs = Ret (cp, [])"
  obtains env pr pr' mcs vars rs where "compile_front C policy = Inr (env, pr, pr', mcs, vars, rs)"
    "\<forall>ex \<in> set exs. \<exists>progs. compile_exception_conds C env pr' (pe_matchConditions ex) = Inr progs"
    "cp = \<lparr>cp_name = vp_name policy,
       failurePolicy = (case vp_failurePolicy policy of None \<Rightarrow> Fail | Some fp \<Rightarrow> fp),
       matchConditions = mcs, variables = vars, rules = rs,
       exceptions = map (\<lambda>ex. the (fst (compileException C ex env pr'))) exs\<rparr>"
proof (cases "compile_front C policy")
  case (Inl errs)
  with assms show ?thesis by (auto simp: Compile_by_front dest: compile_front_one_error)
next
  case (Inr x)
  obtain env pr pr' mcs vars rs where "x = (env, pr, pr', mcs, vars, rs)" by (cases x)
  with Inr assms that show ?thesis by (auto simp: Compile_by_front split: if_splits)
qed

lemma compile_front_Inr:
  assumes "compile_front C policy = Inr (env, pr, pr', mcs, vars, rs)"
  shows "policy_env C (vp_evaluationMode policy) = Inr (env, pr)"
    "compile_matchConditions C env pr 0 (vp_matchConditions policy) = Inr mcs"
    "compile_variables C env pr Map.empty 0 (vp_variables policy) = Inr (pr', vars)"
    "compile_rules C env pr' (vp_evaluationMode policy) 0 (vp_validations policy) = Inr rs"
  using assms by (auto simp: compile_front_def split: sum.splits)

section \<open>A sample CEL compiler\<close>

text \<open>
  Environments are option lists, checked expressions are a type and a program; it knows a few
  literal expressions and \<open>variables.<name>\<close> for the names the provider declares.
\<close>

type_synonym sample_ast = "cel_type \<times> (string, sample_val) program"

definition sample_env_Compile :: "env_option list \<Rightarrow> sample_val variablesProvider \<Rightarrow> string \<Rightarrow> go_error + sample_ast" where
  "sample_env_Compile e pr expr =
     (if expr = ''true'' then Inr (BoolType, prog_val (SBool True))
      else if expr = ''isAdmin'' then Inr (BoolType, prog_is_path ''/admin'')
      else if expr = ''deny'' then Inr (http_ResponseType, prog_val (SResp ''denied''))
      else if expr = ''allow'' then Inr (http_ResponseType, prog_val (SResp ''allowed''))
      else if expr = ''null'' then Inr (NullType, prog_val SNull)
      else if take 10 expr = ''variables.'' then
        (case vfields pr (drop 10 expr) of
           Some t \<Rightarrow> Inr (t, prog_var (drop 10 expr))
         | None \<Rightarrow> Inl (Errorf ''undefined field''))
      else Inl (Errorf ''syntax error''))"

definition sample_compiler :: "(env_option list, sample_ast, string, sample_val) cel_compiler" where
  "sample_compiler = \<lparr>cel_NewEnv = Inr, cel_Extend = (\<lambda>e opts. Inr (e @ opts)), image_loader_error = None,
     env_provider = (\<lambda>_. \<lparr>inner_EnumValue = (\<lambda>_. SNull), inner_FindIdent = (\<lambda>_. None),
       inner_FindStructType = (\<lambda>_. None), inner_FindStructFieldNames = (\<lambda>_. None),
       inner_FindStructFieldType = (\<lambda>_ _. None), inner_NewValue = (\<lambda>_ _. SNull)\<rparr>),
     env_Compile = sample_env_Compile, OutputType = fst, env_Program = (\<lambda>_ ast. Inr (snd ast)),
     http_ContextType = OpaqueType ''http.Context'', imagedata_ContextType = OpaqueType ''imagedata.Context'',
     resource_ContextType = OpaqueType ''resource.Context''\<rparr>"

definition sample_vpol :: ValidatingPolicy where
  "sample_vpol = \<lparr>vp_name = ''demo'', vp_resourceVersion = ''1'', vp_evaluationMode = EvaluationModeHTTP,
     vp_failurePolicy = None,
     vp_matchConditions = [\<lparr>ne_name = ''always'', ne_expression = ''true''\<rparr>],
     vp_variables = [\<lparr>ne_name = ''admin'', ne_expression = ''isAdmin''\<rparr>,
                     \<lparr>ne_name = ''blocked'', ne_expression = ''variables.admin''\<rparr>],
     vp_validations = [''null'', ''deny'']\<rparr>"

definition sample_polex :: "string \<Rightarrow> PolicyException" where
  "sample_polex expr = \<lparr>pe_name = ''polex'', pe_evaluationMode = EvaluationModeHTTP,
     pe_policyRefs = [''demo''], pe_matchConditions = [\<lparr>ne_name = ''c'', ne_expression = expr\<rparr>]\<rparr>"

lemmas sample_compile_defs = sample_compiler_def sample_vpol_def sample_polex_def sample_env_Compile_def
  policy_env_def NewEnv_def NewBaseEnv_def cel_lib.truncate_def NewVariablesProvider_def
  compile_matchCondition_def compileAuthorization_def compileException_def

lemma sample_reads_declared: "checked_programs_read_declared sample_compiler"
proof -
  have v: "reads_only (prog_val v) S" for v S
    by (simp add: reads_only_def prog_val_def)
  have a: "reads_only (prog_is_path s) S" for s S
    by (simp add: reads_only_def prog_is_path_def)
  have x: "reads_only (prog_var n) S" if "n \<in> S" for n S
    using that by (simp add: reads_only_def prog_var_def)
  show ?thesis
    by (auto simp: checked_programs_read_declared_def sample_compiler_def sample_env_Compile_def v a
        intro!: x split: if_splits option.splits)
qed

lemma sample_Compile:
  "Compile sample_compiler sample_vpol [sample_polex ''isAdmin''] =
     Ret (\<lparr>cp_name = ''demo'', failurePolicy = Fail, matchConditions = [prog_val (SBool True)],
       variables = [''admin'' \<mapsto> prog_is_path ''/admin'', ''blocked'' \<mapsto> prog_var ''admin''],
       rules = [prog_val SNull, prog_val (SResp ''denied'')],
       exceptions = [\<lparr>ex_matchConditions = [prog_is_path ''/admin'']\<rparr>]\<rparr>, [])"
  by (simp add: Compile_def compile_def sample_compile_defs Let_def http_ResponseType_def)

section \<open>Properties\<close>

text \<open>
  C8. A policy that compiles without errors is well typed: every match condition and every
  exception condition is a checked expression of type bool, every rule one of the response type
  of the policy's mode or null, one program per source expression and in its order; the
  variables are the declared names; the failure policy defaults to Fail.
\<close>

theorem Compile_type_sound:
  assumes "Compile C policy exs = Ret (cp, [])"
  shows "\<exists>env pr pr'. policy_env C (vp_evaluationMode policy) = Inr (env, pr)
    \<and> list_all2 (\<lambda>mc prog. cond_checks C env pr (ne_expression mc) prog) (vp_matchConditions policy) (matchConditions cp)
    \<and> list_all2 (rule_checks C env pr' (vp_evaluationMode policy)) (vp_validations policy) (rules cp)
    \<and> list_all2 (exception_checks C env pr') exs (exceptions cp)
    \<and> dom (variables cp) = ne_name ` set (vp_variables policy) \<and> dom (vfields pr') = dom (variables cp)
    \<and> cp_name cp = vp_name policy
    \<and> failurePolicy cp = (case vp_failurePolicy policy of None \<Rightarrow> Fail | Some fp \<Rightarrow> fp)"
proof -
  from assms obtain env pr pr' mcs vars rs
    where front: "compile_front C policy = Inr (env, pr, pr', mcs, vars, rs)"
      and exs: "\<forall>ex \<in> set exs. \<exists>progs. compile_exception_conds C env pr' (pe_matchConditions ex) = Inr progs"
      and cp: "cp = \<lparr>cp_name = vp_name policy,
        failurePolicy = (case vp_failurePolicy policy of None \<Rightarrow> Fail | Some fp \<Rightarrow> fp),
        matchConditions = mcs, variables = vars, rules = rs,
        exceptions = map (\<lambda>ex. the (fst (compileException C ex env pr'))) exs\<rparr>"
    by (rule Compile_ok_front)
  note f = compile_front_Inr [OF front]
  have "list_all2 (exception_checks C env pr') exs (exceptions cp)"
    using compile_exceptions_Inr [of C env pr' exs] exs by (simp add: compile_exceptions_cases cp)
  moreover have "list_all2 (rule_checks C env pr' (vp_evaluationMode policy)) (vp_validations policy) rs"
    using f(4) policy_env_mode [OF f(1)] by (simp add: compile_rules_Inr)
  ultimately show ?thesis
    using f(1,2) compile_variables_dom [OF f(3)] policy_env_provider [OF f(1)]
    by (auto simp: cp compile_matchConditions_Inr)
qed

theorem Compile_type_sound_witness:
  "\<exists>cp env pr pr'. Compile sample_compiler sample_vpol [sample_polex ''isAdmin''] = Ret (cp, [])
    \<and> failurePolicy cp = Fail \<and> dom (variables cp) = {''admin'', ''blocked''}
    \<and> list_all2 (rule_checks sample_compiler env pr' EvaluationModeHTTP) [''null'', ''deny''] (rules cp)
    \<and> policy_env sample_compiler EvaluationModeHTTP = Inr (env, pr)"
  using Compile_type_sound [OF sample_Compile] sample_Compile
  by (auto simp: sample_vpol_def)

text \<open>
  C15. A policy that does not compile is reported with exactly one field error and yields the
  zero policy, which never decides on any request: a rejected policy neither allows nor denies.
\<close>

theorem Compile_rejects_with_one_error:
  assumes "Compile C policy exs = Ret (cp, errs)" and "errs \<noteq> []" and "multierr_law A"
  shows "length errs = 1 \<and> cp = zero_policy \<and> Evaluate fuel A cp r = Ret (None, None)"
proof -
  have "cp = zero_policy \<and> compile_front C policy = Inl errs"
    using assms(1,2) by (auto simp: Compile_by_front split: sum.splits prod.splits if_splits)
  moreover have "Evaluate fuel A zero_policy r = Ret (None, None)"
    using multierr_law_Nil [OF assms(3)]
    by (simp add: Evaluate_def evaluateRules_def policy_match_def setupVariables_def zero_policy_def)
  ultimately show ?thesis by (auto dest: compile_front_one_error)
qed

theorem Compile_rejects_with_one_error_witness:
  "\<exists>cp errs. Compile sample_compiler (sample_vpol\<lparr>vp_validations := [''isAdmin'']\<rparr>) [] = Ret (cp, errs)
    \<and> length errs = 1 \<and> Evaluate 2 sample_api cp ''/'' = Ret (None, None)"
proof -
  have "Compile sample_compiler (sample_vpol\<lparr>vp_validations := [''isAdmin'']\<rparr>) [] =
      Ret (zero_policy, [Invalid [Child ''spec'', Child ''validations'', Index 0, Child ''expression'']
        ''isAdmin'' (response_type_message http_ResponseType)])"
    by (simp add: Compile_def compile_def sample_compile_defs Let_def http_ResponseType_def)
  from Compile_rejects_with_one_error [OF this _ multierr_law_sample] this show ?thesis by blast
qed

text \<open>
  C16. An exception whose condition does not compile is not reported: if the policy itself
  compiles, compiling it together with such an exception panics on a nil pointer, because the
  loop tests the error of the enclosing function instead of the exception's.
\<close>

theorem Compile_panics_on_invalid_exception:
  assumes "Compile C policy [] = Ret (cp, [])"
    and "ex \<in> set exs" and "mc \<in> set (pe_matchConditions ex)"
    and "\<And>env pr prog. \<not> cond_checks C env pr (ne_expression mc) prog"
  shows "Compile C policy exs = Panic nil_deref"
proof -
  from assms(1) obtain env pr pr' mcs vars rs
    where front: "compile_front C policy = Inr (env, pr, pr', mcs, vars, rs)"
    by (rule Compile_ok_front)
  have "\<nexists>progs. compile_exception_conds C env pr' (pe_matchConditions ex) = Inr progs"
  proof
    assume "\<exists>progs. compile_exception_conds C env pr' (pe_matchConditions ex) = Inr progs"
    then obtain progs where
      "list_all2 (\<lambda>mc prog. cond_checks C env pr' (ne_expression mc) prog) (pe_matchConditions ex) progs"
      by (auto simp: compile_exception_conds_Inr)
    with assms(3,4) show False by (auto simp: in_set_conv_nth list_all2_conv_all_nth)
  qed
  with assms(2) front show ?thesis by (auto simp: Compile_by_front)
qed

theorem Compile_panics_on_invalid_exception_witness:
  "Compile sample_compiler sample_vpol [sample_polex ''1 +''] = Panic nil_deref"
proof -
  have ok: "\<exists>cp. Compile sample_compiler sample_vpol [] = Ret (cp, [])"
    by (simp add: Compile_def compile_def sample_compile_defs Let_def http_ResponseType_def)
  then obtain cp where "Compile sample_compiler sample_vpol [] = Ret (cp, [])" ..
  then show ?thesis
    by (rule Compile_panics_on_invalid_exception
        [where ex = "sample_polex ''1 +''" and mc = "\<lparr>ne_name = ''c'', ne_expression = ''1 +''\<rparr>"])
       (auto simp: sample_polex_def cond_checks_def sample_compiler_def sample_env_Compile_def)
qed

lemma Compile_vars_ordered:
  assumes "checked_programs_read_declared C" and "Compile C policy exs = Ret (cp, [])"
    and "distinct (map ne_name (vp_variables policy))"
  shows "vars_ordered (variables cp) (map ne_name (vp_variables policy))"
proof -
  from assms(2) obtain env pr pr' mcs vars rs
    where front: "compile_front C policy = Inr (env, pr, pr', mcs, vars, rs)"
      and cp: "variables cp = vars"
    by (rule Compile_ok_front) auto
  note f = compile_front_Inr [OF front]
  have "vars_ordered Map.empty []" by (simp add: vars_ordered_def)
  from compile_variables_ordered [OF assms(1) f(3) this] policy_env_provider [OF f(1)] assms(3)
  show ?thesis by (simp add: cp)
qed

text \<open>
  The variables of a compiled policy can be evaluated: when the declared names are distinct
  (the CRD makes them a map keyed by name) and checked programs read only declared variables,
  each variable reads only earlier ones, so evaluation nests no deeper than their number.
\<close>

lemma compiled_variables_terminate:
  assumes "checked_programs_read_declared C" and "Compile C policy exs = Ret (cp, [])"
    and "distinct (map ne_name (vp_variables policy))" and "length (vp_variables policy) \<le> fuel"
  shows "vars_ordered (variables cp) (map ne_name (vp_variables policy))
    \<and> Evaluate fuel A cp r = Evaluate (length (vp_variables policy)) A cp r"
proof -
  note o = Compile_vars_ordered [OF assms(1-3)]
  from Evaluate_fuel_irrelevant [OF o, of fuel "length (vp_variables policy)"] assms(4) o
  show ?thesis by simp
qed

lemma compiled_variables_terminate_sample:
  "\<exists>cp. Compile sample_compiler sample_vpol [sample_polex ''isAdmin''] = Ret (cp, [])
    \<and> Evaluate 9 sample_api cp ''/'' = Evaluate 2 sample_api cp ''/''"
proof -
  have d: "distinct (map ne_name (vp_variables sample_vpol))" "length (vp_variables sample_vpol) \<le> 9"
    by (simp_all add: sample_vpol_def)
  from compiled_variables_terminate [OF sample_reads_declared sample_Compile d, of sample_api "''/''"]
    sample_Compile
  show ?thesis by (auto simp: sample_vpol_def eval_nat_numeral)
qed

end
