(* ===== verification/ServerRun.thy ===== *)
theory ServerRun
  imports AuthzHttp
begin

text \<open>
  Running servers (\<open>pkg/server/http.go\<close>, \<open>pkg/server/grpc.go\<close>), the signal handling around them
  (\<open>pkg/signals/context.go\<close>) and the probes (\<open>pkg/probes\<close>, \<open>healthy.go\<close> and \<open>ready.go\<close> of
  \<open>pkg/server/handlers\<close>). The two goroutines of a running server are program counters of one
  state and every interleaving is a sequence of steps. The graceful stop of the gRPC server waits for the
  pending checks, which may never end; \<open>fails_by_itself\<close> marks the steps nobody asked for. Log messages are left out.
\<close>

section \<open>The state of a running server\<close>

text \<open>
  The caller serves, cancels the context when serving returns and waits for the other goroutine,
  which waits for the cancellation and shuts the server down. \<open>calls\<close> are the calls of the server
  package, in their order.
\<close>

datatype main_pc = MainStart | MainServing | MainCancel | MainJoin | MainReturned "go_error list"

datatype shutdown_pc = AwaitCancel | ShuttingDown | ShutDown "go_error option"

datatype server_call =
    ListenAndServe
  | ListenAndServeTLS string string
  | Serve
  | Shutdown
  | GracefulStop

record server_run =
  r_main :: main_pc
  r_cancelled :: bool
  r_serveErr :: "go_error option"
  r_shutdown :: shutdown_pc
  r_calls :: "server_call list"

definition server_start :: server_run where
  "server_start = \<lparr>r_main = MainStart, r_cancelled = False, r_serveErr = None, r_shutdown = AwaitCancel, r_calls = []\<rparr>"

text \<open>
  Several errors combined into one are their list, without the nil ones: all the code relies on of
  the value \<open>multierr.Combine\<close> documents, which is nil when all of them are.
\<close>

definition Combine :: "go_error option list \<Rightarrow> go_error list" where
  "Combine errs = [e. Some e \<leftarrow> errs]"

definition serve_call :: "string \<Rightarrow> string \<Rightarrow> server_call" where
  "serve_call certFile keyFile =
     (if certFile \<noteq> [] \<and> keyFile \<noteq> [] then ListenAndServeTLS certFile keyFile else ListenAndServe)"

section \<open>Running an HTTP server\<close>

text \<open>
  \<open>net/http\<close>: serving returns an error at any time, and \<open>ErrServerClosed\<close> once the server was
  told to shut down. The context can be cancelled from outside at any time. Shutting down waits for
  open requests no longer than the ten seconds of its context, so it always ends.
\<close>

inductive RunHttp :: "string \<Rightarrow> string \<Rightarrow> server_run \<Rightarrow> server_run \<Rightarrow> bool" for certFile keyFile where
  http_cancelled: "\<not> r_cancelled s \<Longrightarrow> RunHttp certFile keyFile s (s\<lparr>r_cancelled := True\<rparr>)"
| http_serve: "r_main s = MainStart \<Longrightarrow>
    RunHttp certFile keyFile s (s\<lparr>r_main := MainServing, r_calls := r_calls s @ [serve_call certFile keyFile]\<rparr>)"
| http_serve_error: "r_main s = MainServing \<Longrightarrow> err \<noteq> ServerClosed \<Longrightarrow>
    RunHttp certFile keyFile s (s\<lparr>r_main := MainCancel, r_serveErr := Some err\<rparr>)"
| http_serve_closed: "r_main s = MainServing \<Longrightarrow> r_shutdown s \<noteq> AwaitCancel \<Longrightarrow>
    RunHttp certFile keyFile s (s\<lparr>r_main := MainCancel, r_serveErr := None\<rparr>)"
| http_cancel: "r_main s = MainCancel \<Longrightarrow>
    RunHttp certFile keyFile s (s\<lparr>r_main := MainJoin, r_cancelled := True\<rparr>)"
| http_shutdown: "r_shutdown s = AwaitCancel \<Longrightarrow> r_cancelled s \<Longrightarrow>
    RunHttp certFile keyFile s (s\<lparr>r_shutdown := ShuttingDown, r_calls := r_calls s @ [Shutdown]\<rparr>)"
| http_shutdown_done: "r_shutdown s = ShuttingDown \<Longrightarrow>
    RunHttp certFile keyFile s (s\<lparr>r_shutdown := ShutDown err\<rparr>)"
| http_join: "r_main s = MainJoin \<Longrightarrow> r_shutdown s = ShutDown shutdownErr \<Longrightarrow>
    RunHttp certFile keyFile s (s\<lparr>r_main := MainReturned (Combine [r_serveErr s, shutdownErr])\<rparr>)"

section \<open>Running a gRPC server\<close>

text \<open>
  \<open>grpc\<close>: serving returns an error at any time, returns nil once the server was told to stop
  while it was serving, and fails with \<open>ErrServerStopped\<close> when it was stopped before. A graceful stop
  waits without limit for the calls that were accepted: \<open>stuck\<close> says that one of them never ends (a
  check that waits for a mutex nobody releases, say), and then it ends only when nothing was served
  before it.
\<close>

definition ErrServerStopped :: go_error where
  "ErrServerStopped = Errorf ''grpc: the server has been stopped''"

inductive RunGrpc :: "bool \<Rightarrow> server_run \<Rightarrow> server_run \<Rightarrow> bool" for stuck where
  grpc_cancelled: "\<not> r_cancelled s \<Longrightarrow> RunGrpc stuck s (s\<lparr>r_cancelled := True\<rparr>)"
| grpc_serve: "r_main s = MainStart \<Longrightarrow> r_shutdown s = AwaitCancel \<Longrightarrow>
    RunGrpc stuck s (s\<lparr>r_main := MainServing, r_calls := r_calls s @ [Serve]\<rparr>)"
| grpc_serve_stopped: "r_main s = MainStart \<Longrightarrow> r_shutdown s \<noteq> AwaitCancel \<Longrightarrow>
    RunGrpc stuck s (s\<lparr>r_main := MainCancel, r_serveErr := Some ErrServerStopped, r_calls := r_calls s @ [Serve]\<rparr>)"
| grpc_serve_error: "r_main s = MainServing \<Longrightarrow>
    RunGrpc stuck s (s\<lparr>r_main := MainCancel, r_serveErr := Some err\<rparr>)"
| grpc_serve_ends: "r_main s = MainServing \<Longrightarrow> r_shutdown s \<noteq> AwaitCancel \<Longrightarrow>
    RunGrpc stuck s (s\<lparr>r_main := MainCancel, r_serveErr := None\<rparr>)"
| grpc_cancel: "r_main s = MainCancel \<Longrightarrow> RunGrpc stuck s (s\<lparr>r_main := MainJoin, r_cancelled := True\<rparr>)"
| grpc_stop: "r_shutdown s = AwaitCancel \<Longrightarrow> r_cancelled s \<Longrightarrow>
    RunGrpc stuck s (s\<lparr>r_shutdown := ShuttingDown, r_calls := r_calls s @ [GracefulStop]\<rparr>)"
| grpc_stop_done: "r_shutdown s = ShuttingDown \<Longrightarrow> \<not> stuck \<or> hd (r_calls s) = GracefulStop \<Longrightarrow>
    RunGrpc stuck s (s\<lparr>r_shutdown := ShutDown None\<rparr>)"
| grpc_join: "r_main s = MainJoin \<Longrightarrow> r_shutdown s = ShutDown err \<Longrightarrow>
    RunGrpc stuck s (s\<lparr>r_main := MainReturned (Combine [r_serveErr s])\<rparr>)"

inductive_cases RunHttpE: "RunHttp certFile keyFile s s'"
inductive_cases RunGrpcE: "RunGrpc stuck s s'"

section \<open>Lifecycle\<close>

text \<open>What remains to be done: every step makes it smaller, so every run is finite.\<close>

fun main_left :: "main_pc \<Rightarrow> nat" where
  "main_left MainStart = 4"
| "main_left MainServing = 3"
| "main_left MainCancel = 2"
| "main_left MainJoin = 1"
| "main_left (MainReturned _) = 0"

fun shutdown_left :: "shutdown_pc \<Rightarrow> nat" where
  "shutdown_left AwaitCancel = 2"
| "shutdown_left ShuttingDown = 1"
| "shutdown_left (ShutDown _) = 0"

definition run_left :: "server_run \<Rightarrow> nat" where
  "run_left s = main_left (r_main s) + shutdown_left (r_shutdown s) + (if r_cancelled s then 0 else 1)"

definition returned :: "server_run \<Rightarrow> bool" where
  "returned s = (case r_main s of MainReturned _ \<Rightarrow> True | _ \<Rightarrow> False)"

text \<open>Serving ended although nobody told the server to stop: a step of its environment, not its own.\<close>

definition fails_by_itself :: "server_run \<Rightarrow> server_run \<Rightarrow> bool" where
  "fails_by_itself s s' \<longleftrightarrow> r_main s = MainServing \<and> r_shutdown s = AwaitCancel \<and> r_main s' \<noteq> MainServing"

text \<open>
  The contract of a server with a graceful shutdown: an invariant that holds at the start and is
  kept, steps that make progress, and no deadlock once the context is cancelled: there is a step that
  does not need serving to fail.
\<close>

locale graceful_server =
  fixes step :: "server_run \<Rightarrow> server_run \<Rightarrow> bool" and inv :: "server_run \<Rightarrow> bool"
  assumes inv_start: "inv server_start"
    and inv_step: "inv s \<Longrightarrow> step s s' \<Longrightarrow> inv s'"
    and stays_cancelled: "step s s' \<Longrightarrow> r_cancelled s \<Longrightarrow> r_cancelled s'"
    and progress: "step s s' \<Longrightarrow> run_left s' < run_left s"
    and no_deadlock: "inv s \<Longrightarrow> r_cancelled s \<Longrightarrow> \<not> returned s \<Longrightarrow> \<exists>s'. step s s' \<and> \<not> fails_by_itself s s'"
begin

lemma reachable_inv: "step\<^sup>*\<^sup>* server_start s \<Longrightarrow> inv s"
  by (induction rule: rtranclp_induct) (auto intro: inv_start inv_step)

lemma runs_finite: "(step ^^ n) server_start s \<Longrightarrow> n + run_left s \<le> run_left server_start"
proof (induction n arbitrary: s)
  case (Suc n)
  then obtain s' where "(step ^^ n) server_start s'" "step s' s" by auto
  with Suc.IH [of s'] progress [of s' s] show ?case by simp
qed simp

lemma shuts_down:
  assumes "inv s" and "r_cancelled s"
  shows "\<exists>s'. step\<^sup>*\<^sup>* s s' \<and> returned s'"
  using assms
proof (induction "run_left s" arbitrary: s rule: less_induct)
  case less
  show ?case
  proof (cases "returned s")
    case False
    with less.prems no_deadlock obtain s' where s': "step s s'" by blast
    with less.prems have "inv s'" "r_cancelled s'" using inv_step stays_cancelled by blast+
    with less.hyps [OF progress [OF s']] obtain t where "step\<^sup>*\<^sup>* s' t" "returned t" by blast
    with s' show ?thesis by (meson converse_rtranclp_into_rtranclp)
  qed blast
qed

end

text \<open>
  The invariants: the calls made are determined by the two program counters, the shutdown starts
  only after the cancellation, and a server that returned has no goroutine left and reports
  exactly its errors.
\<close>

definition calls_of :: "server_call \<Rightarrow> server_call \<Rightarrow> server_run \<Rightarrow> bool" where
  "calls_of srv stop s \<longleftrightarrow>
     (case (r_main s = MainStart, r_shutdown s = AwaitCancel) of
        (True, True) \<Rightarrow> r_calls s = []
      | (True, False) \<Rightarrow> r_calls s = [stop]
      | (False, True) \<Rightarrow> r_calls s = [srv]
      | (False, False) \<Rightarrow> r_calls s = [srv, stop] \<or> r_calls s = [stop, srv])"

definition cancel_inv :: "server_run \<Rightarrow> bool" where
  "cancel_inv s \<longleftrightarrow> (r_shutdown s \<noteq> AwaitCancel \<longrightarrow> r_cancelled s)
     \<and> (r_main s = MainJoin \<or> returned s \<longrightarrow> r_cancelled s)"

definition http_inv :: "string \<Rightarrow> string \<Rightarrow> server_run \<Rightarrow> bool" where
  "http_inv certFile keyFile s \<longleftrightarrow> calls_of (serve_call certFile keyFile) Shutdown s \<and> cancel_inv s
     \<and> r_serveErr s \<noteq> Some ServerClosed
     \<and> (case r_main s of
          MainReturned errs \<Rightarrow> (\<exists>e. r_shutdown s = ShutDown e \<and> errs = Combine [r_serveErr s, e])
        | _ \<Rightarrow> True)"

definition grpc_inv :: "bool \<Rightarrow> server_run \<Rightarrow> bool" where
  "grpc_inv stuck s \<longleftrightarrow> calls_of Serve GracefulStop s \<and> cancel_inv s
     \<and> (case r_main s of
          MainReturned errs \<Rightarrow> r_shutdown s = ShutDown None \<and> errs = Combine [r_serveErr s]
        | _ \<Rightarrow> True)
     \<and> (\<forall>e. r_shutdown s = ShutDown e \<longrightarrow> e = None \<and> (stuck \<longrightarrow> hd (r_calls s) = GracefulStop))"

lemmas run_defs = calls_of_def cancel_inv_def returned_def run_left_def server_start_def

lemma http_inv_step: "http_inv c k s \<Longrightarrow> RunHttp c k s s' \<Longrightarrow> http_inv c k s'"
  by (erule RunHttpE) (auto simp: http_inv_def run_defs split: bool.splits main_pc.splits)

lemma grpc_inv_start: "grpc_inv stuck server_start"
  by (simp add: grpc_inv_def run_defs)

lemma grpc_inv_step: "grpc_inv stuck s \<Longrightarrow> RunGrpc stuck s s' \<Longrightarrow> grpc_inv stuck s'"
  by (erule RunGrpcE) (auto simp: grpc_inv_def run_defs split: bool.splits main_pc.splits)

lemma http_progress: "RunHttp c k s s' \<Longrightarrow> run_left s' < run_left s"
  by (erule RunHttpE) (auto simp: run_defs)

lemma grpc_progress: "RunGrpc stuck s s' \<Longrightarrow> run_left s' < run_left s"
  by (erule RunGrpcE) (auto simp: run_defs)

lemma http_no_deadlock:
  assumes "r_cancelled s" and "\<not> returned s"
  shows "\<exists>s'. RunHttp c k s s' \<and> \<not> fails_by_itself s s'"
proof (cases "r_shutdown s")
  case AwaitCancel
  have "RunHttp c k s (s\<lparr>r_shutdown := ShuttingDown, r_calls := r_calls s @ [Shutdown]\<rparr>)"
    using AwaitCancel assms(1) by (rule http_shutdown)
  moreover have "\<not> fails_by_itself s (s\<lparr>r_shutdown := ShuttingDown, r_calls := r_calls s @ [Shutdown]\<rparr>)"
    by (simp add: fails_by_itself_def)
  ultimately show ?thesis by blast
next
  case ShuttingDown
  then have "RunHttp c k s (s\<lparr>r_shutdown := ShutDown None\<rparr>)" by (rule http_shutdown_done)
  with ShuttingDown show ?thesis by (auto simp: fails_by_itself_def)
next
  case (ShutDown err)
  then have "r_shutdown s \<noteq> AwaitCancel" by simp
  note intros = http_serve http_serve_closed http_cancel http_join
  have "\<exists>s'. RunHttp c k s s'"
  proof (cases "r_main s")
    case (MainReturned errs)
    with assms(2) show ?thesis by (simp add: returned_def)
  qed (use ShutDown \<open>r_shutdown s \<noteq> AwaitCancel\<close> in \<open>blast intro: intros\<close>)+
  then show ?thesis using ShutDown by (simp add: fails_by_itself_def)
qed

lemma grpc_no_deadlock:
  assumes "r_cancelled s" and "\<not> returned s"
  shows "\<exists>s'. RunGrpc False s s' \<and> \<not> fails_by_itself s s'"
proof (cases "r_shutdown s")
  case AwaitCancel
  have "RunGrpc False s (s\<lparr>r_shutdown := ShuttingDown, r_calls := r_calls s @ [GracefulStop]\<rparr>)"
    using AwaitCancel assms(1) by (rule grpc_stop)
  moreover have "\<not> fails_by_itself s (s\<lparr>r_shutdown := ShuttingDown, r_calls := r_calls s @ [GracefulStop]\<rparr>)"
    by (simp add: fails_by_itself_def)
  ultimately show ?thesis by blast
next
  case ShuttingDown
  then have "RunGrpc False s (s\<lparr>r_shutdown := ShutDown None\<rparr>)" by (intro grpc_stop_done) simp_all
  with ShuttingDown show ?thesis by (auto simp: fails_by_itself_def)
next
  case (ShutDown err)
  then have "r_shutdown s \<noteq> AwaitCancel" by simp
  note intros = grpc_serve_stopped grpc_serve_ends grpc_cancel grpc_join
  have "\<exists>s'. RunGrpc False s s'"
  proof (cases "r_main s")
    case (MainReturned errs)
    with assms(2) show ?thesis by (simp add: returned_def)
  qed (use ShutDown \<open>r_shutdown s \<noteq> AwaitCancel\<close> in \<open>blast intro: intros\<close>)+
  then show ?thesis using ShutDown by (simp add: fails_by_itself_def)
qed

interpretation http_server: graceful_server "RunHttp c k" "http_inv c k" for c k
proof unfold_locales
  show "http_inv c k server_start" by (simp add: http_inv_def run_defs)
  show "RunHttp c k s s' \<Longrightarrow> r_cancelled s \<Longrightarrow> r_cancelled s'" for s s' by (erule RunHttpE) auto
qed (blast intro: http_inv_step http_progress http_no_deadlock)+

text \<open>A gRPC server keeps the contract when every check it accepts ends.\<close>

interpretation grpc_server: graceful_server "RunGrpc False" "grpc_inv False"
proof unfold_locales
  show "RunGrpc False s s' \<Longrightarrow> r_cancelled s \<Longrightarrow> r_cancelled s'" for s s' by (erule RunGrpcE) auto
qed (blast intro: grpc_inv_start grpc_inv_step grpc_progress grpc_no_deadlock)+

text \<open>Otherwise it never returns once it has served.\<close>

definition serves_stuck :: "server_run \<Rightarrow> bool" where
  "serves_stuck s \<longleftrightarrow> r_calls s \<noteq> [] \<and> hd (r_calls s) = Serve"

lemma stuck_server_stays: "serves_stuck s \<Longrightarrow> RunGrpc stuck s s' \<Longrightarrow> serves_stuck s'"
  by (erule RunGrpcE) (auto simp: serves_stuck_def)

lemma stuck_server_never_returns: "grpc_inv True s \<Longrightarrow> serves_stuck s \<Longrightarrow> \<not> returned s"
  by (auto simp: grpc_inv_def serves_stuck_def returned_def split: main_pc.splits)

section \<open>Signals\<close>

text \<open>
  \<open>Do\<close> runs a callback under a context that a signal cancels. While the notification is on, a
  signal cancels the context; otherwise it kills the process. \<open>stop\<close> cancels the context and
  switches the notification off, so that a later signal is not ignored; a signal in between changes
  nothing and is left out. The result of the callback is of any type.
\<close>

datatype 'r do_pc = DoCallback | DoStop 'r | DoWait 'r | DoReturned 'r

datatype waiter_pc = AwaitDone | WaiterStop | WaiterDone

record 'r do_run =
  do_main :: "'r do_pc"
  do_waiter :: waiter_pc
  do_notify :: bool
  do_cancelled :: bool
  do_killed :: bool

definition do_start :: "'r do_run" where
  "do_start = \<lparr>do_main = DoCallback, do_waiter = AwaitDone, do_notify = True, do_cancelled = False, do_killed = False\<rparr>"

definition signal_stop :: "'r do_run \<Rightarrow> 'r do_run" where
  "signal_stop s = s\<lparr>do_notify := False, do_cancelled := True\<rparr>"

inductive Do :: "'r do_run \<Rightarrow> 'r do_run \<Rightarrow> bool" where
  do_signal: "\<not> do_killed s \<Longrightarrow> do_notify s \<Longrightarrow> \<not> do_cancelled s \<Longrightarrow> Do s (s\<lparr>do_cancelled := True\<rparr>)"
| do_kill: "\<not> do_killed s \<Longrightarrow> \<not> do_notify s \<Longrightarrow> Do s (s\<lparr>do_killed := True\<rparr>)"
| do_callback: "\<not> do_killed s \<Longrightarrow> do_main s = DoCallback \<Longrightarrow> Do s (s\<lparr>do_main := DoStop err\<rparr>)"
| do_stop: "\<not> do_killed s \<Longrightarrow> do_main s = DoStop err \<Longrightarrow> Do s ((signal_stop s)\<lparr>do_main := DoWait err\<rparr>)"
| do_wake: "\<not> do_killed s \<Longrightarrow> do_waiter s = AwaitDone \<Longrightarrow> do_cancelled s \<Longrightarrow> Do s (s\<lparr>do_waiter := WaiterStop\<rparr>)"
| do_restore: "\<not> do_killed s \<Longrightarrow> do_waiter s = WaiterStop \<Longrightarrow> Do s ((signal_stop s)\<lparr>do_waiter := WaiterDone\<rparr>)"
| do_return: "\<not> do_killed s \<Longrightarrow> do_main s = DoWait err \<Longrightarrow> do_waiter s = WaiterDone \<Longrightarrow> Do s (s\<lparr>do_main := DoReturned err\<rparr>)"

inductive_cases DoE: "Do s s'"

definition do_inv :: "'r do_run \<Rightarrow> bool" where
  "do_inv s \<longleftrightarrow> (\<not> do_notify s \<longrightarrow> do_cancelled s) \<and> (do_killed s \<longrightarrow> \<not> do_notify s)
     \<and> (do_waiter s \<noteq> AwaitDone \<longrightarrow> do_cancelled s) \<and> (do_waiter s = WaiterDone \<longrightarrow> \<not> do_notify s)
     \<and> (case do_main s of DoWait _ \<Rightarrow> \<not> do_notify s | DoReturned _ \<Rightarrow> do_waiter s = WaiterDone \<and> \<not> do_notify s | _ \<Rightarrow> True)"

lemma do_inv_step: "do_inv s \<Longrightarrow> Do s s' \<Longrightarrow> do_inv s'"
  by (erule DoE) (auto simp: do_inv_def signal_stop_def split: do_pc.splits)

lemma do_reachable_inv: "Do\<^sup>*\<^sup>* do_start s \<Longrightarrow> do_inv s"
proof (induction rule: rtranclp_induct)
  case base
  show ?case by (simp add: do_inv_def do_start_def)
qed (rule do_inv_step)

text \<open>
  The first signal never kills the process before the callback was told to end, and a call that
  returned left neither the goroutine nor the notification behind.
\<close>

lemma first_signal_cancels: "Do\<^sup>*\<^sup>* do_start s \<Longrightarrow> do_killed s \<Longrightarrow> do_cancelled s"
  using do_reachable_inv by (fastforce simp: do_inv_def)

lemma do_returns_clean:
  "Do\<^sup>*\<^sup>* do_start s \<Longrightarrow> do_main s = DoReturned err \<Longrightarrow> do_waiter s = WaiterDone \<and> \<not> do_notify s"
  using do_reachable_inv by (fastforce simp: do_inv_def)

section \<open>Probes\<close>

definition Healthy :: "(unit \<Rightarrow> bool) \<Rightarrow> ('id, 'x) http_world \<Rightarrow> ('id, 'x) http_world \<times> string option" where
  "Healthy f w = (let code = 200; code = (if \<not> f () then 500 else code) in WriteHeader code w)"

definition Ready :: "(unit \<Rightarrow> bool) \<Rightarrow> ('id, 'x) http_world \<Rightarrow> ('id, 'x) http_world \<times> string option" where
  "Ready f w = (let code = 200; code = (if \<not> f () then 500 else code) in WriteHeader code w)"

definition probe_True :: "unit \<Rightarrow> bool" where
  "probe_True _ = True"

text \<open>The routes of the probes server, which runs over plain HTTP.\<close>

definition probe_routes :: "(string \<times> (('id, 'x) http_world \<Rightarrow> ('id, 'x) http_world \<times> string option)) list" where
  "probe_routes = [(''GET /livez'', Healthy probe_True), (''GET /readyz'', Ready probe_True)]"

definition probes_run :: "server_run \<Rightarrow> server_run \<Rightarrow> bool" where
  "probes_run = RunHttp [] []"

lemma probe_answers:
  "w_Status w = None \<Longrightarrow> handler \<in> snd ` set probe_routes \<Longrightarrow> handler w = (w\<lparr>w_Status := Some 200\<rparr>, None)"
  by (auto simp: probe_routes_def Healthy_def Ready_def probe_True_def WriteHeader_def statusMin_def statusMax_def)

section \<open>Properties\<close>

text \<open>
  C33. The lifecycle of an HTTP server: every run has at most seven steps; once the context is
  cancelled no state is stuck before the function returned, and a caller that waits has cancelled
  it; a run that returned called serve and Shutdown exactly once each, left no goroutine behind
  and returns exactly the errors of both, a closed server not being one.
\<close>

theorem http_server_lifecycle:
  assumes "(RunHttp certFile keyFile ^^ n) server_start s"
  shows "n \<le> 7
    \<and> (r_cancelled s \<longrightarrow> returned s \<or> (\<exists>s'. RunHttp certFile keyFile s s'))
    \<and> (r_main s = MainJoin \<longrightarrow> r_cancelled s)
    \<and> (\<forall>errs. r_main s = MainReturned errs \<longrightarrow>
        (r_calls s = [serve_call certFile keyFile, Shutdown] \<or> r_calls s = [Shutdown, serve_call certFile keyFile])
        \<and> (\<exists>shutdownErr. r_shutdown s = ShutDown shutdownErr \<and> errs = Combine [r_serveErr s, shutdownErr])
        \<and> r_serveErr s \<noteq> Some ServerClosed)"
proof (intro conjI)
  from assms have "(RunHttp certFile keyFile)\<^sup>*\<^sup>* server_start s" by (rule relpowp_imp_rtranclp)
  then have inv: "http_inv certFile keyFile s" by (rule http_server.reachable_inv)
  show "n \<le> 7" using http_server.runs_finite [OF assms] by (simp add: run_left_def server_start_def)
  show "r_cancelled s \<longrightarrow> returned s \<or> (\<exists>s'. RunHttp certFile keyFile s s')" using http_no_deadlock by blast
  show "r_main s = MainJoin \<longrightarrow> r_cancelled s" using inv by (simp add: http_inv_def cancel_inv_def)
  show "\<forall>errs. r_main s = MainReturned errs \<longrightarrow>
      (r_calls s = [serve_call certFile keyFile, Shutdown] \<or> r_calls s = [Shutdown, serve_call certFile keyFile])
      \<and> (\<exists>shutdownErr. r_shutdown s = ShutDown shutdownErr \<and> errs = Combine [r_serveErr s, shutdownErr])
      \<and> r_serveErr s \<noteq> Some ServerClosed"
    using inv by (auto simp: http_inv_def calls_of_def)
qed

definition failed_run :: "main_pc \<Rightarrow> bool \<Rightarrow> shutdown_pc \<Rightarrow> server_call list \<Rightarrow> server_run" where
  "failed_run pc cancelled shut calls =
     \<lparr>r_main = pc, r_cancelled = cancelled, r_serveErr = Some (Errorf ''address in use''), r_shutdown = shut, r_calls = calls\<rparr>"

lemma failed_run_steps:
  "(RunHttp [] [] ^^ 6) server_start
     (failed_run (MainReturned [Errorf ''address in use'']) True (ShutDown None) [ListenAndServe, Shutdown])"
proof -
  let ?serving = "server_start\<lparr>r_main := MainServing, r_calls := [ListenAndServe]\<rparr>"
  have "RunHttp [] [] server_start ?serving"
    using http_serve [of server_start "[]" "[]"] by (simp add: server_start_def serve_call_def)
  moreover have "RunHttp [] [] ?serving (failed_run MainCancel False AwaitCancel [ListenAndServe])"
    using http_serve_error [of ?serving "Errorf ''address in use''"] by (simp add: server_start_def failed_run_def)
  moreover have "RunHttp [] [] (failed_run MainCancel False AwaitCancel [ListenAndServe])
      (failed_run MainJoin True AwaitCancel [ListenAndServe])"
    using http_cancel [of "failed_run MainCancel False AwaitCancel [ListenAndServe]"] by (simp add: failed_run_def)
  moreover have "RunHttp [] [] (failed_run MainJoin True AwaitCancel [ListenAndServe])
      (failed_run MainJoin True ShuttingDown [ListenAndServe, Shutdown])"
    using http_shutdown [of "failed_run MainJoin True AwaitCancel [ListenAndServe]"] by (simp add: failed_run_def)
  moreover have "RunHttp [] [] (failed_run MainJoin True ShuttingDown [ListenAndServe, Shutdown])
      (failed_run MainJoin True (ShutDown None) [ListenAndServe, Shutdown])"
    using http_shutdown_done [of "failed_run MainJoin True ShuttingDown [ListenAndServe, Shutdown]"] by (simp add: failed_run_def)
  moreover have "RunHttp [] [] (failed_run MainJoin True (ShutDown None) [ListenAndServe, Shutdown])
      (failed_run (MainReturned [Errorf ''address in use'']) True (ShutDown None) [ListenAndServe, Shutdown])"
    using http_join [of "failed_run MainJoin True (ShutDown None) [ListenAndServe, Shutdown]" None]
    by (simp add: failed_run_def Combine_def)
  moreover have "6 = Suc (Suc (Suc (Suc (Suc (Suc 0)))))" by simp
  ultimately show ?thesis by (simp only: relpowp.simps) (blast intro: relcomppI)
qed

theorem http_server_lifecycle_witness:
  "\<exists>s. (RunHttp [] [] ^^ 6) server_start s \<and> r_main s = MainReturned [Errorf ''address in use'']
     \<and> (r_calls s = [ListenAndServe, Shutdown] \<or> r_calls s = [Shutdown, ListenAndServe])"
proof -
  let ?s = "failed_run (MainReturned [Errorf ''address in use'']) True (ShutDown None) [ListenAndServe, Shutdown]"
  have "serve_call [] [] = ListenAndServe" by (simp add: serve_call_def)
  moreover have "r_main ?s = MainReturned [Errorf ''address in use'']" by (simp add: failed_run_def)
  ultimately have "r_calls ?s = [ListenAndServe, Shutdown] \<or> r_calls ?s = [Shutdown, ListenAndServe]"
    using http_server_lifecycle [OF failed_run_steps] by metis
  with failed_run_steps \<open>r_main ?s = _\<close> show ?thesis by blast
qed

end
