(* ===== verification/Admission.thy ===== *)
theory Admission
  imports Compiler ServerRun
begin

text \<open>
  The admission webhooks: the review handler and its responses
  (\<open>pkg/server/handlers/admission.go\<close>, \<open>error.go\<close>), the sidecar and its injection
  (\<open>pkg/sidecar\<close>, \<open>pkg/webhook/mutation\<close>), and the validation of policies
  (\<open>pkg/webhook/validation\<close> with the compile functions of the validation webhook commands).
  JSON encoding and JSON patches are arguments.
\<close>

section \<open>Admission responses\<close>

record AdmissionRequest =
  ar_UID :: string
  ar_Object :: string

record status_result =
  sr_Status :: string
  sr_Message :: string

record AdmissionResponse =
  as_UID :: string
  as_Allowed :: bool
  as_Result :: "status_result option"
  as_PatchType :: "string option"
  as_Patch :: "string option"

definition StatusFailure :: string where "StatusFailure = ''Failure''"
definition StatusSuccess :: string where "StatusSuccess = ''Success''"
definition PatchTypeJSONPatch :: string where "PatchTypeJSONPatch = ''JSONPatch''"

definition admission_response :: "('op list \<Rightarrow> go_error + string) \<Rightarrow> AdmissionRequest option \<Rightarrow> go_error option
    \<Rightarrow> 'op list \<Rightarrow> AdmissionResponse outcome" where
  "admission_response marshal_patch r err patch =
     (case r of
        None \<Rightarrow> Panic nil_deref
      | Some r \<Rightarrow>
          (let response = \<lparr>as_UID = ar_UID r, as_Allowed = False, as_Result = None, as_PatchType = None, as_Patch = None\<rparr>;
               (patchBytes, err) =
                 (if err = None \<and> patch \<noteq> [] then
                    (case marshal_patch patch of Inl e \<Rightarrow> (None, Some e) | Inr b \<Rightarrow> (Some b, None))
                  else (None, err))
           in Ret (case err of
                Some e \<Rightarrow> response\<lparr>as_Allowed := False, as_Result := Some \<lparr>sr_Status = StatusFailure, sr_Message = error_text e\<rparr>\<rparr>
              | None \<Rightarrow>
                  (let response = response\<lparr>as_Allowed := True, as_Result := Some \<lparr>sr_Status = StatusSuccess, sr_Message = []\<rparr>\<rparr>
                   in case patchBytes of
                        None \<Rightarrow> response
                      | Some b \<Rightarrow> response\<lparr>as_PatchType := Some PatchTypeJSONPatch, as_Patch := Some b\<rparr>))))"

section \<open>The review handler\<close>

text \<open>
  \<open>http.Error\<close> sets the headers of a text answer, writes the status and the message with a line
  end. The body of a request is missing, fails to be read, or is read; \<open>review\<close> stands for what
  an admission review holds beside its request and response.
\<close>

record 'a AdmissionReview =
  rv_Request :: "AdmissionRequest option"
  rv_Response :: "AdmissionResponse option"
  rv_other :: 'a

record 'a review_json =
  unmarshal_review :: "string \<Rightarrow> go_error + 'a AdmissionReview"
  marshal_review :: "'a AdmissionReview \<Rightarrow> go_error + string"

record review_request =
  rr_Body :: "(go_error + string) option"
  rr_ContentType :: string

definition HttpError :: "go_error \<Rightarrow> int64 \<Rightarrow> ('id, 'x) http_world \<Rightarrow> ('id, 'x) http_world" where
  "HttpError err code w =
     (let w = header_Set ''Content-Type'' ''text/plain; charset=utf-8'' w;
          w = header_Set ''X-Content-Type-Options'' ''nosniff'' w;
          w = fst (WriteHeader code w)
      in Write (error_text err @ [CHR 0x0A]) w)"

definition AdmissionReview_handler :: "'a review_json \<Rightarrow> (AdmissionRequest option \<Rightarrow> AdmissionResponse outcome)
    \<Rightarrow> go_error option \<Rightarrow> review_request \<Rightarrow> ('id, 'x) http_world \<Rightarrow> ('id, 'x) http_world outcome" where
  "AdmissionReview_handler J inner_handler write_err r w =
     (case rr_Body r of
        None \<Rightarrow> Ret (HttpError (Errorf ''empty body'') 400 w)
      | Some (Inl err) \<Rightarrow> Ret (HttpError err 400 w)
      | Some (Inr body) \<Rightarrow>
          (if rr_ContentType r \<noteq> ''application/json'' then Ret (HttpError (Errorf ''invalid Content-Type'') 415 w)
           else (case unmarshal_review J body of
                   Inl err \<Rightarrow> Ret (HttpError err 417 w)
                 | Inr admissionReview \<Rightarrow>
                     bind_outcome (inner_handler (rv_Request admissionReview)) (\<lambda>admissionResponse.
                       case marshal_review J (admissionReview\<lparr>rv_Response := Some admissionResponse\<rparr>) of
                         Inl err \<Rightarrow> Ret (HttpError err 500 w)
                       | Inr responseJSON \<Rightarrow>
                           (let w = header_Set ''Content-Type'' ''application/json; charset=utf-8'' w;
                                w = Write responseJSON w
                            in case write_err of None \<Rightarrow> Ret w | Some err \<Rightarrow> Ret (HttpError err 500 w))))))"

section \<open>Sidecar injection\<close>

text \<open>
  A pod is its containers, volumes and pull secrets, and the rest. A sidecar file may hold a null
  document, which is no sidecar.
\<close>

record ('c, 'v, 'r) Sidecar =
  sc_InitContainers :: "'c list"
  sc_Containers :: "'c list"
  sc_Volumes :: "'v list"
  sc_ImagePullSecrets :: "'r list"

record ('c, 'v, 'r, 'p) Pod =
  pod_InitContainers :: "'c list"
  pod_Containers :: "'c list"
  pod_Volumes :: "'v list"
  pod_ImagePullSecrets :: "'r list"
  pod_other :: 'p

definition sidecar_Load :: "(string \<Rightarrow> go_error + string) \<Rightarrow> (string \<Rightarrow> go_error + ('c, 'v, 'r) Sidecar option)
    \<Rightarrow> string \<Rightarrow> go_error + ('c, 'v, 'r) Sidecar option" where
  "sidecar_Load ReadFile UnmarshalStrict file =
     (case ReadFile file of
        Inl err \<Rightarrow> Inl err
      | Inr data \<Rightarrow> (case UnmarshalStrict data of Inl err \<Rightarrow> Inl err | Inr sidecar \<Rightarrow> Inr sidecar))"

definition Inject :: "('c, 'v, 'r, 'p) Pod \<Rightarrow> ('c, 'v, 'r) Sidecar option \<Rightarrow> ('c, 'v, 'r, 'p) Pod" where
  "Inject pod sidecar =
     (case sidecar of
        None \<Rightarrow> pod
      | Some s \<Rightarrow> pod\<lparr>pod_ImagePullSecrets := pod_ImagePullSecrets pod @ sc_ImagePullSecrets s,
                      pod_InitContainers := pod_InitContainers pod @ sc_InitContainers s,
                      pod_Containers := pod_Containers pod @ sc_Containers s,
                      pod_Volumes := pod_Volumes pod @ sc_Volumes s\<rparr>)"

record ('c, 'v, 'r, 'p, 'op) pod_json =
  unmarshal_pod :: "string \<Rightarrow> go_error + ('c, 'v, 'r, 'p) Pod"
  marshal_pod :: "('c, 'v, 'r, 'p) Pod \<Rightarrow> go_error + string"
  CreatePatch :: "string \<Rightarrow> string \<Rightarrow> go_error + 'op list"
  marshal_ops :: "'op list \<Rightarrow> go_error + string"

definition mutate :: "('c, 'v, 'r, 'p, 'op) pod_json \<Rightarrow> ('c, 'v, 'r) Sidecar option \<Rightarrow> AdmissionRequest option
    \<Rightarrow> AdmissionResponse outcome" where
  "mutate J scar r =
     (case r of
        None \<Rightarrow> Panic nil_deref
      | Some req \<Rightarrow>
          (case unmarshal_pod J (ar_Object req) of
             Inl err \<Rightarrow> admission_response (marshal_ops J) r (Some err) []
           | Inr pod \<Rightarrow>
               (let pod = Inject pod scar
                in case marshal_pod J pod of
                     Inl err \<Rightarrow> admission_response (marshal_ops J) r (Some err) []
                   | Inr data \<Rightarrow>
                       (case CreatePatch J (ar_Object req) data of
                          Inl err \<Rightarrow> admission_response (marshal_ops J) r (Some err) []
                        | Inr patch \<Rightarrow> admission_response (marshal_ops J) r None patch))))"

text \<open>The routes of the sidecar injector, which runs over TLS when it has both files.\<close>

definition sidecar_routes :: "'a review_json \<Rightarrow> ('c, 'v, 'r, 'p, 'op) pod_json \<Rightarrow> ('c, 'v, 'r) Sidecar option \<Rightarrow> go_error option
    \<Rightarrow> review_request \<Rightarrow> (string \<times> (('id, 'x) http_world \<Rightarrow> ('id, 'x) http_world outcome)) list" where
  "sidecar_routes J P scar write_err r =
     [(''GET /livez'', \<lambda>w. Ret (fst (Healthy probe_True w))),
      (''GET /readyz'', \<lambda>w. Ret (fst (Ready probe_True w))),
      (''/mutate'', AdmissionReview_handler J (mutate P scar) write_err r)]"

definition sidecar_server_run :: "string \<Rightarrow> string \<Rightarrow> server_run \<Rightarrow> server_run \<Rightarrow> bool" where
  "sidecar_server_run certFile keyFile = RunHttp certFile keyFile"

section \<open>Validation of policies\<close>

text \<open>
  The compile functions of the validation webhooks check only policies of their own mode, without
  exceptions; the validator turns the errors into one invalid-object error.
\<close>

definition vpolCompileFunc :: "string \<Rightarrow> ('e, 'ast, 'in, 'v) cel_compiler \<Rightarrow> ValidatingPolicy \<Rightarrow> field_error list outcome" where
  "vpolCompileFunc mode C policy =
     (if vp_evaluationMode policy = mode then bind_outcome (Compile C policy []) (\<lambda>(_, err). Ret err)
      else Ret [])"

definition envoy_vpolCompileFunc :: "('e, 'ast, 'in, 'v) cel_compiler \<Rightarrow> ValidatingPolicy \<Rightarrow> field_error list outcome" where
  "envoy_vpolCompileFunc = vpolCompileFunc EvaluationModeEnvoy"

definition http_vpolCompileFunc :: "('e, 'ast, 'in, 'v) cel_compiler \<Rightarrow> ValidatingPolicy \<Rightarrow> field_error list outcome" where
  "http_vpolCompileFunc = vpolCompileFunc EvaluationModeHTTP"

type_synonym invalid_error = "string \<times> string \<times> field_error list"

definition validateVpol :: "(ValidatingPolicy \<Rightarrow> field_error list outcome) \<Rightarrow> ValidatingPolicy \<Rightarrow> invalid_error option outcome" where
  "validateVpol compileVpol policy =
     bind_outcome (compileVpol policy) (\<lambda>allErrs.
       Ret (if length allErrs > 0 then Some (''ValidatingPolicy'', vp_name policy, allErrs) else None))"

definition ValidateCreate :: "(ValidatingPolicy \<Rightarrow> field_error list outcome) \<Rightarrow> ValidatingPolicy
    \<Rightarrow> (string list \<times> invalid_error option) outcome" where
  "ValidateCreate compileVpol obj = bind_outcome (validateVpol compileVpol obj) (\<lambda>err. Ret ([], err))"

definition ValidateUpdate :: "(ValidatingPolicy \<Rightarrow> field_error list outcome) \<Rightarrow> ValidatingPolicy \<Rightarrow> ValidatingPolicy
    \<Rightarrow> (string list \<times> invalid_error option) outcome" where
  "ValidateUpdate compileVpol oldObj newObj = bind_outcome (validateVpol compileVpol newObj) (\<lambda>err. Ret ([], err))"

definition ValidateDelete :: "ValidatingPolicy \<Rightarrow> (string list \<times> invalid_error option) outcome" where
  "ValidateDelete obj = Ret ([], None)"

section \<open>Lemmas\<close>

text \<open>Each way a review can fail has its status; a review without a request panics.\<close>

lemma HttpError_status:
  "w_Status w = None \<Longrightarrow> 200 \<le> sint code \<Longrightarrow> sint code \<le> 999 \<Longrightarrow> w_Status (HttpError err code w) = Some code"
  by (simp add: HttpError_def Let_def header_Set_def WriteHeader_def Write_def statusMin_def statusMax_def)

lemma review_status:
  assumes "w_Status w = None"
  shows "rr_Body r = None \<Longrightarrow> \<exists>w'. AdmissionReview_handler J f e r w = Ret w' \<and> w_Status w' = Some 400"
    and "rr_Body r = Some (Inl err) \<Longrightarrow> \<exists>w'. AdmissionReview_handler J f e r w = Ret w' \<and> w_Status w' = Some 400"
    and "rr_Body r = Some (Inr body) \<Longrightarrow> rr_ContentType r \<noteq> ''application/json'' \<Longrightarrow>
      \<exists>w'. AdmissionReview_handler J f e r w = Ret w' \<and> w_Status w' = Some 415"
    and "rr_Body r = Some (Inr body) \<Longrightarrow> rr_ContentType r = ''application/json'' \<Longrightarrow> unmarshal_review J body = Inl err \<Longrightarrow>
      \<exists>w'. AdmissionReview_handler J f e r w = Ret w' \<and> w_Status w' = Some 417"
  using assms by (auto simp: AdmissionReview_handler_def HttpError_status)

lemma review_answers:
  assumes "w_Status w = None" "rr_Body r = Some (Inr body)" "rr_ContentType r = ''application/json''"
    and "unmarshal_review J body = Inr rv" "f (rv_Request rv) = Ret resp"
    and "marshal_review J (rv\<lparr>rv_Response := Some resp\<rparr>) = Inr out"
  shows "\<exists>w'. AdmissionReview_handler J f None r w = Ret w' \<and> w_Status w' = Some 200 \<and> w_Body w' = w_Body w @ out"
  using assms by (simp add: AdmissionReview_handler_def Let_def header_Set_def Write_def bodyAllowedForStatus_def)

lemma review_without_request_panics:
  assumes "rr_Body r = Some (Inr body)" "rr_ContentType r = ''application/json''"
    and "unmarshal_review J body = Inr rv" "rv_Request rv = None"
  shows "AdmissionReview_handler J (mutate P scar) e r w = Panic nil_deref"
  using assms by (simp add: AdmissionReview_handler_def mutate_def)

text \<open>A denial carries the failure and no patch.\<close>

lemma admission_response_error:
  "admission_response f (Some r) (Some err) patch =
     Ret \<lparr>as_UID = ar_UID r, as_Allowed = False,
       as_Result = Some \<lparr>sr_Status = StatusFailure, sr_Message = error_text err\<rparr>, as_PatchType = None, as_Patch = None\<rparr>"
  by (simp add: admission_response_def)

lemma admission_response_patch:
  "admission_response f (Some r) None patch =
     (if patch = [] then Ret \<lparr>as_UID = ar_UID r, as_Allowed = True,
        as_Result = Some \<lparr>sr_Status = StatusSuccess, sr_Message = []\<rparr>, as_PatchType = None, as_Patch = None\<rparr>
      else (case f patch of
        Inl err \<Rightarrow> admission_response f (Some r) (Some err) patch
      | Inr b \<Rightarrow> Ret \<lparr>as_UID = ar_UID r, as_Allowed = True,
          as_Result = Some \<lparr>sr_Status = StatusSuccess, sr_Message = []\<rparr>,
          as_PatchType = Some PatchTypeJSONPatch, as_Patch = Some b\<rparr>))"
  by (auto simp: admission_response_def split: sum.split)

text \<open>
  The validator answers for every policy, and accepts one exactly when it is of another mode or
  compiles. A policy it accepted never yields errors at runtime, whatever its exceptions.
\<close>

lemma Compile_without_exceptions: "\<exists>cp errs. Compile C policy [] = Ret (cp, errs)"
  by (auto simp: Compile_by_front split: sum.split)

lemma validator_accepts_iff:
  "ValidateCreate (vpolCompileFunc mode C) policy = Ret ([], None) \<longleftrightarrow>
     vp_evaluationMode policy \<noteq> mode \<or> (\<exists>cp. Compile C policy [] = Ret (cp, []))"
  using Compile_without_exceptions [of C policy]
  by (auto simp: ValidateCreate_def validateVpol_def vpolCompileFunc_def split: if_splits)

lemma validator_returns:
  "returns (ValidateCreate (vpolCompileFunc mode C) policy)"
  "returns (ValidateUpdate (vpolCompileFunc mode C) old policy)"
  using Compile_without_exceptions [of C policy]
  by (auto simp: ValidateCreate_def ValidateUpdate_def validateVpol_def vpolCompileFunc_def)

lemma validated_policy_has_no_errors:
  assumes "ValidateCreate (vpolCompileFunc (vp_evaluationMode policy) C) policy = Ret ([], None)"
  shows "(\<exists>cp. Compile C policy exs = Ret (cp, [])) \<or> Compile C policy exs = Panic nil_deref"
proof -
  from assms obtain cp where "Compile C policy [] = Ret (cp, [])" by (auto simp: validator_accepts_iff)
  then obtain env pr pr' mcs vars rs where "compile_front C policy = Inr (env, pr, pr', mcs, vars, rs)"
    by (rule Compile_ok_front)
  then show ?thesis by (simp add: Compile_by_front)
qed

section \<open>Properties\<close>


text \<open>A sample codec with one pod, its injection and patches that replace the whole document.\<close>

definition sample_pod :: "(string, string, string, string) Pod" where
  "sample_pod = \<lparr>pod_InitContainers = [], pod_Containers = [''app''], pod_Volumes = [''data''],
     pod_ImagePullSecrets = [], pod_other = ''default''\<rparr>"

definition sample_sidecar :: "(string, string, string) Sidecar" where
  "sample_sidecar = \<lparr>sc_InitContainers = [''setup''], sc_Containers = [''authz''], sc_Volumes = [''policies''],
     sc_ImagePullSecrets = [''registry'']\<rparr>"

definition sample_injected :: "(string, string, string, string) Pod" where
  "sample_injected = \<lparr>pod_InitContainers = [''setup''], pod_Containers = [''app'', ''authz''],
     pod_Volumes = [''data'', ''policies''], pod_ImagePullSecrets = [''registry''], pod_other = ''default''\<rparr>"

definition sample_pod_json :: "(string, string, string, string, string) pod_json" where
  "sample_pod_json = \<lparr>
     unmarshal_pod = (\<lambda>d. if d = ''pod'' then Inr sample_pod
        else if d = ''injected'' then Inr sample_injected else Inl (Errorf ''invalid'')),
     marshal_pod = (\<lambda>p. if p = sample_injected then Inr ''injected'' else if p = sample_pod then Inr ''pod''
        else Inl (Errorf ''unsupported'')),
     CreatePatch = (\<lambda>a b. Inr (if a = b then [] else [b])),
     marshal_ops = (\<lambda>ops. Inr (concat ops))\<rparr>"


end
