(* ===== verification/TokenLib.thy ===== *)
theory TokenLib
  imports CelLib
begin

text \<open>
  The CEL libraries for JSON web tokens, key sets and JSON (\<open>pkg/cel/libs/jwt\<close>,
  \<open>pkg/cel/libs/jwk\<close>, \<open>pkg/cel/libs/json\<close>, \<open>pkg/cel/impl/json.go\<close>). Keys, tokens and
  protobuf structs are those of the packages the libraries call, as far as the code observes
  them; \<open>struct_law\<close> is what is relied on of protobuf structs, which hold only valid UTF-8.
\<close>

section \<open>Claims\<close>

text \<open>
  A claim as the token package hands it out, and a field as it is put into the struct: a time
  becomes its Unix seconds, and a list of strings a list of untyped values (the nil slice when it
  is empty) where the code converts it.
\<close>

datatype 'x go_claim = ClaimTime int | ClaimStrings "string list" | ClaimOther 'x

datatype 'x claim_field = FieldInt int | FieldStrings "string list" | FieldUntyped "string list option" | FieldOther 'x

text \<open>
  The packages: importing a key, building a set, parsing a token against a set (which verifies
  its signature), its claims, its validation (expiry and the like), and building a struct.
\<close>

record ('key, 'set, 'tok, 'x, 'st) jwt_package =
  ImportKey :: "string \<Rightarrow> go_error + 'key"
  NewSet :: 'set
  AddKey :: "'set \<Rightarrow> 'key \<Rightarrow> go_error + 'set"
  ParseToken :: "string \<Rightarrow> 'set \<Rightarrow> go_error + 'tok"
  Keys :: "'tok \<Rightarrow> string list"
  GetClaim :: "'tok \<Rightarrow> string \<Rightarrow> go_error + 'x go_claim"
  Validate :: "'tok \<Rightarrow> go_error option"
  NewStruct :: "(string \<rightharpoonup> 'x claim_field) \<Rightarrow> go_error + 'st"
  FetchSet :: "string \<Rightarrow> go_error + 'set"

record 'st Token =
  Claims :: "'st option"
  Valid :: bool

record ('v, 'set, 'st) token_adapter = "'v adapter" +
  native_set :: "'v \<Rightarrow> go_error + 'set"
  of_set :: "'set \<Rightarrow> 'v"
  of_token :: "'st Token \<Rightarrow> 'v"

section \<open>Decoding tokens\<close>

fun field_string_key :: "'x go_claim \<Rightarrow> 'x claim_field" where
  "field_string_key (ClaimTime t) = FieldInt t"
| "field_string_key (ClaimStrings ss) = FieldStrings ss"
| "field_string_key (ClaimOther x) = FieldOther x"

fun field_key_set :: "'x go_claim \<Rightarrow> 'x claim_field" where
  "field_key_set (ClaimTime t) = FieldInt t"
| "field_key_set (ClaimStrings ss) = FieldUntyped (if ss = [] then None else Some ss)"
| "field_key_set (ClaimOther x) = FieldOther x"

fun claim_fields :: "('key, 'set, 'tok, 'x, 'st) jwt_package \<Rightarrow> ('x go_claim \<Rightarrow> 'x claim_field) \<Rightarrow> 'tok \<Rightarrow> string list
    \<Rightarrow> (string \<rightharpoonup> 'x claim_field) \<Rightarrow> go_error + (string \<rightharpoonup> 'x claim_field)" where
  "claim_fields P field tok [] fs = Inr fs"
| "claim_fields P field tok (key # keys) fs =
     (case GetClaim P tok key of
        Inl err \<Rightarrow> Inl err
      | Inr claim \<Rightarrow> claim_fields P field tok keys (fs(key \<mapsto> field claim)))"

definition token_claims :: "('key, 'set, 'tok, 'x, 'st) jwt_package \<Rightarrow> ('x go_claim \<Rightarrow> 'x claim_field) \<Rightarrow> 'tok
    \<Rightarrow> go_error + 'st option" where
  "token_claims P field tok =
     (let keys = Keys P tok
      in if length keys > 0 then
           (case claim_fields P field tok keys Map.empty of
              Inl err \<Rightarrow> Inl err
            | Inr fs \<Rightarrow>
                (case NewStruct P fs of Inl err \<Rightarrow> Inl err | Inr encoded \<Rightarrow> Inr (Some encoded)))
         else Inr None)"

definition decode_string_string :: "('v, 'set, 'st) token_adapter \<Rightarrow> ('key, 'set, 'tok, 'x, 'st) jwt_package
    \<Rightarrow> 'v \<Rightarrow> 'v \<Rightarrow> 'v outcome" where
  "decode_string_string A P token key =
     convert A (native_string A token) (\<lambda>token.
     convert A (native_string A key) (\<lambda>key.
     convert A (ImportKey P key) (\<lambda>key.
     convert A (AddKey P (NewSet P) key) (\<lambda>keyset.
     convert A (ParseToken P token keyset) (\<lambda>tok.
     convert A (token_claims P field_string_key tok) (\<lambda>claims.
       Ret (of_token A \<lparr>Claims = claims, Valid = (Validate P tok = None)\<rparr>)))))))"

definition decode_string_set :: "('v, 'set, 'st) token_adapter \<Rightarrow> ('key, 'set, 'tok, 'x, 'st) jwt_package
    \<Rightarrow> 'v \<Rightarrow> 'v \<Rightarrow> 'v outcome" where
  "decode_string_set A P token keyset =
     convert A (native_string A token) (\<lambda>token.
     convert A (native_set A keyset) (\<lambda>keyset.
     convert A (ParseToken P token keyset) (\<lambda>tok.
     convert A (token_claims P field_key_set tok) (\<lambda>claims.
       Ret (of_token A \<lparr>Claims = claims, Valid = (Validate P tok = None)\<rparr>)))))"

section \<open>Key sets\<close>

definition fetch :: "('v, 'set, 'st) token_adapter \<Rightarrow> ('key, 'set, 'tok, 'x, 'st) jwt_package \<Rightarrow> 'v \<Rightarrow> 'v outcome" where
  "fetch A P from_url =
     convert A (native_string A from_url) (\<lambda>from_url.
     convert A (FetchSet P from_url) (\<lambda>keyset. Ret (of_set A keyset)))"

section \<open>JSON\<close>

text \<open>A \<open>Json\<close> value wraps an implementation, which is an interface and may be nil.\<close>

type_synonym 'j Json = "(string \<Rightarrow> go_error + 'j) option"

definition JsonImpl_Unmarshal :: "(string \<Rightarrow> go_error + 'j) \<Rightarrow> string \<Rightarrow> go_error + 'j" where
  "JsonImpl_Unmarshal json_Unmarshal content =
     (case json_Unmarshal content of Inl err \<Rightarrow> Inl err | Inr v \<Rightarrow> Inr v)"

record ('v, 'j) json_adapter = "'v adapter" +
  native_json :: "'v \<Rightarrow> go_error + 'j Json"
  of_json :: "'j \<Rightarrow> 'v"

definition unmarshal :: "('v, 'j) json_adapter \<Rightarrow> 'v \<Rightarrow> 'v \<Rightarrow> 'v outcome" where
  "unmarshal A json val =
     convert A (native_json A json) (\<lambda>json.
     convert A (native_string A val) (\<lambda>val.
       case json of
         None \<Rightarrow> Panic nil_deref
       | Some impl \<Rightarrow> convert A (impl val) (\<lambda>v. Ret (of_json A v))))"

section \<open>The libraries\<close>

definition SetType :: cel_type where "SetType = OpaqueType ''jwk.Set''"
definition TokenType :: cel_type where "TokenType = ObjectType ''jwt.Token''"
definition JsonType :: cel_type where "JsonType = OpaqueType ''json.Json''"

definition jwt_LibraryName :: string where "jwt_LibraryName = ''kyverno.jwt''"
definition jwk_LibraryName :: string where "jwk_LibraryName = ''kyverno.jwk''"
definition json_LibraryName :: string where "json_LibraryName = ''kyverno.json''"

definition jwt_decls :: "('v, 'set, 'st) token_adapter \<Rightarrow> ('key, 'set, 'tok, 'x, 'st) jwt_package \<Rightarrow> ('v, 'v outcome) lib_decls" where
  "jwt_decls A P =
     [(''jwt.Decode'',
        [Overload ''decode_string_string'' [StringType, StringType] TokenType (Binary (decode_string_string A P)),
         Overload ''decode_string_set'' [StringType, SetType] TokenType (Binary (decode_string_set A P))])]"

definition jwk_decls :: "('v, 'set, 'st) token_adapter \<Rightarrow> ('key, 'set, 'tok, 'x, 'st) jwt_package \<Rightarrow> ('v, 'v outcome) lib_decls" where
  "jwk_decls A P = [(''jwks.Fetch'', [Overload ''fetch_string'' [StringType] SetType (Unary (fetch A P))])]"

definition json_decls :: "('v, 'j) json_adapter \<Rightarrow> ('v, 'v outcome) lib_decls" where
  "json_decls A =
     [(''Unmarshal'', [MemberOverload ''unmarshal_string_dyn'' [JsonType, DynType] DynType (Binary (unmarshal A))])]"

text \<open>The variable \<open>json\<close> is bound to the implementation the library was built with.\<close>

definition json_globals :: "'j Json \<Rightarrow> (string \<times> 'j Json) list" where
  "json_globals impl = [(''json'', impl)]"

lemma token_decls_ok: "decls_ok (jwt_decls A P)" "decls_ok (jwk_decls A P)" "decls_ok (json_decls J)"
  by (simp_all add: decl_simps jwt_decls_def jwk_decls_def json_decls_def SetType_def)

section \<open>Lemmas\<close>

lemma decode_returns: "returns (decode_string_string A P t k)" "returns (decode_string_set A P t s)" "returns (fetch A P u)"
  by (simp_all add: decode_string_string_def decode_string_set_def fetch_def returns_convert)

lemma unmarshal_returns: "(\<And>v. native_json A v \<noteq> Inr None) \<Longrightarrow> returns (unmarshal A j v)"
  by (auto simp: unmarshal_def returns_convert split: option.split)

text \<open>The claims of a token that can all be read, and the fields they become.\<close>

lemma claim_fields_error:
  "(\<exists>err. claim_fields P field tok keys fs = Inl err) \<longleftrightarrow> (\<exists>key \<in> set keys. \<exists>err. GetClaim P tok key = Inl err)"
  by (induction keys arbitrary: fs) (auto split: sum.split)

lemma claim_fields_ok:
  assumes "\<forall>key \<in> set keys. \<exists>c. GetClaim P tok key = Inr c"
  shows "claim_fields P field tok keys fs =
    Inr (\<lambda>key. if key \<in> set keys then Some (field (projr (GetClaim P tok key))) else fs key)"
  using assms by (induction keys arbitrary: fs) (auto simp: fun_eq_iff split: sum.splits)

lemma claim_fields_cong:
  assumes "\<forall>key \<in> set keys. \<forall>c. GetClaim P tok key = Inr c \<longrightarrow> field c = field' c"
  shows "claim_fields P field tok keys fs = claim_fields P field' tok keys fs"
  using assms by (induction keys arbitrary: fs) (auto split: sum.splits)

text \<open>
  What the documentation of \<open>structpb.NewStruct\<close> says: it fails exactly when some key is not valid
  UTF-8 or some value cannot be encoded: a value of a type it does not know, and a slice of strings is
  one, or a string that is not valid UTF-8, also inside an untyped slice. \<open>ok\<close> says which values
  of other types it encodes.
\<close>

fun encodable :: "('x \<Rightarrow> bool) \<Rightarrow> 'x claim_field \<Rightarrow> bool" where
  "encodable ok (FieldInt _) = True"
| "encodable ok (FieldStrings _) = False"
| "encodable ok (FieldUntyped ss) = (\<forall>s \<in> set (case ss of None \<Rightarrow> [] | Some ss \<Rightarrow> ss). utf8_valid s)"
| "encodable ok (FieldOther x) = ok x"

definition struct_law :: "('key, 'set, 'tok, 'x, 'st) jwt_package \<Rightarrow> ('x \<Rightarrow> bool) \<Rightarrow> bool" where
  "struct_law P ok \<longleftrightarrow> (\<forall>fs. (\<exists>st. NewStruct P fs = Inr st) \<longleftrightarrow> (\<forall>k v. fs k = Some v \<longrightarrow> utf8_valid k \<and> encodable ok v))"

text \<open>What a key set needs of a claim and its key.\<close>

fun claim_ok :: "('x \<Rightarrow> bool) \<Rightarrow> string \<Rightarrow> 'x go_claim \<Rightarrow> bool" where
  "claim_ok ok key (ClaimTime _) = utf8_valid key"
| "claim_ok ok key (ClaimStrings ss) = (utf8_valid key \<and> (\<forall>s \<in> set ss. utf8_valid s))"
| "claim_ok ok key (ClaimOther x) = (utf8_valid key \<and> ok x)"

lemma claim_ok_encodable: "claim_ok ok key c = (utf8_valid key \<and> encodable ok (field_key_set c))"
  by (cases c) auto

lemma struct_law_Inl:
  assumes "struct_law P ok" and "fs k = Some v" and "\<not> encodable ok v"
  shows "\<exists>err. NewStruct P fs = Inl err"
proof (cases "NewStruct P fs")
  case (Inr st)
  with assms(1) have "\<forall>k v. fs k = Some v \<longrightarrow> utf8_valid k \<and> encodable ok v" unfolding struct_law_def by blast
  with assms(2,3) show ?thesis by blast
qed blast

lemma string_list_not_encoded:
  assumes "struct_law P ok" and "key \<in> set (Keys P tok)" and "GetClaim P tok key = Inr (ClaimStrings ss)"
  shows "\<exists>err. token_claims P field_string_key tok = Inl err"
proof (cases "\<forall>key \<in> set (Keys P tok). \<exists>c. GetClaim P tok key = Inr c")
  case True
  let ?fs = "\<lambda>key. if key \<in> set (Keys P tok) then Some (field_string_key (projr (GetClaim P tok key))) else None"
  have "?fs key = Some (FieldStrings ss)" using assms(2,3) by simp
  with struct_law_Inl [of P ok ?fs key "FieldStrings ss"] assms(1)
  have "\<exists>err. NewStruct P ?fs = Inl err" by simp
  moreover have "Keys P tok \<noteq> []" using assms(2) by auto
  ultimately show ?thesis using claim_fields_ok [of "Keys P tok" P tok field_string_key Map.empty, OF True] by (auto simp: token_claims_def Let_def)
next
  case False
  then have "\<exists>err. claim_fields P field_string_key tok (Keys P tok) Map.empty = Inl err"
    by (metis claim_fields_error sum.exhaust)
  moreover have "Keys P tok \<noteq> []" using assms(2) by auto
  ultimately show ?thesis by (auto simp: token_claims_def Let_def)
qed

lemma claims_encoded:
  assumes "struct_law P ok"
    and "\<forall>key \<in> set (Keys P tok). \<exists>c. GetClaim P tok key = Inr c \<and> claim_ok ok key c"
  shows "\<exists>claims. token_claims P field_key_set tok = Inr claims"
proof -
  let ?fs = "\<lambda>key. if key \<in> set (Keys P tok) then Some (field_key_set (projr (GetClaim P tok key))) else None"
  have "utf8_valid key \<and> encodable ok v" if "?fs key = Some v" for key v
    using that assms(2) by (fastforce simp: claim_ok_encodable split: if_splits)
  then have "\<exists>st. NewStruct P ?fs = Inr st" using assms(1) unfolding struct_law_def by blast
  moreover have "\<forall>key \<in> set (Keys P tok). \<exists>c. GetClaim P tok key = Inr c" using assms(2) by blast
  ultimately show ?thesis
    using claim_fields_ok [of "Keys P tok" P tok field_key_set Map.empty] by (auto simp: token_claims_def Let_def)
qed

section \<open>Properties\<close>

text \<open>
  C35. The two ways to decode a token agree on tokens without string-list claims. A token with
  one (an audience, say) is never decoded with a key given as a string, while decoding it with a
  key set succeeds whenever the names of its claims and the strings of its lists are valid UTF-8 and
  its other claims can be encoded; the result then carries whether the token passed validation.
\<close>

theorem decode_differs_on_lists:
  assumes "struct_law P ok" and "native_string A t = Inr token" and "native_string A k = Inr key"
    and "ImportKey P key = Inr jk" and "AddKey P (NewSet P) jk = Inr keys" and "native_set A s = Inr keys"
    and "ParseToken P token keys = Inr tok"
  shows "((\<forall>c \<in> set (Keys P tok). \<forall>ss. GetClaim P tok c \<noteq> Inr (ClaimStrings ss)) \<longrightarrow>
        decode_string_string A P t k = decode_string_set A P t s)
    \<and> ((\<exists>c \<in> set (Keys P tok). \<exists>ss. GetClaim P tok c = Inr (ClaimStrings ss)) \<longrightarrow>
        (\<exists>err. decode_string_string A P t k = Ret (WrapErr A err)))
    \<and> ((\<forall>c \<in> set (Keys P tok). \<exists>v. GetClaim P tok c = Inr v \<and> claim_ok ok c v) \<longrightarrow>
        (\<exists>claims. decode_string_set A P t s = Ret (of_token A \<lparr>Claims = claims, Valid = (Validate P tok = None)\<rparr>)))"
proof (intro conjI impI)
  assume no: "\<forall>c \<in> set (Keys P tok). \<forall>ss. GetClaim P tok c \<noteq> Inr (ClaimStrings ss)"
  have "field_string_key c = field_key_set c" if "\<forall>ss. c \<noteq> ClaimStrings ss" for c :: "'d go_claim"
    using that by (cases c) auto
  with no have "claim_fields P field_string_key tok (Keys P tok) Map.empty = claim_fields P field_key_set tok (Keys P tok) Map.empty"
    by (intro claim_fields_cong) auto
  then have "token_claims P field_string_key tok = token_claims P field_key_set tok" by (simp add: token_claims_def Let_def)
  with assms show "decode_string_string A P t k = decode_string_set A P t s"
    by (simp add: decode_string_string_def decode_string_set_def)
next
  assume "\<exists>c \<in> set (Keys P tok). \<exists>ss. GetClaim P tok c = Inr (ClaimStrings ss)"
  with string_list_not_encoded [OF assms(1)] obtain err where "token_claims P field_string_key tok = Inl err" by blast
  with assms have "decode_string_string A P t k = Ret (WrapErr A err)" by (simp add: decode_string_string_def)
  then show "\<exists>err. decode_string_string A P t k = Ret (WrapErr A err)" ..
next
  assume "\<forall>c \<in> set (Keys P tok). \<exists>v. GetClaim P tok c = Inr v \<and> claim_ok ok c v"
  with claims_encoded [OF assms(1)] obtain claims where "token_claims P field_key_set tok = Inr claims" by blast
  with assms have "decode_string_set A P t s = Ret (of_token A \<lparr>Claims = claims, Valid = (Validate P tok = None)\<rparr>)"
    by (simp add: decode_string_set_def)
  then show "\<exists>claims. decode_string_set A P t s = Ret (of_token A \<lparr>Claims = claims, Valid = (Validate P tok = None)\<rparr>)" ..
qed

text \<open>A package with one token, which has an audience list.\<close>

datatype token_value = TvString string | TvSet nat | TvToken "(string \<rightharpoonup> string claim_field) Token" | TvErr go_error

definition sample_token_adapter :: "(token_value, nat, string \<rightharpoonup> string claim_field) token_adapter" where
  "sample_token_adapter =
    \<lparr>native_string = (\<lambda>v. case v of TvString s \<Rightarrow> Inr s | _ \<Rightarrow> Inl (Errorf ''not a string'')),
     native_int = (\<lambda>v. Inl (Errorf ''not an int'')), native_boolean = (\<lambda>v. Inl (Errorf ''not a bool'')),
     of_string = TvString, of_strings = (\<lambda>_. TvString []), WrapErr = TvErr,
     native_set = (\<lambda>v. case v of TvSet n \<Rightarrow> Inr n | _ \<Rightarrow> Inl (Errorf ''not a set'')), of_set = TvSet, of_token = TvToken\<rparr>"

definition sample_jwt_package :: "(nat, nat, unit, string, string \<rightharpoonup> string claim_field) jwt_package" where
  "sample_jwt_package =
    \<lparr>ImportKey = (\<lambda>k. Inr (length k)), NewSet = 0, AddKey = (\<lambda>s k. Inr (s + k)),
     ParseToken = (\<lambda>t s. if s = 3 then Inr () else Inl (Errorf ''could not verify message'')),
     Keys = (\<lambda>_. [''aud'', ''exp'']),
     GetClaim = (\<lambda>_ key. if key = ''aud'' then Inr (ClaimStrings [''api'']) else Inr (ClaimTime 2241081539)),
     Validate = (\<lambda>_. None),
     NewStruct = (\<lambda>fs. if \<forall>k v. fs k = Some v \<longrightarrow> utf8_valid k \<and> encodable utf8_valid v then Inr fs else Inl (Errorf ''invalid type'')),
     FetchSet = (\<lambda>_. Inr 3)\<rparr>"

theorem decode_differs_on_lists_witness:
  "(\<exists>err. decode_string_string sample_token_adapter sample_jwt_package (TvString ''t'') (TvString ''key'') = Ret (TvErr err))
   \<and> (\<exists>claims. decode_string_set sample_token_adapter sample_jwt_package (TvString ''t'') (TvSet 3)
        = Ret (TvToken \<lparr>Claims = claims, Valid = True\<rparr>))"
proof -
  let ?P = sample_jwt_package and ?A = sample_token_adapter
  have law: "struct_law ?P utf8_valid" by (simp add: struct_law_def sample_jwt_package_def)
  have args: "native_string ?A (TvString ''t'') = Inr ''t''" "native_string ?A (TvString ''key'') = Inr ''key''"
    "ImportKey ?P ''key'' = Inr 3" "AddKey ?P (NewSet ?P) 3 = Inr 3" "native_set ?A (TvSet 3) = Inr 3"
    "ParseToken ?P ''t'' 3 = Inr ()"
    by (simp_all add: sample_token_adapter_def sample_jwt_package_def)
  have claims: "\<exists>c \<in> set (Keys ?P ()). \<exists>ss. GetClaim ?P () c = Inr (ClaimStrings ss)"
    "\<forall>c \<in> set (Keys ?P ()). \<exists>v. GetClaim ?P () c = Inr v \<and> claim_ok utf8_valid c v"
    by (simp_all add: sample_jwt_package_def utf8_valid_ascii)
  have "Validate ?P () = None" "WrapErr ?A = TvErr" "of_token ?A = TvToken"
    by (simp_all add: sample_jwt_package_def sample_token_adapter_def)
  with decode_differs_on_lists [OF law args] claims show ?thesis by simp
qed

end
