(* ===== verification/Registry.thy ===== *)
theory Registry
  imports Prelude
begin

text \<open>
  OCI registries as policy sources (\<open>pkg/utils/ocifs\<close>): the credentials a registry is read
  with (\<open>authn.go\<close>) and the file system of an image (\<open>oci.go\<close>). Keychains are named, not
  run; the registry client, the tar file system and the Kubernetes API are parameters.
\<close>

section \<open>Credentials\<close>

text \<open>
  The keychains in the order they are asked. The last one reads the pull secrets anew at every
  resolution.
\<close>

datatype 'l keychain =
    ACRHelper
  | GoogleKeychain
  | DefaultKeychain
  | GithubKeychain
  | ECRHelper
  | AutoRefreshSecrets 'l "string list"

datatype name_option = Insecure

datatype 'l remote_option = WithAuthFromKeychains "'l keychain list"

definition NewAutoRefreshSecretsKeychain :: "'l \<Rightarrow> string list \<Rightarrow> go_error + 'l keychain" where
  "NewAutoRefreshSecretsKeychain lister imagePullSecrets = Inr (AutoRefreshSecrets lister imagePullSecrets)"

definition RegistryOpts :: "'l \<Rightarrow> bool \<Rightarrow> string list \<Rightarrow> go_error + 'l remote_option list \<times> name_option list" where
  "RegistryOpts lister insecure secrets =
     (let keychains = [ACRHelper, GoogleKeychain, DefaultKeychain, GithubKeychain, ECRHelper];
          nOpts = (if insecure then [Insecure] else [])
      in if length secrets \<noteq> 0 then
           (case NewAutoRefreshSecretsKeychain lister secrets of
              Inl err \<Rightarrow> Inl err
            | Inr secretsKc \<Rightarrow> Inr ([WithAuthFromKeychains (keychains @ [secretsKc])], nOpts))
         else Inr ([WithAuthFromKeychains keychains], nOpts))"

fun get_secrets :: "(string \<Rightarrow> go_error + 's) \<Rightarrow> string list \<Rightarrow> 's list \<Rightarrow> go_error + 's list" where
  "get_secrets Get [] secrets = Inr secrets"
| "get_secrets Get (imagePullSecret # rest) secrets =
     (case Get imagePullSecret of
        Inr secret \<Rightarrow> get_secrets Get rest (secrets @ [secret])
      | Inl err \<Rightarrow> if \<not> is_not_found err then Inl err else get_secrets Get rest secrets)"

definition generateKeyChainForPullSecrets :: "(string \<Rightarrow> go_error + 's) \<Rightarrow> ('s list \<Rightarrow> go_error + 'k) \<Rightarrow> string list \<Rightarrow> go_error + 'k" where
  "generateKeyChainForPullSecrets Get NewFromPullSecrets imagePullSecrets =
     (case get_secrets Get imagePullSecrets [] of
        Inl err \<Rightarrow> Inl err
      | Inr secrets \<Rightarrow> NewFromPullSecrets secrets)"

definition resolve_secrets :: "(string \<Rightarrow> go_error + 's) \<Rightarrow> ('s list \<Rightarrow> go_error + 'k) \<Rightarrow> ('k \<Rightarrow> 'r \<Rightarrow> go_error + 'a)
    \<Rightarrow> string list \<Rightarrow> 'r \<Rightarrow> go_error + 'a" where
  "resolve_secrets Get NewFromPullSecrets Resolve imagePullSecrets resource =
     (case generateKeyChainForPullSecrets Get NewFromPullSecrets imagePullSecrets of
        Inl err \<Rightarrow> Inl err
      | Inr keychain \<Rightarrow> Resolve keychain resource)"

section \<open>Paths\<close>

text \<open>
  \<open>io/fs.ValidPath\<close>: UTF-8, unrooted and slash-separated, without empty, \<open>.\<close> or \<open>..\<close> elements,
  except that the root is \<open>.\<close>; \<open>path_elems\<close> splits at the slashes as its loop does.
\<close>

fun path_elems :: "string \<Rightarrow> string list" where
  "path_elems [] = [[]]"
| "path_elems (c # cs) = (if c = CHR ''/'' then [] # path_elems cs
     else (case path_elems cs of e # es \<Rightarrow> (c # e) # es | [] \<Rightarrow> [[c]]))"

definition ValidPath :: "(string \<Rightarrow> bool) \<Rightarrow> string \<Rightarrow> bool" where
  "ValidPath utf8_ValidString name \<longleftrightarrow>
     utf8_ValidString name \<and>
     (name = ''.'' \<or> list_all (\<lambda>elem. elem \<noteq> [] \<and> elem \<noteq> ''.'' \<and> elem \<noteq> ''..'') (path_elems name))"

section \<open>The file system of an image\<close>

datatype path_error = PathError string string go_error

definition ErrInvalid :: go_error where
  "ErrInvalid = Errorf ''invalid argument''"

record oci_url =
  u_Host :: string
  u_Path :: string
  u_String :: string

record ('ref, 'img, 'tar, 'l) oci_client =
  ParseReference :: "string \<Rightarrow> name_option list \<Rightarrow> go_error + 'ref"
  remote_Image :: "'ref \<Rightarrow> 'l remote_option list \<Rightarrow> go_error + 'img"
  Extract_tarfs :: "'img \<Rightarrow> go_error + 'tar"
  tar_Open :: "'tar \<Rightarrow> string \<Rightarrow> go_error + string"

text \<open>A context is a value the code only stores; nil is \<open>None\<close>.\<close>

record ('img, 'tar, 'l, 'ctx) ociFS =
  f_ctx :: 'ctx
  f_repo :: oci_url
  f_img :: "'img option"
  f_nOpts :: "name_option list"
  f_rOpts :: "'l remote_option list"
  f_tarFS :: "'tar option"

definition oci_URL :: "('img, 'tar, 'l, 'ctx) ociFS \<Rightarrow> string" where
  "oci_URL f = u_String (f_repo f)"

definition fetchManifest :: "('ref, 'img, 'tar, 'l) oci_client \<Rightarrow> ('img, 'tar, 'l, 'ctx) ociFS
    \<Rightarrow> go_error + 'img \<times> ('img, 'tar, 'l, 'ctx) ociFS" where
  "fetchManifest K f =
     (case ParseReference K (u_Host (f_repo f) @ u_Path (f_repo f)) (f_nOpts f) of
        Inl err \<Rightarrow> Inl err
      | Inr repoRef \<Rightarrow>
          (case remote_Image K repoRef (f_rOpts f) of
             Inl err \<Rightarrow> Inl err
           | Inr img \<Rightarrow> Inr (img, f\<lparr>f_img := Some img\<rparr>)))"

definition oci_New :: "('ref, 'img, 'tar, 'l) oci_client \<Rightarrow> 'ctx \<Rightarrow> oci_url \<Rightarrow> name_option list \<Rightarrow> 'l remote_option list
    \<Rightarrow> go_error + ('img, 'tar, 'l, 'ctx) ociFS" where
  "oci_New K background u nOpts rOpts =
     (let fsys = \<lparr>f_ctx = background, f_repo = u, f_img = None, f_nOpts = nOpts, f_rOpts = rOpts, f_tarFS = None\<rparr>
      in case fetchManifest K fsys of
           Inl err \<Rightarrow> Inl err
         | Inr (img, fsys) \<Rightarrow>
             (let fsys = fsys\<lparr>f_img := Some img\<rparr>
              in case Extract_tarfs K img of
                   Inl err \<Rightarrow> Inl err
                 | Inr tar \<Rightarrow> Inr (fsys\<lparr>f_tarFS := Some tar\<rparr>)))"

definition WithContext :: "('img, 'tar, 'l, 'ctx) ociFS \<Rightarrow> 'ctx option \<Rightarrow> ('img, 'tar, 'l, 'ctx) ociFS" where
  "WithContext f ctx = (case ctx of None \<Rightarrow> f | Some c \<Rightarrow> f\<lparr>f_ctx := c\<rparr>)"

definition WithRegistryOpts :: "('img, 'tar, 'l, 'ctx) ociFS \<Rightarrow> name_option list \<Rightarrow> 'l remote_option list
    \<Rightarrow> ('img, 'tar, 'l, 'ctx) ociFS" where
  "WithRegistryOpts f nOpts rOpts = f\<lparr>f_nOpts := nOpts, f_rOpts := rOpts\<rparr>"

definition ConfigureOCIFS :: "('ref, 'img, 'tar, 'l) oci_client \<Rightarrow> 'ctx \<Rightarrow> name_option list \<Rightarrow> 'l remote_option list
    \<Rightarrow> oci_url \<Rightarrow> go_error + ('img, 'tar, 'l, 'ctx) ociFS" where
  "ConfigureOCIFS K background nOpts rOpts u =
     (case oci_New K background u nOpts rOpts of
        Inl err \<Rightarrow> Inl err
      | Inr fsys \<Rightarrow> Inr (WithRegistryOpts fsys nOpts rOpts))"

text \<open>Opening a file of a file system whose archive was not read dereferences nil.\<close>

definition oci_Open :: "('ref, 'img, 'tar, 'l) oci_client \<Rightarrow> (string \<Rightarrow> bool) \<Rightarrow> ('img, 'tar, 'l, 'ctx) ociFS \<Rightarrow> string
    \<Rightarrow> (path_error + string) outcome" where
  "oci_Open K utf8 f name =
     (if \<not> ValidPath utf8 name then Ret (Inl (PathError ''open'' name ErrInvalid))
      else (case f_tarFS f of
              None \<Rightarrow> Panic nil_deref
            | Some tar \<Rightarrow>
                (case tar_Open K tar name of
                   Inl err \<Rightarrow> Ret (Inl (PathError ''open'' name err))
                 | Inr ociFile \<Rightarrow> Ret (Inr ociFile))))"

section \<open>Lemmas\<close>

lemma RegistryOpts_ok: "\<exists>rOpts nOpts. RegistryOpts lister insecure secrets = Inr (rOpts, nOpts)"
  by (simp add: RegistryOpts_def NewAutoRefreshSecretsKeychain_def Let_def)

text \<open>Missing pull secrets are skipped, any other failure ends the resolution.\<close>

lemma get_secrets_ok:
  assumes "\<forall>s \<in> set ss. \<forall>err. Get s = Inl err \<longrightarrow> is_not_found err"
  shows "get_secrets Get ss acc = Inr (acc @ concat (map (\<lambda>s. case Get s of Inr x \<Rightarrow> [x] | Inl _ \<Rightarrow> []) ss))"
  using assms by (induction ss arbitrary: acc) (auto split: sum.splits)

lemma get_secrets_error:
  "(\<exists>err. get_secrets Get ss acc = Inl err) \<longleftrightarrow> (\<exists>s \<in> set ss. \<exists>err. Get s = Inl err \<and> \<not> is_not_found err)"
  by (induction ss arbitrary: acc) (auto split: sum.split)

lemma path_elems_nonempty: "path_elems p \<noteq> []"
  by (cases p) (auto split: list.split)

lemma path_elems_no_slash: "e \<in> set (path_elems p) \<Longrightarrow> CHR ''/'' \<notin> set e"
  by (induction p arbitrary: e) (auto split: list.splits if_splits)

text \<open>Joining the elements of a path gives the path back.\<close>

fun join_path :: "string list \<Rightarrow> string" where
  "join_path [] = []"
| "join_path [e] = e"
| "join_path (e # es) = e @ CHR ''/'' # join_path es"

lemma join_path_Cons: "es \<noteq> [] \<Longrightarrow> join_path (e # es) = e @ CHR ''/'' # join_path es"
  by (cases es) auto

lemma join_path_elems: "join_path (path_elems p) = p"
proof (induction p)
  case (Cons c cs)
  obtain e es where e: "path_elems cs = e # es" using path_elems_nonempty by (cases "path_elems cs") auto
  with Cons show ?case by (cases es) auto
qed simp

text \<open>A valid path is relative and never climbs.\<close>

lemma ValidPath_safe:
  assumes "ValidPath utf8 p"
  shows "hd p \<noteq> CHR ''/''" and "''..'' \<notin> set (path_elems p)" and "p \<noteq> []"
proof -
  have "path_elems ''.'' = [''.'']" by simp
  with assms show "''..'' \<notin> set (path_elems p)" by (auto simp: ValidPath_def list_all_iff)
  from assms show "p \<noteq> []" by (auto simp: ValidPath_def)
  with assms show "hd p \<noteq> CHR ''/''" by (cases p) (auto simp: ValidPath_def)
qed

text \<open>A file system made for a URL can be opened, and serves exactly what its archive holds.\<close>

lemma oci_New_tarFS: "oci_New K bg u nOpts rOpts = Inr f \<Longrightarrow> f_tarFS f \<noteq> None \<and> f_img f \<noteq> None \<and> f_repo f = u"
  by (auto simp: oci_New_def fetchManifest_def Let_def split: sum.splits)

lemma ConfigureOCIFS_Open:
  assumes "ConfigureOCIFS K bg nOpts rOpts u = Inr f"
  shows "\<exists>tar. f_tarFS f = Some tar \<and> (\<forall>name. oci_Open K utf8 f name = Ret
    (if ValidPath utf8 name then map_sum (PathError ''open'' name) id (tar_Open K tar name)
     else Inl (PathError ''open'' name ErrInvalid)))"
proof -
  from assms obtain g where "oci_New K bg u nOpts rOpts = Inr g" "f = WithRegistryOpts g nOpts rOpts"
    by (auto simp: ConfigureOCIFS_def split: sum.splits)
  with oci_New_tarFS obtain tar where "f_tarFS f = Some tar" by (fastforce simp: WithRegistryOpts_def)
  then show ?thesis by (auto simp: oci_Open_def split: sum.split)
qed

lemma valid_paths:
  "ValidPath (\<lambda>_. True) ''.''" "\<not> ValidPath (\<lambda>_. True) ''../test''" "\<not> ValidPath (\<lambda>_. True) ''''"
  "ValidPath (\<lambda>_. True) ''dir/sample.yaml''" "\<not> ValidPath (\<lambda>_. True) ''./dir/sample.yaml''"
  by code_simp+

end
