(* ===== verification/Commands.thy ===== *)
theory Commands
  imports Registry ServerRun
begin

text \<open>
  The serve commands (\<open>pkg/commands/serve\<close>): how the authorization servers of both modes are
  put together from their flags and the cluster, and which tasks they start; theory CommandRun runs
  them. What clients and loaders answer is a record of results; log messages are left out.
\<close>

section \<open>Flags\<close>

record serve_flags =
  probesAddress :: string
  metricsAddress :: string
  externalPolicySources :: "string list"
  kubePolicySource :: bool
  imagePullSecrets :: "string list"
  allowInsecureRegistry :: bool
  msgFormat :: string
  eventsEnabled :: bool
  openreportsEnabled :: bool
  reportFlushInterval :: string
  resultBufSize :: int

record http_flags = serve_flags +
  serverAddress :: string
  nestedRequestFlag :: bool
  certFileFlag :: string
  keyFileFlag :: string
  inputExpression :: string
  outputExpression :: string

record envoy_flags = serve_flags +
  grpcAddress :: string
  grpcNetwork :: string

text \<open>The default values of the flags.\<close>

definition http_default_flags :: http_flags where
  "http_default_flags = \<lparr>probesAddress = [], metricsAddress = '':9082'', externalPolicySources = [], kubePolicySource = True,
     imagePullSecrets = [], allowInsecureRegistry = False,
     msgFormat = ''[%s] http: request %s, response: %s'' @ [CHR 0x0A], eventsEnabled = False, openreportsEnabled = False,
     reportFlushInterval = [], resultBufSize = 500, serverAddress = '':9081'', nestedRequestFlag = False,
     certFileFlag = [], keyFileFlag = [], inputExpression = [], outputExpression = []\<rparr>"

definition envoy_default_flags :: envoy_flags where
  "envoy_default_flags = \<lparr>probesAddress = [], metricsAddress = '':9082'', externalPolicySources = [], kubePolicySource = True,
     imagePullSecrets = [], allowInsecureRegistry = False,
     msgFormat = ''[%s] envoy: request %s, response: %s'' @ [CHR 0x0A], eventsEnabled = False, openreportsEnabled = False,
     reportFlushInterval = [], resultBufSize = 500, grpcAddress = '':9081'', grpcNetwork = ''tcp''\<rparr>"

section \<open>What a command sets up\<close>

datatype ('r, 'm) event_handler =
    WriterHandler string
  | K8sHandler "('r, 'm) k8sEventSubscriber" string
  | OpenreportsHandler "('r, 'm) openreportsEventSubscriber" "int option" string

text \<open>
  A policy source: the in-cluster source with its name and the evaluation mode its cache selects,
  an external source, or several sources in their order.
\<close>

datatype 's policy_source =
    KubeSource string string
  | ExternalSource 's
  | CompositeSource "'s policy_source list"

record http_config =
  c_Address :: string
  c_NestedRequest :: bool
  c_InputExpression :: string
  c_OutputExpression :: string
  c_CertFile :: string
  c_KeyFile :: string

text \<open>The tasks a command starts; \<open>dyn\<close> says whether the server has a dynamic client.\<close>

datatype ('s, 'r, 'm) task =
    ManagerTask string
  | ProbesTask string
  | HttpServerTask http_config "'s policy_source" bool "('r, 'm) event_handler list"
  | EnvoyServerTask string string "'s policy_source" bool "('r, 'm) event_handler list"

text \<open>What the environment answers: each call fails with an error or not.\<close>

record 's serve_env =
  ClientConfig :: "go_error option"
  kubernetes_client :: "go_error option"
  dynamic_client :: "go_error option"
  Namespace :: "go_error + string"
  CrdExists :: "string \<Rightarrow> go_error + bool"
  openreports_client :: "go_error option"
  ParseDuration :: "string \<Rightarrow> go_error + int"
  POD_NAME :: string
  hex_hash :: "string \<Rightarrow> string"
  external_sources :: "bool remote_option list \<Rightarrow> name_option list \<Rightarrow> string list \<Rightarrow> go_error + 's list"
  install_scheme :: "go_error option"
  NewManager :: "go_error option"
  NewKube :: "go_error option"
  WaitForCacheSync :: bool

definition wrap :: "string \<Rightarrow> go_error \<Rightarrow> go_error" where
  "wrap msg err = Errorf (msg @ error_text err)"

definition check_err :: "go_error option \<Rightarrow> (go_error \<Rightarrow> 'r) \<Rightarrow> 'r \<Rightarrow> 'r" where
  "check_err res fail k = (case res of Some err \<Rightarrow> fail err | None \<Rightarrow> k)"

section \<open>The authorization servers\<close>

text \<open>The parts in which the two commands differ: the name of the mode, its constant and the report.\<close>

record serve_mode =
  m_name :: string
  m_mode :: string
  m_report :: string

definition http_serve_mode :: serve_mode where
  "http_serve_mode = \<lparr>m_name = ''http'', m_mode = ''HTTP'', m_report = ''http-authz-report''\<rparr>"

definition envoy_serve_mode :: serve_mode where
  "envoy_serve_mode = \<lparr>m_name = ''envoy'', m_mode = ''Envoy'', m_report = ''envoy-authz-report''\<rparr>"

definition report_name :: "'s serve_env \<Rightarrow> string \<Rightarrow> string" where
  "report_name E base = (if POD_NAME E \<noteq> [] then base @ ''-'' @ hex_hash E (POD_NAME E) else base)"

text \<open>
  The subscriber of reports panics when its buffer size is not positive; the other failures on the
  way to it are logged and leave it out.
\<close>

definition openreports_handlers :: "serve_mode \<Rightarrow> 's serve_env \<Rightarrow> 'f serve_flags_scheme \<Rightarrow> string
    \<Rightarrow> ('r, 'm) event_handler list outcome" where
  "openreports_handlers M E f namespace =
     (if openreportsEnabled f then
        (case CrdExists E ''reports.openreports.io'' of
           Inl err \<Rightarrow> Ret []
         | Inr exists_crd \<Rightarrow>
             if exists_crd then
               check_err (openreports_client E) (\<lambda>err. Ret [])
                 (let intervalPtr = (case ParseDuration E (reportFlushInterval f) of Inl err \<Rightarrow> None | Inr d \<Rightarrow> Some d)
                  in bind_outcome (NewOpenreportsSubscriber (resultBufSize f) (intervalPtr \<noteq> None)
                         (report_name E (m_report M)) namespace)
                       (\<lambda>sub. Ret [OpenreportsHandler sub intervalPtr (msgFormat f)]))
             else Ret [])
      else Ret [])"

text \<open>
  The tasks started before the probes and the server, and either the error the set-up ends with or
  the event handlers, the policy source and whether there is a dynamic client.
\<close>

type_synonym ('s, 'r, 'm) sources_setup =
  "('s, 'r, 'm) task list \<times> (go_error + ('r, 'm) event_handler list \<times> 's policy_source \<times> bool)"

definition kube_source_setup :: "serve_mode \<Rightarrow> 's serve_env \<Rightarrow> 'f serve_flags_scheme \<Rightarrow> ('r, 'm) event_handler list
    \<Rightarrow> 's policy_source \<Rightarrow> ('s, 'r, 'm) sources_setup" where
  "kube_source_setup M E f evs source =
     check_err (install_scheme E) (\<lambda>err. ([], Inl err))
     (check_err (NewManager E) (\<lambda>err. ([], Inl (wrap ''failed to construct manager: '' err)))
     (check_err (NewKube E) (\<lambda>err. ([], Inl (wrap (''failed to create '' @ m_name M @ '' source: '') err)))
       (let source = CompositeSource [KubeSource (m_name M) (m_mode M), source];
            tasks = [ManagerTask (metricsAddress f)]
        in if \<not> WaitForCacheSync E
           then (tasks, Inl (Errorf (''failed to wait for '' @ m_name M @ '' cache sync'')))
           else (tasks, Inr (evs, source, True)))))"

definition cluster_sources :: "serve_mode \<Rightarrow> 's serve_env \<Rightarrow> 'f serve_flags_scheme \<Rightarrow> ('r, 'm) event_handler list
    \<Rightarrow> ('s, 'r, 'm) sources_setup" where
  "cluster_sources M E f evs =
     (case RegistryOpts True (allowInsecureRegistry f) (imagePullSecrets f) of
        Inl err \<Rightarrow> ([], Inl (wrap ''failed to initialize registry opts: '' err))
      | Inr (rOpts, nOpts) \<Rightarrow>
          (case external_sources E rOpts nOpts (externalPolicySources f) of
             Inl err \<Rightarrow> ([], Inl err)
           | Inr extSources \<Rightarrow>
               (let source = CompositeSource (map ExternalSource extSources)
                in if kubePolicySource f then kube_source_setup M E f evs source
                   else ([], Inr (evs, source, True)))))"

definition cluster_setup :: "serve_mode \<Rightarrow> 's serve_env \<Rightarrow> 'f serve_flags_scheme \<Rightarrow> ('r, 'm) event_handler list
    \<Rightarrow> ('s, 'r, 'm) sources_setup outcome" where
  "cluster_setup M E f evs =
     check_err (kubernetes_client E) (\<lambda>err. Ret ([], Inl err))
     (check_err (dynamic_client E) (\<lambda>err. Ret ([], Inl err))
     (case Namespace E of
        Inl err \<Rightarrow> Ret ([], Inl (wrap ''failed to get namespace from kubeconfig: '' err))
      | Inr namespace \<Rightarrow>
          (let evs = evs @ (if eventsEnabled f then [K8sHandler (NewK8sEventSubscriber namespace) (msgFormat f)] else [])
           in bind_outcome (openreports_handlers M E f namespace) (\<lambda>reports.
                Ret (cluster_sources M E f (evs @ reports))))))"

definition standalone_setup :: "'s serve_env \<Rightarrow> 'f serve_flags_scheme \<Rightarrow> ('r, 'm) event_handler list \<Rightarrow> ('s, 'r, 'm) sources_setup" where
  "standalone_setup E f evs =
     (case RegistryOpts False (allowInsecureRegistry f) [] of
        Inl err \<Rightarrow> ([], Inl (wrap ''failed to initialize registry opts: '' err))
      | Inr (rOpts, nOpts) \<Rightarrow>
          (case external_sources E rOpts nOpts (externalPolicySources f) of
             Inl err \<Rightarrow> ([], Inl err)
           | Inr extSources \<Rightarrow> ([], Inr (evs, CompositeSource (map ExternalSource extSources), False))))"

definition authz_setup :: "serve_mode \<Rightarrow> ('s policy_source \<Rightarrow> bool \<Rightarrow> ('r, 'm) event_handler list \<Rightarrow> ('s, 'r, 'm) task)
    \<Rightarrow> 's serve_env \<Rightarrow> 'f serve_flags_scheme \<Rightarrow> (('s, 'r, 'm) task list \<times> go_error option) outcome" where
  "authz_setup M server E f =
     (let evs = [WriterHandler (msgFormat f)]
      in bind_outcome (if ClientConfig E = None then cluster_setup M E f evs else Ret (standalone_setup E f evs)) (\<lambda>res.
           case res of
             (tasks, Inl err) \<Rightarrow> Ret (tasks, Some err)
           | (tasks, Inr (evs, source, dyn)) \<Rightarrow>
               Ret (tasks @ (if probesAddress f \<noteq> [] then [ProbesTask (probesAddress f)] else []) @ [server source dyn evs], None)))"

definition http_authz_setup :: "'s serve_env \<Rightarrow> http_flags \<Rightarrow> (('s, 'r, 'm) task list \<times> go_error option) outcome" where
  "http_authz_setup E f =
     authz_setup http_serve_mode
       (\<lambda>source dyn evs.
          let nestedRequest = True
          in HttpServerTask
               \<lparr>c_Address = serverAddress f, c_NestedRequest = nestedRequest,
                c_InputExpression = inputExpression f, c_OutputExpression = outputExpression f,
                c_CertFile = certFileFlag f, c_KeyFile = keyFileFlag f\<rparr>
               source dyn evs)
       E f"

definition envoy_authz_setup :: "'s serve_env \<Rightarrow> envoy_flags \<Rightarrow> (('s, 'r, 'm) task list \<times> go_error option) outcome" where
  "envoy_authz_setup E f =
     authz_setup envoy_serve_mode (\<lambda>source dyn evs. EnvoyServerTask (grpcNetwork f) (grpcAddress f) source dyn evs) E f"

text \<open>The errors are combined in a fixed order: probes, server, manager.\<close>

fun task_rank :: "('s, 'r, 'm) task \<Rightarrow> nat" where
  "task_rank (ProbesTask _) = 0"
| "task_rank (HttpServerTask _ _ _ _) = 1"
| "task_rank (EnvoyServerTask _ _ _ _ _) = 1"
| "task_rank (ManagerTask _) = 2"

section \<open>Lemmas\<close>

lemma check_err_cases:
  "P (check_err res fail k) \<longleftrightarrow> (\<forall>e. res = Some e \<longrightarrow> P (fail e)) \<and> (res = None \<longrightarrow> P k)"
  by (cases res) (auto simp: check_err_def)

definition in_cluster :: "'s serve_env \<Rightarrow> 'f serve_flags_scheme \<Rightarrow> bool" where
  "in_cluster E f \<longleftrightarrow> ClientConfig E = None \<and> kubePolicySource f"

definition expected_source :: "serve_mode \<Rightarrow> bool \<Rightarrow> 's list \<Rightarrow> 's policy_source" where
  "expected_source M kube exts =
     (let ext = CompositeSource (map ExternalSource exts)
      in if kube then CompositeSource [KubeSource (m_name M) (m_mode M), ext] else ext)"

definition expected_manager :: "bool \<Rightarrow> 'f serve_flags_scheme \<Rightarrow> ('s, 'r, 'm) task list" where
  "expected_manager kube f = (if kube then [ManagerTask (metricsAddress f)] else [])"

text \<open>
  The external sources are read with the keychains of the cloud providers, the one of the pull
  secrets when there are any and a cluster to read them from, and over plain HTTP when asked to.
\<close>

definition expected_rOpts :: "'s serve_env \<Rightarrow> 'f serve_flags_scheme \<Rightarrow> bool remote_option list" where
  "expected_rOpts E f =
     [WithAuthFromKeychains ([ACRHelper, GoogleKeychain, DefaultKeychain, GithubKeychain, ECRHelper]
        @ (if ClientConfig E = None \<and> imagePullSecrets f \<noteq> [] then [AutoRefreshSecrets True (imagePullSecrets f)] else []))]"

definition expected_nOpts :: "'f serve_flags_scheme \<Rightarrow> name_option list" where
  "expected_nOpts f = (if allowInsecureRegistry f then [Insecure] else [])"

lemma RegistryOpts_cluster:
  "ClientConfig E = None \<Longrightarrow>
    RegistryOpts True (allowInsecureRegistry f) (imagePullSecrets f) = Inr (expected_rOpts E f, expected_nOpts f)"
  by (simp add: RegistryOpts_def NewAutoRefreshSecretsKeychain_def expected_rOpts_def expected_nOpts_def)

lemma RegistryOpts_standalone:
  "ClientConfig E \<noteq> None \<Longrightarrow>
    RegistryOpts False (allowInsecureRegistry f) [] = Inr (expected_rOpts E f, expected_nOpts f)"
  by (simp add: RegistryOpts_def expected_rOpts_def expected_nOpts_def)

text \<open>Every call of the set-up that may fail succeeded.\<close>

definition kube_source_ok :: "'s serve_env \<Rightarrow> bool" where
  "kube_source_ok E \<longleftrightarrow> install_scheme E = None \<and> NewManager E = None \<and> NewKube E = None \<and> WaitForCacheSync E"

definition cluster_ok :: "'s serve_env \<Rightarrow> bool" where
  "cluster_ok E \<longleftrightarrow> kubernetes_client E = None \<and> dynamic_client E = None \<and> (\<exists>ns. Namespace E = Inr ns)"

definition external_ok :: "'s serve_env \<Rightarrow> 'f serve_flags_scheme \<Rightarrow> bool" where
  "external_ok E f \<longleftrightarrow>
     (\<exists>exts. external_sources E (expected_rOpts E f) (expected_nOpts f) (externalPolicySources f) = Inr exts)"

lemma cluster_sources_succeed:
  assumes "cluster_sources M E f evs = (tasks, res)" and "ClientConfig E = None"
  shows "(\<exists>x. res = Inr x) \<longleftrightarrow> external_ok E f \<and> (kubePolicySource f \<longrightarrow> kube_source_ok E)"
  using assms(1)
  by (auto simp: cluster_sources_def RegistryOpts_cluster [OF assms(2)] kube_source_setup_def check_err_def Let_def
      external_ok_def kube_source_ok_def split: sum.splits if_splits option.splits)

lemma cluster_setup_succeeds:
  assumes "cluster_setup M E f evs = Ret (tasks, res)" and "ClientConfig E = None"
  shows "(\<exists>x. res = Inr x) \<longleftrightarrow> cluster_ok E \<and> external_ok E f \<and> (kubePolicySource f \<longrightarrow> kube_source_ok E)"
proof (cases "cluster_ok E")
  case True
  then obtain ns where "kubernetes_client E = None" "dynamic_client E = None" "Namespace E = Inr ns"
    by (auto simp: cluster_ok_def)
  with assms(1) obtain evs' where "cluster_sources M E f evs' = (tasks, res)"
    by (auto simp: cluster_setup_def check_err_def bind_outcome_Ret_iff Let_def)
  from cluster_sources_succeed [OF this assms(2)] True show ?thesis by simp
next
  case False
  with assms(1) show ?thesis
    by (auto simp: cluster_setup_def check_err_def cluster_ok_def split: option.splits sum.splits)
qed

lemma standalone_setup_succeeds:
  assumes "standalone_setup E f evs = (tasks, res)" and "ClientConfig E \<noteq> None"
  shows "(\<exists>x. res = Inr x) \<longleftrightarrow> external_ok E f"
  using assms(1)
  by (auto simp: standalone_setup_def RegistryOpts_standalone [OF assms(2)] external_ok_def split: sum.splits)

lemma authz_setup_succeeds:
  fixes tasks :: "('s, 'r, 'm) task list"
  assumes "authz_setup M server E f = Ret (tasks, err)"
  shows "err = None \<longleftrightarrow> external_ok E f
    \<and> (ClientConfig E = None \<longrightarrow> cluster_ok E \<and> (kubePolicySource f \<longrightarrow> kube_source_ok E))"
proof (cases "ClientConfig E = None")
  case True
  with assms have "\<exists>x :: ('s, 'r, 'm) sources_setup. cluster_setup M E f [WriterHandler (msgFormat f)] = Ret x"
    by (auto simp: authz_setup_def bind_outcome_Ret_iff Let_def)
  then obtain ts :: "('s, 'r, 'm) task list" and res
    where c: "cluster_setup M E f [WriterHandler (msgFormat f)] = Ret (ts, res)" by fastforce
  with assms True have e: "err = None \<longleftrightarrow> (\<exists>x. res = Inr x)"
    by (cases res) (auto simp: authz_setup_def split: prod.splits)
  from cluster_setup_succeeds [OF c True] True e show ?thesis by auto
next
  case False
  obtain ts :: "('s, 'r, 'm) task list" and res where c: "standalone_setup E f [WriterHandler (msgFormat f)] = (ts, res)"
    by (metis surj_pair)
  with assms False have e: "err = None \<longleftrightarrow> (\<exists>x. res = Inr x)"
    by (auto simp: authz_setup_def split: sum.splits prod.splits)
  from standalone_setup_succeeds [OF c False] False e show ?thesis by auto
qed

text \<open>What a successful set-up of the sources comes to.\<close>

lemma cluster_sources_ok:
  assumes "cluster_sources M E f evs = (tasks, Inr (evs', source, dyn))" and "ClientConfig E = None"
  shows "\<exists>exts. external_sources E (expected_rOpts E f) (expected_nOpts f) (externalPolicySources f) = Inr exts
    \<and> tasks = expected_manager (kubePolicySource f) f \<and> source = expected_source M (kubePolicySource f) exts
    \<and> evs' = evs \<and> dyn"
  using assms(1)
  by (auto simp: cluster_sources_def RegistryOpts_cluster [OF assms(2)] kube_source_setup_def check_err_def Let_def
      expected_source_def expected_manager_def split: sum.splits if_splits option.splits)

lemma cluster_sources_tasks: "fst (cluster_sources M E f evs) \<in> {[], [ManagerTask (metricsAddress f)]}"
  by (auto simp: cluster_sources_def kube_source_setup_def check_err_def Let_def split: sum.splits prod.splits option.splits)

lemma standalone_setup_ok:
  assumes "standalone_setup E f evs = (tasks, Inr (evs', source, dyn))" and "ClientConfig E \<noteq> None"
  shows "\<exists>exts. external_sources E (expected_rOpts E f) (expected_nOpts f) (externalPolicySources f) = Inr exts
    \<and> tasks = [] \<and> source = expected_source M False exts \<and> evs' = evs \<and> \<not> dyn"
  using assms(1)
  by (auto simp: standalone_setup_def RegistryOpts_standalone [OF assms(2)] expected_source_def split: sum.splits)

lemma cluster_setup_ret:
  assumes "cluster_setup M E f evs = Ret (tasks, res)"
  shows "(\<exists>err. tasks = [] \<and> res = Inl err) \<or> (\<exists>more. cluster_sources M E f (evs @ more) = (tasks, res))"
  using assms
  by (auto simp: cluster_setup_def check_err_def bind_outcome_Ret_iff Let_def split: option.splits sum.splits)

text \<open>A set-up that fails starts no server; one that succeeds starts exactly one, after what it needs.\<close>

lemma authz_setup_ret:
  fixes tasks :: "('s, 'r, 'm) task list"
  assumes "authz_setup M server E f = Ret (tasks, err)"
  shows "(err \<noteq> None \<longrightarrow> tasks \<in> {[], [ManagerTask (metricsAddress f)]})
    \<and> (err = None \<longrightarrow> (\<exists>exts evs dyn.
        external_sources E (expected_rOpts E f) (expected_nOpts f) (externalPolicySources f) = Inr exts
        \<and> tasks = expected_manager (in_cluster E f) f
            @ (if probesAddress f \<noteq> [] then [ProbesTask (probesAddress f)] else [])
            @ [server (expected_source M (in_cluster E f) exts) dyn evs]
        \<and> (\<exists>more. evs = WriterHandler (msgFormat f) # more) \<and> (dyn \<longleftrightarrow> ClientConfig E = None)))"
proof (cases "ClientConfig E = None")
  case True
  with assms have "\<exists>x :: ('s, 'r, 'm) sources_setup. cluster_setup M E f [WriterHandler (msgFormat f)] = Ret x"
    by (auto simp: authz_setup_def bind_outcome_Ret_iff Let_def)
  then obtain ts :: "('s, 'r, 'm) task list" and res
    where c: "cluster_setup M E f [WriterHandler (msgFormat f)] = Ret (ts, res)" by fastforce
  show ?thesis
  proof (cases res)
    case (Inl e)
    with assms True c have "tasks = ts" "err = Some e" by (simp_all add: authz_setup_def)
    moreover have "ts \<in> {[], [ManagerTask (metricsAddress f)]}"
      using cluster_setup_ret [OF c] cluster_sources_tasks by (metis fst_conv insertI1)
    ultimately show ?thesis by simp
  next
    case (Inr x)
    obtain evs source dyn where x: "x = (evs, source, dyn)" by (cases x)
    from cluster_setup_ret [OF c] Inr x
    obtain more where "cluster_sources M E f (WriterHandler (msgFormat f) # more) = (ts, Inr (evs, source, dyn))" by auto
    from cluster_sources_ok [OF this True] assms True c Inr x show ?thesis
      by (auto simp: authz_setup_def in_cluster_def; blast)
  qed
next
  case False
  then have k: "in_cluster E f = False" by (simp add: in_cluster_def)
  obtain ts :: "('s, 'r, 'm) task list" and res where c: "standalone_setup E f [WriterHandler (msgFormat f)] = (ts, res)" by (metis surj_pair)
  show ?thesis
  proof (cases res)
    case (Inl e)
    with assms False c show ?thesis
      by (auto simp: authz_setup_def standalone_setup_def split: sum.splits prod.splits)
  next
    case (Inr x)
    obtain evs source dyn where x: "x = (evs, source, dyn)" by (cases x)
    with c Inr standalone_setup_ok [of E f _ ts evs source dyn M, OF _ False]
    obtain exts where "external_sources E (expected_rOpts E f) (expected_nOpts f) (externalPolicySources f) = Inr exts"
      "ts = []" "source = expected_source M False exts" "evs = [WriterHandler (msgFormat f)]" "\<not> dyn" by blast
    with assms False c Inr x k show ?thesis by (auto simp: authz_setup_def expected_manager_def; blast)
  qed
qed

text \<open>A cluster without sources, and the flags of a server that should not unwrap requests.\<close>

definition sample_env :: "nat serve_env" where
  "sample_env = \<lparr>ClientConfig = None, kubernetes_client = None, dynamic_client = None, Namespace = Inr ''kyverno'',
     CrdExists = (\<lambda>_. Inr True), openreports_client = None, ParseDuration = (\<lambda>_. Inl (Errorf ''invalid duration'')),
     POD_NAME = [], hex_hash = id, external_sources = (\<lambda>_ _ urls. Inr [1 ..< length urls + 1]), install_scheme = None,
     NewManager = None, NewKube = None, WaitForCacheSync = True\<rparr>"

section \<open>Properties\<close>

text \<open>
  C36. The HTTP command starts its server exactly when all its policies can be loaded. The set-up
  (when it does not panic, which only a buffer size of the reports does) succeeds if and only if the
  external sources can be read, with the keychains of the cloud providers and of the pull secrets
  and over plain HTTP only when asked to; and, with a cluster, both clients and the namespace are
  there and, when policies of the cluster are asked for, the scheme, the manager and the in-cluster
  source are made and the caches synchronise. Any error leaves the command with no server. Otherwise
  it starts the manager, the probes and the server it is configured for, whose policies are those of
  the cluster (only those of its mode) before the external ones. The server always unwraps nested
  requests, whatever the flag says.
\<close>

theorem http_command_starts_loaded:
  fixes tasks :: "('s, 'r, 'm) task list"
  assumes "http_authz_setup E f = Ret (tasks, err)"
  defines "cluster \<equiv> ClientConfig E = None"
    and "rOpts \<equiv> [WithAuthFromKeychains ([ACRHelper, GoogleKeychain, DefaultKeychain, GithubKeychain, ECRHelper]
          @ (if ClientConfig E = None \<and> imagePullSecrets f \<noteq> [] then [AutoRefreshSecrets True (imagePullSecrets f)] else []))]"
    and "nOpts \<equiv> if allowInsecureRegistry f then [Insecure] else []"
  shows "(err = None \<longleftrightarrow>
        (\<exists>exts. external_sources E rOpts nOpts (externalPolicySources f) = Inr exts)
        \<and> (cluster \<longrightarrow> kubernetes_client E = None \<and> dynamic_client E = None \<and> (\<exists>ns. Namespace E = Inr ns)
             \<and> (kubePolicySource f \<longrightarrow>
                  install_scheme E = None \<and> NewManager E = None \<and> NewKube E = None \<and> WaitForCacheSync E)))
    \<and> (err \<noteq> None \<longrightarrow> (\<forall>t \<in> set tasks. task_rank t = 2))
    \<and> (err = None \<longrightarrow> (\<exists>exts evs.
        external_sources E rOpts nOpts (externalPolicySources f) = Inr exts
        \<and> tasks = (if cluster \<and> kubePolicySource f then [ManagerTask (metricsAddress f)] else [])
            @ (if probesAddress f \<noteq> [] then [ProbesTask (probesAddress f)] else [])
            @ [HttpServerTask
                 \<lparr>c_Address = serverAddress f, c_NestedRequest = True, c_InputExpression = inputExpression f,
                  c_OutputExpression = outputExpression f, c_CertFile = certFileFlag f, c_KeyFile = keyFileFlag f\<rparr>
                 (if cluster \<and> kubePolicySource f
                  then CompositeSource [KubeSource ''http'' ''HTTP'', CompositeSource (map ExternalSource exts)]
                  else CompositeSource (map ExternalSource exts)) cluster evs]
        \<and> hd evs = WriterHandler (msgFormat f)))"
proof -
  note s = authz_setup_ret [OF assms(1) [unfolded http_authz_setup_def]]
  note succeeds = authz_setup_succeeds [OF assms(1) [unfolded http_authz_setup_def]]
  have opts: "rOpts = expected_rOpts E f" "nOpts = expected_nOpts f"
    by (simp_all add: rOpts_def nOpts_def expected_rOpts_def expected_nOpts_def)
  have iff: "err = None \<longleftrightarrow>
        (\<exists>exts. external_sources E rOpts nOpts (externalPolicySources f) = Inr exts)
        \<and> (cluster \<longrightarrow> kubernetes_client E = None \<and> dynamic_client E = None \<and> (\<exists>ns. Namespace E = Inr ns)
             \<and> (kubePolicySource f \<longrightarrow>
                  install_scheme E = None \<and> NewManager E = None \<and> NewKube E = None \<and> WaitForCacheSync E))"
    unfolding succeeds opts cluster_def external_ok_def cluster_ok_def kube_source_ok_def by blast
  show ?thesis
  proof (cases err)
    case (Some e)
    with s iff show ?thesis by auto
  next
    case None
    with s obtain exts evs dyn rest
      where x: "external_sources E (expected_rOpts E f) (expected_nOpts f) (externalPolicySources f) = Inr exts"
        and t: "tasks = expected_manager (in_cluster E f) f
            @ (if probesAddress f \<noteq> [] then [ProbesTask (probesAddress f)] else [])
            @ [let nestedRequest = True
               in HttpServerTask
                    \<lparr>c_Address = serverAddress f, c_NestedRequest = nestedRequest,
                     c_InputExpression = inputExpression f, c_OutputExpression = outputExpression f,
                     c_CertFile = certFileFlag f, c_KeyFile = keyFileFlag f\<rparr>
                    (expected_source http_serve_mode (in_cluster E f) exts) dyn evs]"
        and evs: "evs = WriterHandler (msgFormat f) # rest" and dyn: "dyn \<longleftrightarrow> ClientConfig E = None"
      by auto
    have t': "tasks = (if cluster \<and> kubePolicySource f then [ManagerTask (metricsAddress f)] else [])
            @ (if probesAddress f \<noteq> [] then [ProbesTask (probesAddress f)] else [])
            @ [HttpServerTask
                 \<lparr>c_Address = serverAddress f, c_NestedRequest = True, c_InputExpression = inputExpression f,
                  c_OutputExpression = outputExpression f, c_CertFile = certFileFlag f, c_KeyFile = keyFileFlag f\<rparr>
                 (if cluster \<and> kubePolicySource f
                  then CompositeSource [KubeSource ''http'' ''HTTP'', CompositeSource (map ExternalSource exts)]
                  else CompositeSource (map ExternalSource exts)) cluster evs]"
      using t dyn by (simp add: cluster_def in_cluster_def expected_source_def expected_manager_def http_serve_mode_def Let_def)
    show ?thesis
      using None iff x [folded opts] t' evs by (intro conjI impI exI [of _ exts] exI [of _ evs]) simp_all
  qed
qed

theorem http_command_starts_loaded_witness:
  "\<exists>(tasks :: (nat, unit, unit) task list) pre config source evs.
     http_authz_setup sample_env (http_default_flags\<lparr>externalPolicySources := [''file:///policies'']\<rparr>) = Ret (tasks, None)
     \<and> tasks = pre @ [HttpServerTask config
          (CompositeSource [KubeSource ''http'' ''HTTP'', CompositeSource [ExternalSource 1]]) True evs]
     \<and> c_NestedRequest config \<and> \<not> nestedRequestFlag http_default_flags"
proof -
  let ?f = "http_default_flags\<lparr>externalPolicySources := [''file:///policies'']\<rparr>"
  have "\<exists>tasks :: (nat, unit, unit) task list. http_authz_setup sample_env ?f = Ret (tasks, None)"
    by (simp add: http_authz_setup_def authz_setup_def cluster_setup_def cluster_sources_def kube_source_setup_def
        check_err_def openreports_handlers_def RegistryOpts_def sample_env_def http_default_flags_def Let_def)
  then obtain tasks :: "(nat, unit, unit) task list" where s: "http_authz_setup sample_env ?f = Ret (tasks, None)" ..
  have "ClientConfig sample_env = None" "kubePolicySource ?f" "\<not> nestedRequestFlag http_default_flags"
    "external_sources sample_env r n (externalPolicySources ?f) = Inr [1]" for r n
    by (simp_all add: sample_env_def http_default_flags_def)
  with http_command_starts_loaded [OF s] s show ?thesis by auto
qed

end
