(* ===== verification/Servers.thy ===== *)
theory Servers
  imports Commands AuthzEnvoy Env
begin

text \<open>
  Putting the authorization servers together (\<open>NewServer\<close> of \<open>pkg/authz/http/server.go\<close> and of
  \<open>pkg/authz/envoy/server.go\<close>): the programs of the input and output expressions, the engine
  over the policies with its metrics, the route, the TLS configuration and the listener. CEL and
  the engine of the SDK are parameters; \<open>dispatch_law\<close> states what the SDK documents of a
  sequential dispatcher with a breaker and a first-match resulter.
\<close>

section \<open>The engine\<close>

text \<open>
  An engine is made of an evaluator, a breaker and the predicate of its resulter; it runs over the
  policies of its source, a request and the metrics.
\<close>

type_synonym ('p, 'i, 'r) core_engine =
  "('p \<Rightarrow> 'i \<Rightarrow> metrics \<Rightarrow> 'r evaluation \<times> metrics) \<Rightarrow> ('r evaluation \<Rightarrow> bool) \<Rightarrow> ('r evaluation \<Rightarrow> bool)
     \<Rightarrow> 'p list \<Rightarrow> 'i \<Rightarrow> metrics \<Rightarrow> 'r evaluation \<times> metrics"

fun sequential_run :: "('p \<Rightarrow> 'm \<Rightarrow> 'o \<times> 'm) \<Rightarrow> ('o \<Rightarrow> bool) \<Rightarrow> 'p list \<Rightarrow> 'm \<Rightarrow> 'o list \<times> 'm" where
  "sequential_run ev brk [] m = ([], m)"
| "sequential_run ev brk (p # ps) m =
     (case ev p m of (out, m1) \<Rightarrow>
        if brk out then ([out], m1)
        else (case sequential_run ev brk ps m1 of (outs, m2) \<Rightarrow> (out # outs, m2)))"

definition dispatch_law :: "('p, 'i, 'r) core_engine \<Rightarrow> bool" where
  "dispatch_law core \<longleftrightarrow>
     (\<forall>ev brk dec policies req m. core ev brk dec policies req m =
        (case sequential_run (\<lambda>p. ev p req) brk policies m of
           (outs, m') \<Rightarrow> (case find dec outs of Some out \<Rightarrow> out | None \<Rightarrow> (None, None), m')))"

definition http_engine :: "('p, ('id, 'x) CheckRequest, CheckResponse) core_engine \<Rightarrow> ('p \<Rightarrow> string option)
    \<Rightarrow> ('p \<Rightarrow> ('id, 'x) CheckRequest \<Rightarrow> CheckResponse evaluation) \<Rightarrow> 'p list
    \<Rightarrow> ('id, 'x) CheckRequest \<Rightarrow> metrics \<Rightarrow> CheckResponse evaluation \<times> metrics" where
  "http_engine core named evaluate policies =
     core (MetricsEvaluatorFactory named evaluate http_classify) http_breaker http_decisive policies"

definition envoy_engine :: "('p, envoy_request, 'm EnvoyResponse) core_engine \<Rightarrow> ('p \<Rightarrow> string option)
    \<Rightarrow> ('p \<Rightarrow> envoy_request \<Rightarrow> 'm EnvoyResponse evaluation) \<Rightarrow> 'p list
    \<Rightarrow> envoy_request \<Rightarrow> metrics \<Rightarrow> 'm EnvoyResponse evaluation \<times> metrics" where
  "envoy_engine core named evaluate policies =
     core (MetricsEvaluatorFactory named evaluate envoy_classify) envoy_breaker envoy_decisive policies"

section \<open>The HTTP server\<close>

text \<open>Checking and planning the two expressions is the CEL library's work.\<close>

record ('e, 'ast, 'id, 'x) server_cel = "'e cel_lib" +
  srv_Compile :: "'e \<Rightarrow> string \<Rightarrow> go_error + 'ast"
  srv_input_Program :: "'e \<Rightarrow> 'ast \<Rightarrow> go_error + (('id, 'x) CheckRequest \<Rightarrow> go_error + ('id, 'x) input_value)"
  srv_output_Program :: "'e \<Rightarrow> 'ast \<Rightarrow> go_error + (CheckResponse \<Rightarrow> go_error + (go_error + HttpResponse))"

text \<open>Reading and building requests, as in \<open>authorizer.go\<close>, and the vectors of the metrics client.\<close>

record ('id, 'x) request_reader =
  rr_ReadRequest :: "go_error + string \<Rightarrow> go_error + http_request"
  rr_newRequest :: "http_request \<Rightarrow> go_error + ('id, 'x) CheckRequest"
  rr_vectors :: vectors

datatype tls_version = VersionTLS12

datatype cipher_suite =
    ECDHE_ECDSA_WITH_AES_128_GCM_SHA256
  | ECDHE_RSA_WITH_AES_128_GCM_SHA256
  | ECDHE_ECDSA_WITH_AES_256_GCM_SHA384
  | ECDHE_RSA_WITH_AES_256_GCM_SHA384
  | ECDHE_ECDSA_WITH_CHACHA20_POLY1305
  | ECDHE_RSA_WITH_CHACHA20_POLY1305

record tls_config =
  MinVersion :: tls_version
  CipherSuites :: "cipher_suite list"

record ('id, 'x) http_server =
  hs_Addr :: string
  hs_pattern :: string
  hs_handler :: "('id, 'x) authorizer"
  hs_TLSConfig :: "tls_config option"
  hs_certFile :: string
  hs_keyFile :: string

definition server_tls_config :: tls_config where
  "server_tls_config = \<lparr>MinVersion = VersionTLS12,
     CipherSuites = [ECDHE_ECDSA_WITH_AES_128_GCM_SHA256, ECDHE_RSA_WITH_AES_128_GCM_SHA256,
       ECDHE_ECDSA_WITH_AES_256_GCM_SHA384, ECDHE_RSA_WITH_AES_256_GCM_SHA384,
       ECDHE_ECDSA_WITH_CHACHA20_POLY1305, ECDHE_RSA_WITH_CHACHA20_POLY1305]\<rparr>"

definition default_output_expression :: string where
  "default_output_expression = [CHR 0x0A] @ ''has(object.ok)'' @ [CHR 0x0A, CHR 0x09] @
     ''? httpserver.HttpResponse{ status: 200 }'' @ [CHR 0x0A, CHR 0x09] @
     '': httpserver.HttpResponse{ status: 403, body: bytes(object.denied.reason) }'' @ [CHR 0x0A]"

definition input_program :: "('e, 'ast, 'id, 'x) server_cel \<Rightarrow> 'e \<Rightarrow> string
    \<Rightarrow> go_error + (('id, 'x) CheckRequest \<Rightarrow> go_error + ('id, 'x) input_value) option" where
  "input_program L base expr =
     (if expr \<noteq> [] then
        (case cel_Extend L base [Variable ''object'' http_RequestType] of
           Inl err \<Rightarrow> Inl err
         | Inr inputEnv \<Rightarrow>
             (case srv_Compile L inputEnv expr of
                Inl err \<Rightarrow> Inl err
              | Inr inputAst \<Rightarrow>
                  (case srv_input_Program L inputEnv inputAst of
                     Inl err \<Rightarrow> Inl err
                   | Inr program \<Rightarrow> Inr (Some program))))
      else Inr None)"

definition output_program :: "('e, 'ast, 'id, 'x) server_cel \<Rightarrow> 'e \<Rightarrow> string
    \<Rightarrow> go_error + (CheckResponse \<Rightarrow> go_error + (go_error + HttpResponse))" where
  "output_program L base expr =
     (let expr = (if expr = [] then default_output_expression else expr)
      in case cel_Extend L base [Variable ''object'' http_ResponseType, Library LibHttpServer] of
           Inl err \<Rightarrow> Inl err
         | Inr outputEnv \<Rightarrow>
             (case srv_Compile L outputEnv expr of
                Inl err \<Rightarrow> Inl err
              | Inr outputAst \<Rightarrow> srv_output_Program L outputEnv outputAst))"

text \<open>Either an error before anything is served, or the server that is then run.\<close>

definition NewHttpServer :: "('e, 'ast, 'id, 'x) server_cel \<Rightarrow> ('id, 'x) request_reader
    \<Rightarrow> (('id, 'x) CheckRequest \<Rightarrow> metrics \<Rightarrow> CheckResponse evaluation \<times> metrics)
    \<Rightarrow> http_config \<Rightarrow> go_error + ('id, 'x) http_server" where
  "NewHttpServer L R eng config =
     (case NewEnv (cel_lib.truncate L) EvaluationModeHTTP of
        Inl err \<Rightarrow> Inl err
      | Inr base \<Rightarrow>
     (case input_program L base (c_InputExpression config) of
        Inl err \<Rightarrow> Inl err
      | Inr inputProg \<Rightarrow>
     (case output_program L base (c_OutputExpression config) of
        Inl err \<Rightarrow> Inl err
      | Inr outputProg \<Rightarrow>
          Inr \<lparr>hs_Addr = c_Address config,
               hs_pattern = ''POST /{$}'',
               hs_handler = NewAuthorizer eng inputProg outputProg (c_NestedRequest config) (rr_ReadRequest R) (rr_newRequest R)
                 (rr_vectors R),
               hs_TLSConfig = (if c_CertFile config \<noteq> [] \<and> c_KeyFile config \<noteq> [] then Some server_tls_config else None),
               hs_certFile = c_CertFile config, hs_keyFile = c_KeyFile config\<rparr>)))"

definition run_http_server :: "('id, 'x) http_server \<Rightarrow> server_run \<Rightarrow> server_run \<Rightarrow> bool" where
  "run_http_server s = RunHttp (hs_certFile s) (hs_keyFile s)"

section \<open>The Envoy server\<close>

datatype grpc_service = AuthorizationService | ReflectionService

record 'm envoy_server =
  es_services :: "grpc_service list"
  es_service :: "'m service"
  es_listener :: "string \<times> string"

definition NewEnvoyServer :: "(string \<Rightarrow> string \<Rightarrow> go_error option)
    \<Rightarrow> (envoy_request \<Rightarrow> metrics \<Rightarrow> 'm EnvoyResponse evaluation \<times> metrics)
    \<Rightarrow> string \<Rightarrow> string \<Rightarrow> go_error + 'm envoy_server" where
  "NewEnvoyServer Listen eng network addr =
     (let svc = \<lparr>s_engine = eng\<rparr>;
          services = [AuthorizationService, ReflectionService]
      in case Listen network addr of
           Some err \<Rightarrow> Inl err
         | None \<Rightarrow> Inr \<lparr>es_services = services, es_service = svc, es_listener = (network, addr)\<rparr>)"

section \<open>Lemmas on the engine\<close>

text \<open>Recording metrics does not change what the policies say.\<close>

lemma sequential_run_metrics:
  "fst (sequential_run (\<lambda>p. MetricsEvaluatorFactory named evaluate c p req) brk ps m)
     = sequential (\<lambda>p. evaluate p req) brk ps"
proof (induction ps arbitrary: m)
  case (Cons p ps)
  obtain m1 where "MetricsEvaluatorFactory named evaluate c p req m = (evaluate p req, m1)"
    by (simp add: MetricsEvaluatorFactory_def Let_def)
  moreover obtain outs m2 where r: "sequential_run (\<lambda>p. MetricsEvaluatorFactory named evaluate c p req) brk ps m1 = (outs, m2)"
    by (metis surj_pair)
  moreover have "outs = sequential (\<lambda>p. evaluate p req) brk ps" using Cons [of m1] r by simp
  ultimately show ?case by (simp add: Let_def)
qed simp

lemma dispatch_law_first:
  assumes "dispatch_law core"
  shows "first_dispatch_engine (\<lambda>req. fst (core (MetricsEvaluatorFactory named evaluate c) brk dec policies req m))
    evaluate brk dec policies"
  unfolding first_dispatch_engine_def
proof
  fix req
  obtain outs m' where r: "sequential_run (\<lambda>p. MetricsEvaluatorFactory named evaluate c p req) brk policies m = (outs, m')"
    by (metis surj_pair)
  then have "outs = sequential (\<lambda>p. evaluate p req) brk policies"
    using sequential_run_metrics [of named evaluate c req brk policies m] by simp
  then show "fst (core (MetricsEvaluatorFactory named evaluate c) brk dec policies req m) =
      (case find dec (sequential (\<lambda>p. evaluate p req) brk policies) of Some out \<Rightarrow> out | None \<Rightarrow> (None, None))"
    using r assms [unfolded dispatch_law_def, rule_format, of "MetricsEvaluatorFactory named evaluate c" brk dec policies req m]
    by simp
qed

text \<open>What an engine answers does not depend on the metrics.\<close>

lemma dispatch_law_metrics_irrelevant:
  assumes "dispatch_law core"
  shows "fst (core (MetricsEvaluatorFactory named evaluate c) brk dec policies req m)
    = fst (core (MetricsEvaluatorFactory named evaluate c) brk dec policies req m')"
  using dispatch_law_first [OF assms, of named evaluate c brk dec policies m]
    dispatch_law_first [OF assms, of named evaluate c brk dec policies m']
  by (simp add: first_dispatch_engine_def)

text \<open>
  The metrics of a run: one evaluation per policy that was evaluated, under its name and class,
  and no request.
\<close>

definition record_policies :: "('p \<Rightarrow> string option) \<Rightarrow> ('o \<Rightarrow> string) \<Rightarrow> ('p \<times> 'o) list \<Rightarrow> metrics \<Rightarrow> metrics" where
  "record_policies named c = fold (\<lambda>(p, out). RecordPolicyDecision (policyName named p) (c out))"

lemma sequential_run_records:
  "snd (sequential_run (\<lambda>p. MetricsEvaluatorFactory named evaluate c p req) brk ps m)
     = record_policies named c (zip ps (sequential (\<lambda>p. evaluate p req) brk ps)) m"
proof (induction ps arbitrary: m)
  case (Cons p ps)
  let ?m1 = "RecordPolicyDecision (policyName named p) (c (evaluate p req)) m"
  have "MetricsEvaluatorFactory named evaluate c p req m = (evaluate p req, ?m1)"
    by (simp add: MetricsEvaluatorFactory_def Let_def)
  moreover obtain outs m2 where r: "sequential_run (\<lambda>p. MetricsEvaluatorFactory named evaluate c p req) brk ps ?m1 = (outs, m2)"
    by (metis surj_pair)
  ultimately show ?case using Cons [of ?m1] r by (simp add: Let_def record_policies_def)
qed (simp add: record_policies_def)

lemma record_policies_requests:
  "authzRequestDecisionsTotal (record_policies named c xs m) = authzRequestDecisionsTotal m"
  by (induction xs arbitrary: m) (auto simp: record_policies_def RecordPolicyDecision_def)

lemma dispatch_law_records:
  assumes "dispatch_law core"
  shows "snd (core (MetricsEvaluatorFactory named evaluate c) brk dec policies req m)
    = record_policies named c (zip policies (sequential (\<lambda>p. evaluate p req) brk policies)) m"
proof -
  obtain outs m' where r: "sequential_run (\<lambda>p. MetricsEvaluatorFactory named evaluate c p req) brk policies m = (outs, m')"
    by (metis surj_pair)
  then show ?thesis
    using assms [unfolded dispatch_law_def, rule_format, of "MetricsEvaluatorFactory named evaluate c" brk dec policies req m]
      sequential_run_records [of named evaluate c req brk policies m]
    by simp
qed

section \<open>Lemmas on the servers\<close>

lemma NewHttpServer_ok:
  assumes "NewHttpServer L R eng config = Inr s"
  obtains base where "NewEnv (cel_lib.truncate L) EvaluationModeHTTP = Inr base"
    "input_program L base (c_InputExpression config) = Inr (inputProgram (hs_handler s))"
    "output_program L base (c_OutputExpression config) = Inr (outputProgram (hs_handler s))"
    "engine (hs_handler s) = eng" "nestedRequest (hs_handler s) = c_NestedRequest config"
    "ReadRequest (hs_handler s) = rr_ReadRequest R" "newRequest (hs_handler s) = rr_newRequest R"
    "metric_vectors (hs_handler s) = rr_vectors R"
  using assms by (auto simp: NewHttpServer_def NewAuthorizer_def split: sum.splits)

text \<open>A server built over a lawful engine counts requests once, as the authorizer assumes.\<close>

lemma http_engine_counts:
  assumes "dispatch_law core" and "engine A = http_engine core named evaluate policies"
  shows "engine_counts_policies A"
  using assms by (simp add: engine_counts_policies_def http_engine_def dispatch_law_records record_policies_requests)

text \<open>Only the engine touches the counters of policies.\<close>

lemma recordings_policy_counters:
  "authzDecisionsTotal (fst (RecordHTTPRequest P q res m)) = authzDecisionsTotal m"
  "authzDecisionsTotal (fst (RecordHTTPRequestError P q m)) = authzDecisionsTotal m"
  by (simp_all add: RecordHTTPRequest_def RecordHTTPRequestError_def with_labels_def and_then_def Let_def
      split: option.split prod.split)

lemma deferred_policy_counters:
  "authzDecisionsTotal (w_metrics (fst (deferred_records A q res d s wp))) = authzDecisionsTotal (w_metrics (fst wp))"
  using recordings_policy_counters(1) [of "metric_vectors A" q "Some res" "w_metrics (fst wp)"]
  by (auto simp: deferred_records_def record_decision_def RecordAuthzDecision_def split: prod.split)

lemma serve_policy_counters:
  assumes "ServeHTTP A it r w = (w', panic)" and "http_read A r = Inr q"
  shows "authzDecisionsTotal (w_metrics w') = authzDecisionsTotal (snd (engine A q (w_metrics w)))"
proof -
  obtain result error m where e: "engine A q (w_metrics w) = ((result, error), m)" by (metis surj_pair)
  have err: "w_metrics (writeErrResp x v) = w_metrics v" for x v
    by (simp add: writeErrResp_def WriteHeader_def split: prod.split)
  show ?thesis
  proof (cases error)
    case (Some x)
    obtain m1 p where r: "RecordHTTPRequestError (metric_vectors A) q m = (m1, p)" by fastforce
    then have "authzDecisionsTotal m1 = authzDecisionsTotal m"
      using recordings_policy_counters(2) [of "metric_vectors A" q m] by simp
    with assms e Some r show ?thesis
      by (cases p) (auto simp: ServeHTTP_def Let_def err record_decision_def push_event_def RecordAuthzDecision_def)
  next
    case None
    obtain res d src where h: "http_result result = (res, d, src)" by (metis surj_pair)
    let ?w = "push_event q (HttpResult res) None (w\<lparr>w_metrics := m\<rparr>)"
    have "\<exists>d src wp. (w', panic) = deferred_records A q res d src wp \<and> w_metrics (fst wp) = m"
    proof (cases "\<exists>resp. outputProgram A res = Inr (Inr resp)")
      case True
      then obtain resp where out: "outputProgram A res = Inr (Inr resp)" by blast
      have "(w', panic) = deferred_records A q res d src (writeResponse it resp ?w)"
        using assms e None h out by (simp add: ServeHTTP_def Let_def)
      moreover have "w_metrics (fst (writeResponse it resp ?w)) = m"
        using writeResponse_sel [of it resp ?w] by (cases "writeResponse it resp ?w") simp
      ultimately show ?thesis by blast
    next
      case False
      then obtain x where "outputProgram A res = Inl x \<or> outputProgram A res = Inr (Inl x)" by (metis sum.exhaust)
      then have "(w', panic) = deferred_records A q res DecisionError SourceServer (writeErrResp x ?w, None)"
        using assms e None h by (auto simp: ServeHTTP_def Let_def)
      moreover have "w_metrics (fst (writeErrResp x ?w, None :: string option)) = m" by (simp add: err)
      ultimately show ?thesis by blast
    qed
    then obtain d src wp where "(w', panic) = deferred_records A q res d src wp" "w_metrics (fst wp) = m" by blast
    with deferred_policy_counters [of A q res d src wp] e show ?thesis by (metis fst_conv snd_conv)
  qed
qed

text \<open>
  The server restricts TLS exactly when it serves TLS, and then to version 1.2 or later with
  suites of forward secrecy; with only one of the two files it serves without TLS.
\<close>

lemma http_server_tls:
  assumes "NewHttpServer L R eng config = Inr s"
  shows "hs_TLSConfig s \<noteq> None \<longleftrightarrow> serve_call (hs_certFile s) (hs_keyFile s) \<noteq> ListenAndServe"
    and "hs_TLSConfig s = None \<or> hs_TLSConfig s = Some server_tls_config"
  using assms by (auto simp: NewHttpServer_def serve_call_def split: sum.splits if_splits)

text \<open>The default expression is used exactly when none is configured.\<close>

lemma output_program_default:
  "output_program L base [] = output_program L base default_output_expression"
  by (simp add: output_program_def default_output_expression_def)

lemma input_program_none: "input_program L base expr = Inr None \<Longrightarrow> expr = []"
  by (auto simp: input_program_def split: if_splits sum.splits)

lemma NewEnvoyServer_ok:
  "NewEnvoyServer Listen eng network addr = Inr s \<Longrightarrow> s_engine (es_service s) = eng \<and> Listen network addr = None"
  by (auto simp: NewEnvoyServer_def Let_def split: option.splits)

text \<open>A lawful engine: the definition of the law itself.\<close>

definition sample_core :: "('p, 'i, 'r) core_engine" where
  "sample_core ev brk dec policies req m =
     (case sequential_run (\<lambda>p. ev p req) brk policies m of
        (outs, m') \<Rightarrow> (case find dec outs of Some out \<Rightarrow> out | None \<Rightarrow> (None, None), m'))"

lemma sample_core_law: "dispatch_law sample_core"
  by (simp add: dispatch_law_def sample_core_def)

end
