(* ===== verification/Libraries.thy ===== *)
theory Libraries
  imports EnvoyLib HttpLib Mcp TokenLib Env
begin

text \<open>
  What the CEL libraries of the repository add to an environment: the \<open>Lib\<close>, \<open>CompileOptions\<close> and
  \<open>ProgramOptions\<close> of \<open>pkg/cel/libs/**/lib.go\<close>, with the functions of their components reduced to
  their signatures, and the environment of each mode assembled from them in the order of
  \<open>NewEnv\<close>. A library of the SDK contributes what its code says: it is a parameter.
\<close>

section \<open>Options\<close>

type_synonym signature = "string \<times> bool \<times> cel_type list \<times> cel_type"

type_synonym signatures = "(string \<times> signature list) list"

definition signatures_of :: "('v, 'r) lib_decls \<Rightarrow> signatures" where
  "signatures_of ds = map (\<lambda>(name, ovs). (name, map (\<lambda>ov. (ov_id ov, ov_member ov, ov_params ov, ov_result ov)) ovs)) ds"

datatype compile_option =
    DeclareVariable string cel_type
  | NativeTypes "string list"
  | ProtoTypes "string list"
  | DeclareConstants "string list"
  | DeclareFunctions signatures
  | UseLibrary library
and library = CelLibrary string "compile_option list" "string list"

text \<open>A library: its name, its compile options and the globals its program options bind.\<close>

definition http_CompileOptions :: "'v http_adapter \<Rightarrow> compile_option list" where
  "http_CompileOptions A =
     [NativeTypes [''http.CheckRequest'', ''http.CheckResponse'', ''http.MCPCheckData'', ''mcp.MCPRequest''],
      DeclareFunctions (signatures_of (http_decls A))]"

definition http_Lib :: "'v http_adapter \<Rightarrow> library" where
  "http_Lib A = CelLibrary http_LibraryName (http_CompileOptions A) []"

definition envoy_extendEnv :: "('v, 'm) envoy_adapter \<Rightarrow> compile_option list" where
  "envoy_extendEnv A = [DeclareFunctions (signatures_of (envoy_decls A))]"

definition envoy_CompileOptions :: "('v, 'm) envoy_adapter \<Rightarrow> compile_option list" where
  "envoy_CompileOptions A =
     [ProtoTypes [''envoy.service.auth.v3.CheckRequest'', ''envoy.service.auth.v3.DeniedHttpResponse'',
        ''envoy.service.auth.v3.OkHttpResponse'', ''google.rpc.Status'', ''google.protobuf.Struct'']] @ envoy_extendEnv A"

definition envoy_Lib :: "('v, 'm) envoy_adapter \<Rightarrow> library" where
  "envoy_Lib A = CelLibrary envoy_LibraryName (envoy_CompileOptions A) []"

definition jwk_extendEnv :: "('v, 'set, 'st) token_adapter \<Rightarrow> ('key, 'set, 'tok, 'x, 'st) jwt_package \<Rightarrow> compile_option list" where
  "jwk_extendEnv A P = [DeclareFunctions (signatures_of (jwk_decls A P))]"

definition jwk_CompileOptions :: "('v, 'set, 'st) token_adapter \<Rightarrow> ('key, 'set, 'tok, 'x, 'st) jwt_package \<Rightarrow> compile_option list" where
  "jwk_CompileOptions A P = [NativeTypes [''jwk.Set'']] @ jwk_extendEnv A P"

definition jwk_Lib :: "('v, 'set, 'st) token_adapter \<Rightarrow> ('key, 'set, 'tok, 'x, 'st) jwt_package \<Rightarrow> library" where
  "jwk_Lib A P = CelLibrary jwk_LibraryName (jwk_CompileOptions A P) []"

definition jwt_extendEnv :: "('v, 'set, 'st) token_adapter \<Rightarrow> ('key, 'set, 'tok, 'x, 'st) jwt_package \<Rightarrow> compile_option list" where
  "jwt_extendEnv A P = [DeclareFunctions (signatures_of (jwt_decls A P))]"

definition jwt_CompileOptions :: "('v, 'set, 'st) token_adapter \<Rightarrow> ('key, 'set, 'tok, 'x, 'st) jwt_package \<Rightarrow> compile_option list" where
  "jwt_CompileOptions A P =
     [UseLibrary (jwk_Lib A P), NativeTypes [''jwt.Token'']] @ jwt_extendEnv A P"

definition jwt_Lib :: "('v, 'set, 'st) token_adapter \<Rightarrow> ('key, 'set, 'tok, 'x, 'st) jwt_package \<Rightarrow> library" where
  "jwt_Lib A P = CelLibrary jwt_LibraryName (jwt_CompileOptions A P) []"

definition json_extendEnv :: "('v, 'j) json_adapter \<Rightarrow> compile_option list" where
  "json_extendEnv A = [DeclareFunctions (signatures_of (json_decls A))]"

definition json_CompileOptions :: "('v, 'j) json_adapter \<Rightarrow> compile_option list" where
  "json_CompileOptions A =
     [DeclareVariable ''json'' JsonType, NativeTypes [''json.Json'']] @ json_extendEnv A"

definition json_Lib :: "('v, 'j) json_adapter \<Rightarrow> 'j Json \<Rightarrow> library" where
  "json_Lib A impl = CelLibrary json_LibraryName (json_CompileOptions A) (map fst (json_globals impl))"

definition mcp_extendEnv :: "('id, 'x) mcp_package \<Rightarrow> float_api \<Rightarrow> ('v, 'id, 'x) mcp_adapter \<Rightarrow> compile_option list" where
  "mcp_extendEnv M F A = 
     [DeclareConstants (map fst (mcp_constant_options M)), DeclareFunctions (signatures_of (mcp_decls F A))]"

definition mcp_CompileOptions :: "('id, 'x) mcp_package \<Rightarrow> float_api \<Rightarrow> ('v, 'id, 'x) mcp_adapter \<Rightarrow> compile_option list" where
  "mcp_CompileOptions M F A =
     [DeclareVariable ''mcp'' MCPType, NativeTypes [''mcp.MCP'', ''mcp.MCPRequest'']] @ mcp_extendEnv M F A"

definition mcp_ProgramOptions :: "string list" where
  "mcp_ProgramOptions = [''mcp'']"

definition mcp_Lib :: "('id, 'x) mcp_package \<Rightarrow> float_api \<Rightarrow> ('v, 'id, 'x) mcp_adapter \<Rightarrow> library" where
  "mcp_Lib M F A = CelLibrary mcp_LibraryName (mcp_CompileOptions M F A) mcp_ProgramOptions"

definition httpserver_CompileOptions :: "compile_option list" where
  "httpserver_CompileOptions = [NativeTypes [''httpserver.HttpResponse'']]"

definition httpserver_Lib :: library where
  "httpserver_Lib = CelLibrary httpserver_LibraryName httpserver_CompileOptions []"

section \<open>What an environment holds\<close>

record env_content =
  ec_libraries :: "string list"
  ec_variables :: "string list"
  ec_types :: "string list"
  ec_constants :: "string list"
  ec_functions :: signatures
  ec_globals :: "string list"

definition empty_content :: env_content where
  "empty_content = \<lparr>ec_libraries = [], ec_variables = [], ec_types = [], ec_constants = [], ec_functions = [], ec_globals = []\<rparr>"

text \<open>CEL adds a named library once; its later occurrences are ignored.\<close>

fun add_option :: "compile_option \<Rightarrow> env_content \<Rightarrow> env_content"
  and add_options :: "compile_option list \<Rightarrow> env_content \<Rightarrow> env_content"
  and add_library :: "library \<Rightarrow> env_content \<Rightarrow> env_content" where
  "add_option (DeclareVariable x t) e = e\<lparr>ec_variables := ec_variables e @ [x]\<rparr>"
| "add_option (NativeTypes ts) e = e\<lparr>ec_types := ec_types e @ ts\<rparr>"
| "add_option (ProtoTypes ts) e = e\<lparr>ec_types := ec_types e @ ts\<rparr>"
| "add_option (DeclareConstants cs) e = e\<lparr>ec_constants := ec_constants e @ cs\<rparr>"
| "add_option (DeclareFunctions fs) e = e\<lparr>ec_functions := ec_functions e @ fs\<rparr>"
| "add_option (UseLibrary l) e = add_library l e"
| "add_options [] e = e"
| "add_options (opt # opts) e = add_options opts (add_option opt e)"
| "add_library (CelLibrary name opts globals) e =
     (if name \<in> set (ec_libraries e) then e
      else add_options opts (e\<lparr>ec_libraries := ec_libraries e @ [name], ec_globals := ec_globals e @ globals\<rparr>))"

fun add_libraries :: "library list \<Rightarrow> env_content \<Rightarrow> env_content" where
  "add_libraries [] e = e"
| "add_libraries (l # ls) e = add_libraries ls (add_library l e)"

text \<open>The libraries of the repository among the options \<open>NewEnv\<close> builds an environment from.\<close>

record ('v, 'm, 'set, 'st, 'key, 'tok, 'y, 'j, 'id, 'x) lib_impls =
  li_http :: "'v http_adapter"
  li_envoy :: "('v, 'm) envoy_adapter"
  li_token :: "('v, 'set, 'st) token_adapter"
  li_jwt :: "('key, 'set, 'tok, 'y, 'st) jwt_package"
  li_json :: "('v, 'j) json_adapter"
  li_jsonImpl :: "'j Json"
  li_mcp :: "('id, 'x) mcp_package"
  li_float :: float_api
  li_mcpAdapter :: "('v, 'id, 'x) mcp_adapter"

fun own_library :: "('v, 'm, 'set, 'st, 'key, 'tok, 'y, 'j, 'id, 'x) lib_impls \<Rightarrow> env_option \<Rightarrow> library list" where
  "own_library I (Library LibAuthzHTTP) = [http_Lib (li_http I)]"
| "own_library I (Library LibAuthzEnvoy) = [envoy_Lib (li_envoy I)]"
| "own_library I (Library LibJwt) = [jwt_Lib (li_token I) (li_jwt I)]"
| "own_library I (Library LibJson) = [json_Lib (li_json I) (li_jsonImpl I)]"
| "own_library I (Library LibMcp) = [mcp_Lib (li_mcp I) (li_float I) (li_mcpAdapter I)]"
| "own_library I (Library LibHttpServer) = [httpserver_Lib]"
| "own_library I _ = []"

definition own_content :: "('v, 'm, 'set, 'st, 'key, 'tok, 'y, 'j, 'id, 'x) lib_impls \<Rightarrow> env_option list \<Rightarrow> env_content" where
  "own_content I opts = add_libraries (concat (map (own_library I) opts)) empty_content"

section \<open>Lemmas\<close>

lemma signatures_of_names: "map fst (signatures_of ds) = map fst ds"
  by (induction ds) (auto simp: signatures_of_def)

text \<open>A library that is there already changes nothing.\<close>

lemma add_library_twice:
  "name \<in> set (ec_libraries e) \<Longrightarrow> add_library (CelLibrary name opts globals) e = e"
  by simp

lemmas library_defs = envoy_extendEnv_def jwk_extendEnv_def jwt_extendEnv_def json_extendEnv_def mcp_extendEnv_def
  http_Lib_def http_CompileOptions_def envoy_Lib_def envoy_CompileOptions_def jwk_Lib_def jwk_CompileOptions_def
  jwt_Lib_def jwt_CompileOptions_def json_Lib_def json_CompileOptions_def json_globals_def mcp_Lib_def mcp_CompileOptions_def
  mcp_ProgramOptions_def httpserver_Lib_def httpserver_CompileOptions_def http_LibraryName_def envoy_LibraryName_def
  jwk_LibraryName_def jwt_LibraryName_def json_LibraryName_def mcp_LibraryName_def httpserver_LibraryName_def

lemmas library_decls = http_decls_def envoy_decls_def jwk_decls_def jwt_decls_def json_decls_def mcp_decls_def

definition common_content :: "('v, 'm, 'set, 'st, 'key, 'tok, 'y, 'j, 'id, 'x) lib_impls \<Rightarrow> env_content \<Rightarrow> env_content" where
  "common_content I e =
    \<lparr>ec_libraries = ec_libraries e @ [''kyverno.jwt'', ''kyverno.jwk'', ''kyverno.json'', ''kyverno.mcp''],
     ec_variables = ec_variables e @ [''json'', ''mcp''],
     ec_types = ec_types e @ [''jwk.Set'', ''jwt.Token'', ''json.Json'', ''mcp.MCP'', ''mcp.MCPRequest''],
     ec_constants = ec_constants e @ map fst (mcp_constant_options (li_mcp I)),
     ec_functions = ec_functions e @ signatures_of (jwk_decls (li_token I) (li_jwt I)) @ signatures_of (jwt_decls (li_token I) (li_jwt I))
       @ signatures_of (json_decls (li_json I)) @ signatures_of (mcp_decls (li_float I) (li_mcpAdapter I)),
     ec_globals = ec_globals e @ [''json'', ''mcp'']\<rparr>"

lemma own_content_envoy:
  "own_content I (base_options @ Library LibAuthzEnvoy # kyverno_libs) = common_content I
     (empty_content\<lparr>ec_libraries := [''kyverno.authz.envoy''],
        ec_types := [''envoy.service.auth.v3.CheckRequest'', ''envoy.service.auth.v3.DeniedHttpResponse'',
          ''envoy.service.auth.v3.OkHttpResponse'', ''google.rpc.Status'', ''google.protobuf.Struct''],
        ec_functions := signatures_of (envoy_decls (li_envoy I))\<rparr>)"
  by (simp add: own_content_def base_options_def kyverno_libs_def library_defs empty_content_def common_content_def)

lemma own_content_http:
  "own_content I (base_options @ Library LibAuthzHTTP # kyverno_libs) = common_content I
     (empty_content\<lparr>ec_libraries := [''kyverno.authz.http''],
        ec_types := [''http.CheckRequest'', ''http.CheckResponse'', ''http.MCPCheckData'', ''mcp.MCPRequest''],
        ec_functions := signatures_of (http_decls (li_http I))\<rparr>)"
  by (simp add: own_content_def base_options_def kyverno_libs_def library_defs empty_content_def common_content_def)

text \<open>An environment is consistent when nothing is declared twice and every variable of a library is bound.\<close>

definition content_ok :: "env_content \<Rightarrow> bool" where
  "content_ok e \<longleftrightarrow> distinct (ec_libraries e)
     \<and> distinct (map fst (ec_functions e)) \<and> distinct (map fst (concat (map snd (ec_functions e))))
     \<and> distinct (ec_variables e @ ec_constants e) \<and> set (ec_globals e) = set (ec_variables e)"

section \<open>Properties\<close>

text \<open>
  The libraries of the repository fit together: in the environment of each mode no function, overload,
  variable or constant is declared twice although four libraries declare them independently and
  one brings another in, every variable a library declares is bound by its program options, and the
  library of the other mode is absent.
\<close>

lemma libraries_fit_together:
  assumes "NewEnv list_cel_lib evalMode = Inr opts"
  shows "content_ok (own_content I opts)
    \<and> ec_libraries (own_content I opts) =
        (if evalMode = EvaluationModeEnvoy then ''kyverno.authz.envoy'' else ''kyverno.authz.http'')
          # [''kyverno.jwt'', ''kyverno.jwk'', ''kyverno.json'', ''kyverno.mcp'']"
proof -
  consider "evalMode = EvaluationModeEnvoy" | "evalMode = EvaluationModeHTTP"
    using NewEnv_valid_mode [OF assms] by blast
  then show ?thesis
  proof cases
    case 1
    with assms have "opts = base_options @ Library LibAuthzEnvoy # kyverno_libs" by (simp add: NewEnv_list_options)
    with 1 show ?thesis
      by (simp add: own_content_envoy content_ok_def common_content_def empty_content_def mcp_constant_options_def
          mcpConstants_def library_decls signatures_of_def Overload_def MemberOverload_def)
  next
    case 2
    with assms have "opts = base_options @ Library LibAuthzHTTP # kyverno_libs" by (simp add: NewEnv_list_options)
    with 2 show ?thesis
      by (simp add: own_content_http content_ok_def common_content_def empty_content_def mcp_constant_options_def
          mcpConstants_def library_decls signatures_of_def Overload_def MemberOverload_def)
  qed
qed

lemma libraries_fit_together_sample:
  "\<forall>I :: (nat, nat, nat, nat, nat, nat, nat, nat, nat, nat) lib_impls.
     content_ok (own_content I (base_options @ Library LibAuthzHTTP # kyverno_libs))"
proof
  fix I :: "(nat, nat, nat, nat, nat, nat, nat, nat, nat, nat) lib_impls"
  show "content_ok (own_content I (base_options @ Library LibAuthzHTTP # kyverno_libs))"
    using libraries_fit_together [OF NewEnv_list_options(2), of I] by simp
qed

end
