(* ===== verification/Cluster.thy ===== *)
theory Cluster
  imports Prelude
begin

text \<open>
  What policies and servers ask of the cluster and of image registries: the resource provider and
  the image data loader behind the CEL context libraries (\<open>pkg/engine/variables\<close>) and the check
  whether a custom resource definition exists (\<open>pkg/utils/crd.go\<close>). The dynamic client, label
  selectors and the image loader are parameters.
\<close>

section \<open>Resources\<close>

record GroupVersion =
  gv_Group :: string
  gv_Version :: string

record GroupVersionResource =
  gvr_Group :: string
  gvr_Version :: string
  gvr_Resource :: string

definition WithResource :: "GroupVersion \<Rightarrow> string \<Rightarrow> GroupVersionResource" where
  "WithResource gv resource = \<lparr>gvr_Group = gv_Group gv, gvr_Version = gv_Version gv, gvr_Resource = resource\<rparr>"

text \<open>The interface of one resource, in all namespaces (\<open>None\<close>) or in one.\<close>

datatype resource_client = ResourceClient GroupVersionResource "string option"

record ('list, 'obj, 'data) dynamic_client =
  client_List :: "resource_client \<Rightarrow> string \<Rightarrow> go_error + 'list"
  client_Get :: "resource_client \<Rightarrow> string \<Rightarrow> go_error + 'obj"
  client_Create :: "resource_client \<Rightarrow> 'data \<Rightarrow> go_error + 'obj"

record label_package =
  ParseGroupVersion :: "string \<Rightarrow> go_error + GroupVersion"
  Everything :: string
  SelectorFromSet :: "(string \<rightharpoonup> string) \<Rightarrow> string"

text \<open>The provider; without a cluster its client is nil.\<close>

record ('list, 'obj, 'data) resourceProvider =
  rp_client :: "('list, 'obj, 'data) dynamic_client option"

definition NewResourceProvider :: "('list, 'obj, 'data) dynamic_client option \<Rightarrow> ('list, 'obj, 'data) resourceProvider" where
  "NewResourceProvider client = \<lparr>rp_client = client\<rparr>"

text \<open>Asking a nil client for a resource dereferences nil.\<close>

definition getResourceClient :: "('list, 'obj, 'data) resourceProvider \<Rightarrow> GroupVersion \<Rightarrow> string \<Rightarrow> string
    \<Rightarrow> (('list, 'obj, 'data) dynamic_client \<times> resource_client) outcome" where
  "getResourceClient rp groupVersion resource namespace =
     (case rp_client rp of
        None \<Rightarrow> Panic nil_deref
      | Some client \<Rightarrow>
          Ret (client, ResourceClient (WithResource groupVersion resource) (if namespace \<noteq> [] then Some namespace else None)))"

definition ListResources :: "label_package \<Rightarrow> ('list, 'obj, 'data) resourceProvider \<Rightarrow> string \<Rightarrow> string \<Rightarrow> string
    \<Rightarrow> (string \<rightharpoonup> string) \<Rightarrow> (go_error + 'list) outcome" where
  "ListResources P rp apiVersion resource namespace l =
     (case ParseGroupVersion P apiVersion of
        Inl err \<Rightarrow> Ret (Inl err)
      | Inr groupVersion \<Rightarrow>
          bind_outcome (getResourceClient rp groupVersion resource namespace) (\<lambda>(client, rc).
            let labelSelector = (if dom l \<noteq> {} then SelectorFromSet P l else Everything P)
            in Ret (client_List client rc labelSelector)))"

definition GetResource :: "label_package \<Rightarrow> ('list, 'obj, 'data) resourceProvider \<Rightarrow> string \<Rightarrow> string \<Rightarrow> string \<Rightarrow> string
    \<Rightarrow> (go_error + 'obj) outcome" where
  "GetResource P rp apiVersion resource namespace name =
     (case ParseGroupVersion P apiVersion of
        Inl err \<Rightarrow> Ret (Inl err)
      | Inr groupVersion \<Rightarrow>
          bind_outcome (getResourceClient rp groupVersion resource namespace) (\<lambda>(client, rc).
            Ret (client_Get client rc name)))"

definition PostResource :: "label_package \<Rightarrow> ('list, 'obj, 'data) resourceProvider \<Rightarrow> string \<Rightarrow> string \<Rightarrow> string \<Rightarrow> 'data
    \<Rightarrow> (go_error + 'obj) outcome" where
  "PostResource P rp apiVersion resource namespace data =
     (case ParseGroupVersion P apiVersion of
        Inl err \<Rightarrow> Ret (Inl err)
      | Inr groupVersion \<Rightarrow>
          bind_outcome (getResourceClient rp groupVersion resource namespace) (\<lambda>(client, rc).
            Ret (client_Create client rc data)))"

definition ToGVR :: "string \<Rightarrow> string \<Rightarrow> (go_error + GroupVersionResource) outcome" where
  "ToGVR apiVersion kind = Panic ''not implemented''"

section \<open>Image data\<close>

record ('lister, 'opts, 'fetcher, 'image, 'value) image_loader =
  imagedataloader_New :: "'lister \<Rightarrow> 'opts \<Rightarrow> go_error + 'fetcher"
  FetchImageData :: "'fetcher \<Rightarrow> string \<Rightarrow> 'opts \<Rightarrow> go_error + 'image"
  GetValue :: "'image \<Rightarrow> go_error + 'value"

record 'fetcher imageData =
  imagedata :: 'fetcher

definition ImageData :: "('lister, 'opts, 'fetcher, 'image, 'value) image_loader \<Rightarrow> 'lister \<Rightarrow> 'opts \<Rightarrow> go_error + 'fetcher imageData" where
  "ImageData L lister imageOpts =
     (case imagedataloader_New L lister imageOpts of
        Inl err \<Rightarrow> Inl err
      | Inr idl \<Rightarrow> Inr \<lparr>imagedata = idl\<rparr>)"

definition GetImageData :: "('lister, 'opts, 'fetcher, 'image, 'value) image_loader \<Rightarrow> 'fetcher imageData \<Rightarrow> string \<Rightarrow> 'opts
    \<Rightarrow> go_error + 'value" where
  "GetImageData L cp ref imageOpts =
     (case FetchImageData L (imagedata cp) ref imageOpts of
        Inl err \<Rightarrow> Inl err
      | Inr data \<Rightarrow> GetValue L data)"

section \<open>Custom resource definitions\<close>

text \<open>The client of a configuration, or its error; reading a definition by name.\<close>

definition check_crd_exists :: "go_error + (string \<Rightarrow> go_error option) \<Rightarrow> string \<Rightarrow> go_error + bool" where
  "check_crd_exists client crdName =
     (case client of
        Inl err \<Rightarrow> Inl err
      | Inr Get \<Rightarrow>
          (case Get crdName of
             Some err \<Rightarrow> if is_not_found err then Inr False else Inl err
           | None \<Rightarrow> Inr True))"

section \<open>Lemmas\<close>

text \<open>
  With a cluster every lookup returns; without one a lookup of a well-formed API version panics,
  only a malformed one is an error.
\<close>

lemma resources_with_cluster:
  "returns (ListResources P (NewResourceProvider (Some c)) v res ns l)"
  "returns (GetResource P (NewResourceProvider (Some c)) v res ns n)"
  "returns (PostResource P (NewResourceProvider (Some c)) v res ns d)"
  by (auto simp: ListResources_def GetResource_def PostResource_def getResourceClient_def NewResourceProvider_def Let_def
      split: sum.split)

lemma resources_without_cluster:
  assumes "ParseGroupVersion P v = Inr gv"
  shows "ListResources P (NewResourceProvider None) v res ns l = Panic nil_deref"
    and "GetResource P (NewResourceProvider None) v res ns n = Panic nil_deref"
    and "PostResource P (NewResourceProvider None) v res ns d = Panic nil_deref"
  using assms by (simp_all add: ListResources_def GetResource_def PostResource_def getResourceClient_def NewResourceProvider_def)

text \<open>All three operations address the same resource: the one of the parsed version, in the given namespace.\<close>

lemma resources_address:
  assumes "ParseGroupVersion P v = Inr gv" and "getResourceClient rp gv res ns = Ret (c, rc)"
  shows "GetResource P rp v res ns n = Ret (client_Get c rc n)"
    and "PostResource P rp v res ns d = Ret (client_Create c rc d)"
    and "\<exists>sel. ListResources P rp v res ns l = Ret (client_List c rc sel) \<and> (l = Map.empty \<longrightarrow> sel = Everything P)"
    and "rc = ResourceClient \<lparr>gvr_Group = gv_Group gv, gvr_Version = gv_Version gv, gvr_Resource = res\<rparr>
           (if ns = [] then None else Some ns)"
  using assms
  by (auto simp: ListResources_def GetResource_def PostResource_def getResourceClient_def WithResource_def Let_def
      split: option.splits)

lemma crd_missing_is_no_error: "check_crd_exists client n = Inr b \<Longrightarrow> \<exists>Get. client = Inr Get \<and> (b \<longleftrightarrow> Get n = None)"
  by (auto simp: check_crd_exists_def split: sum.splits option.splits if_splits)

lemma image_data_errors:
  "ImageData L lister opts = Inr d \<Longrightarrow> GetImageData L d ref opts' = Inr v \<Longrightarrow>
   \<exists>f x. imagedataloader_New L lister opts = Inr f \<and> FetchImageData L f ref opts' = Inr x \<and> GetValue L x = Inr v"
  by (auto simp: ImageData_def GetImageData_def split: sum.splits)

end
