(* ===== verification/CommandLine.thy ===== *)
theory CommandLine
  imports Prelude
begin

text \<open>
  The command line: the tree of commands (\<open>pkg/commands\<close>, \<open>main.go\<close>), the version command
  (\<open>pkg/version\<close>, \<open>pkg/commands/version\<close>) and the lookup of a command by its path in the generator
  of the reference documentation (\<open>website/commands/main.go\<close>). Parsing arguments and help texts
  are the work of cobra.
\<close>

section \<open>The tree of commands\<close>

datatype command = Command (cmd_name: string) (cmd_aliases: "string list") (cmd_children: "command list")

definition leaf_command :: "string \<Rightarrow> command" where
  "leaf_command name = Command name [] []"

definition version_command :: command where "version_command = leaf_command ''version''"
definition http_command :: command where
  "http_command = Command ''http'' [] [leaf_command ''authz-server'', leaf_command ''validation-webhook'']"
definition envoy_command :: command where
  "envoy_command = Command ''envoy'' [] [leaf_command ''authz-server'', leaf_command ''validation-webhook'']"
definition serve_command :: command where
  "serve_command = Command ''serve'' [] [envoy_command, http_command, leaf_command ''sidecar-injector'']"
definition root_command :: command where
  "root_command = Command ''kyverno-authz'' [] [serve_command, version_command]"

text \<open>The exit status, when the program exits with one of its own.\<close>

definition main_exit :: "go_error option \<Rightarrow> int option" where
  "main_exit execute_err = (case execute_err of Some err \<Rightarrow> Some 1 | None \<Rightarrow> None)"

section \<open>Finding a command\<close>

text \<open>
  A part of the path selects the first child that has it as its name or among its aliases;
  \<open>path\<close> are the names of the commands above, for the message.
\<close>

fun find_child :: "string \<Rightarrow> command list \<Rightarrow> command option" where
  "find_child part [] = None"
| "find_child part (child # rest) =
     (if cmd_name child = part then Some child
      else if part \<in> set (cmd_aliases child) then Some child
      else find_child part rest)"

fun join_names :: "string list \<Rightarrow> string" where
  "join_names [] = []"
| "join_names [n] = n"
| "join_names (n # ns) = n @ '' '' @ join_names ns"

definition not_found_message :: "string \<Rightarrow> string \<Rightarrow> string list \<Rightarrow> string" where
  "not_found_message cmdPath part path =
     ''command path '' @ [CHR 0x27] @ cmdPath @ [CHR 0x27] @ '' not found: could not find '' @ [CHR 0x27] @ part @ [CHR 0x27]
       @ '' under '' @ [CHR 0x27] @ join_names path @ [CHR 0x27]"

fun find_command :: "string \<Rightarrow> string list \<Rightarrow> command \<Rightarrow> string list \<Rightarrow> string + command" where
  "find_command cmdPath path cmd [] = Inr cmd"
| "find_command cmdPath path cmd (part # parts) =
     (case find_child part (cmd_children cmd) of
        Some child \<Rightarrow> find_command cmdPath (path @ [cmd_name child]) child parts
      | None \<Rightarrow> Inl (not_found_message cmdPath part path))"

section \<open>The version\<close>

definition version_notFound :: string where "version_notFound = ''---''"
definition vcsTime :: string where "vcsTime = ''vcs.time''"
definition vcsRevision :: string where "vcsRevision = ''vcs.revision''"

record build_info =
  bi_Main_Version :: string
  bi_Settings :: "(string \<times> string) list"

text \<open>\<open>BuildVersion\<close> is a variable of the package: it is passed and returned. The reader may fail.\<close>

definition version :: "build_info option \<Rightarrow> string \<Rightarrow> string \<times> string" where
  "version reader BuildVersion =
     (if BuildVersion = [] then
        (case reader of
           None \<Rightarrow> (version_notFound, BuildVersion)
         | Some bi \<Rightarrow>
             if bi_Main_Version bi = [] then (version_notFound, BuildVersion)
             else (let BuildVersion = bi_Main_Version bi in (BuildVersion, BuildVersion)))
      else (BuildVersion, BuildVersion))"

fun tryFindSetting :: "string \<Rightarrow> (string \<times> string) list \<Rightarrow> string" where
  "tryFindSetting key [] = version_notFound"
| "tryFindSetting key ((k, v) # settings) = (if k = key then v else tryFindSetting key settings)"

definition version_time :: "build_info option \<Rightarrow> string" where
  "version_time reader = (case reader of None \<Rightarrow> version_notFound | Some bi \<Rightarrow> tryFindSetting vcsTime (bi_Settings bi))"

definition version_hash :: "build_info option \<Rightarrow> string" where
  "version_hash reader = (case reader of None \<Rightarrow> version_notFound | Some bi \<Rightarrow> tryFindSetting vcsRevision (bi_Settings bi))"

text \<open>
  The version command writes three lines; the first one that cannot be written ends it. The
  \<open>i\<close>-th write fails with \<open>write_err i\<close>. It returns its error, what it wrote and \<open>BuildVersion\<close>.
\<close>

fun write_lines :: "(nat \<Rightarrow> go_error option) \<Rightarrow> nat \<Rightarrow> string list \<Rightarrow> go_error option \<times> string list" where
  "write_lines write_err i [] = (None, [])"
| "write_lines write_err i (line # rest) =
     (case write_err i of
        Some err \<Rightarrow> (Some err, [])
      | None \<Rightarrow> (case write_lines write_err (Suc i) rest of (err, written) \<Rightarrow> (err, line # written)))"

definition run_version :: "(nat \<Rightarrow> go_error option) \<Rightarrow> build_info option \<Rightarrow> string \<Rightarrow> (go_error option \<times> string list) \<times> string" where
  "run_version write_err reader BuildVersion =
     (case version reader BuildVersion of
        (v, BuildVersion) \<Rightarrow>
          (write_lines write_err 0
             [''Version: '' @ v @ [CHR 0x0A], ''Time: '' @ version_time reader @ [CHR 0x0A],
              ''Git commit ID: '' @ version_hash reader @ [CHR 0x0A]], BuildVersion))"

section \<open>Lemmas\<close>

text \<open>Reading the version twice gives the same version, whatever the second reader says.\<close>

lemma version_stable:
  "version reader bv = (v, bv') \<Longrightarrow> v \<noteq> version_notFound \<Longrightarrow> version reader' bv' = (v, bv')"
  by (auto simp: version_def Let_def split: if_splits option.splits)

lemma version_never_empty: "fst (version reader bv) \<noteq> []"
  by (auto simp: version_def version_notFound_def Let_def split: option.split)

lemma tryFindSetting_map_of: "tryFindSetting key settings = (case map_of settings key of Some v \<Rightarrow> v | None \<Rightarrow> version_notFound)"
  by (induction key settings rule: tryFindSetting.induct) auto

lemma write_lines_prefix:
  "write_lines e i ls = (err, written) \<Longrightarrow> \<exists>rest. ls = written @ rest \<and> (err = None \<longleftrightarrow> rest = [])"
proof (induction e i ls arbitrary: err written rule: write_lines.induct)
  case (2 e i line rest)
  show ?case
  proof (cases "e i")
    case None
    obtain err' w where w: "write_lines e (Suc i) rest = (err', w)" by (metis surj_pair)
    with 2 None obtain r where "rest = w @ r" "err' = None \<longleftrightarrow> r = []" by blast
    with 2(2) None w show ?thesis by auto
  next
    case (Some a)
    with 2(2) have "err = Some a" "written = []" by simp_all
    then show ?thesis by simp
  qed
qed simp

text \<open>
  A path of names leads to a command: in a tree whose siblings differ in all their names and
  aliases, looking it up finds exactly that command.
\<close>

inductive at_path :: "command \<Rightarrow> string list \<Rightarrow> command \<Rightarrow> bool" where
  at_here: "at_path cmd [] cmd"
| at_child: "child \<in> set (cmd_children cmd) \<Longrightarrow> at_path child parts c \<Longrightarrow> at_path cmd (cmd_name child # parts) c"

inductive_cases at_path_NilE: "at_path cmd [] c"
inductive_cases at_path_ConsE: "at_path cmd (p # ps) c"

fun unambiguous :: "command \<Rightarrow> bool" where
  "unambiguous (Command n as cs) \<longleftrightarrow>
     distinct (concat (map (\<lambda>c. cmd_name c # cmd_aliases c) cs)) \<and> (\<forall>c \<in> set cs. unambiguous c)"

lemma find_child_name:
  assumes "distinct (concat (map (\<lambda>c. cmd_name c # cmd_aliases c) cs))" and "child \<in> set cs"
  shows "find_child (cmd_name child) cs = Some child"
  using assms
proof (induction cs)
  case (Cons c cs)
  show ?case
  proof (cases "child = c")
    case False
    with Cons.prems(2) have "child \<in> set cs" by simp
    then have "cmd_name child \<in> set (concat (map (\<lambda>c. cmd_name c # cmd_aliases c) cs))" by auto
    with Cons.prems(1) have "cmd_name c \<noteq> cmd_name child" "cmd_name child \<notin> set (cmd_aliases c)" by auto
    with Cons \<open>child \<in> set cs\<close> show ?thesis by simp
  qed simp
qed simp

lemma find_command_at_path:
  "at_path cmd parts c \<Longrightarrow> unambiguous cmd \<Longrightarrow> find_command cmdPath path cmd parts = Inr c"
proof (induction arbitrary: path rule: at_path.induct)
  case (at_child child cmd parts c)
  have "distinct (concat (map (\<lambda>c. cmd_name c # cmd_aliases c) (cmd_children cmd)))" "unambiguous child"
    using at_child.prems at_child.hyps(1) by (cases cmd; auto)+
  with at_child find_child_name [of "cmd_children cmd" child] show ?case by simp
qed simp

lemma find_child_mem: "find_child part cs = Some c \<Longrightarrow> c \<in> set cs"
  by (induction cs) (auto split: if_splits)

text \<open>Conversely what is found is in the tree, at a path of as many names.\<close>

lemma find_command_sound:
  "find_command cmdPath path cmd parts = Inr c \<Longrightarrow> \<exists>names. at_path cmd names c \<and> length names = length parts"
proof (induction cmdPath path cmd parts rule: find_command.induct)
  case (2 cmdPath path cmd part parts)
  then obtain child where f: "find_child part (cmd_children cmd) = Some child" by (auto split: option.splits)
  with 2 obtain names where "at_path child names c" "length names = length parts" by fastforce
  with find_child_mem [OF f] show ?case by (intro exI [of _ "cmd_name child # names"]) (auto intro: at_child)
qed (auto intro: at_here)

lemma root_command_unambiguous: "unambiguous root_command"
  by (simp add: root_command_def serve_command_def envoy_command_def http_command_def version_command_def leaf_command_def)

lemma root_command_paths:
  "find_command p [''kyverno-authz''] root_command [''serve'', ''envoy'', ''authz-server''] = Inr (leaf_command ''authz-server'')"
  "find_command p [''kyverno-authz''] root_command [''serve'', ''grpc'']
     = Inl (not_found_message p ''grpc'' [''kyverno-authz'', ''serve''])"
  by (simp_all add: root_command_def serve_command_def envoy_command_def leaf_command_def http_command_def version_command_def)

end
