(* ===== verification/DocGen.thy ===== *)
theory DocGen
  imports CommandLine
begin

text \<open>
  The generator of the reference documentation (\<open>website/commands/main.go\<close>): its flags, the path
  and string functions of the standard library it uses, and the files it writes. What cobra writes
  for a command is one action; every action can fail, and a failure ends the program at once.
\<close>

section \<open>Strings and paths\<close>

text \<open>
  The functions of \<open>strings\<close> on ASCII texts, and those of \<open>filepath\<close> for slash-separated paths.
  \<open>after_last\<close> is what follows the last occurrence of a character, or everything.
\<close>

definition is_space :: "char \<Rightarrow> bool" where
  "is_space c \<longleftrightarrow> c \<in> {CHR '' '', CHR 0x09, CHR 0x0A, CHR 0x0B, CHR 0x0C, CHR 0x0D}"

function Fields :: "string \<Rightarrow> string list" where
  "Fields s =
     (let s = dropWhile is_space s
      in if s = [] then [] else takeWhile (\<lambda>c. \<not> is_space c) s # Fields (dropWhile (\<lambda>c. \<not> is_space c) s))"
  by pat_completeness auto
termination
proof (relation "measure length")
  fix s x :: string
  assume x: "x = dropWhile is_space s" "x \<noteq> []"
  then have "\<not> is_space (hd x)" using hd_dropWhile [of is_space s] by simp
  then have "length (dropWhile (\<lambda>c. \<not> is_space c) x) < length x"
    using x(2) by (cases x) (simp_all add: le_imp_less_Suc length_dropWhile_le)
  also have "\<dots> \<le> length s" using x(1) by (simp add: length_dropWhile_le)
  finally show "(dropWhile (\<lambda>c. \<not> is_space c) x, s) \<in> measure length" by simp
qed simp

declare Fields.simps [simp del]

definition ReplaceAll_char :: "char \<Rightarrow> char \<Rightarrow> string \<Rightarrow> string" where
  "ReplaceAll_char old new s = map (\<lambda>c. if c = old then new else c) s"

definition TrimSuffix :: "string \<Rightarrow> string \<Rightarrow> string" where
  "TrimSuffix s suffix =
     (if length suffix \<le> length s \<and> drop (length s - length suffix) s = suffix
      then take (length s - length suffix) s else s)"

definition ascii_upper :: "char \<Rightarrow> char" where
  "ascii_upper c = (let n = of_char c :: nat in if 97 \<le> n \<and> n \<le> 122 then char_of (n - 32) else c)"

definition ascii_lower :: "char \<Rightarrow> char" where
  "ascii_lower c = (let n = of_char c :: nat in if 65 \<le> n \<and> n \<le> 90 then char_of (n + 32) else c)"

definition after_last :: "char \<Rightarrow> string \<Rightarrow> string" where
  "after_last c s = rev (takeWhile (\<lambda>x. x \<noteq> c) (rev s))"

fun split_on :: "char \<Rightarrow> string \<Rightarrow> string list" where
  "split_on c [] = [[]]"
| "split_on c (x # xs) = (if x = c then [] # split_on c xs else (case split_on c xs of [] \<Rightarrow> [[x]] | w # ws \<Rightarrow> (x # w) # ws))"

fun join_with :: "string \<Rightarrow> string list \<Rightarrow> string" where
  "join_with sep [] = []"
| "join_with sep [w] = w"
| "join_with sep (w # ws) = w @ sep @ join_with sep ws"

text \<open>\<open>filepath.Clean\<close>: the elements that are kept, the last one first.\<close>

definition clean_step :: "bool \<Rightarrow> string \<Rightarrow> string list \<Rightarrow> string list" where
  "clean_step rooted w kept =
     (if w = [] \<or> w = ''.'' then kept
      else if w = ''..'' then
        (if kept \<noteq> [] \<and> hd kept \<noteq> ''..'' then tl kept else if rooted then kept else ''..'' # kept)
      else w # kept)"

definition Clean :: "string \<Rightarrow> string" where
  "Clean path =
     (let rooted = (path \<noteq> [] \<and> hd path = CHR ''/'');
          kept = rev (fold (clean_step rooted) (split_on CHR ''/'' path) [])
      in if rooted then CHR ''/'' # join_with ''/'' kept
         else if kept = [] then ''.'' else join_with ''/'' kept)"

definition filepath_Join :: "string \<Rightarrow> string \<Rightarrow> string" where
  "filepath_Join dir name =
     (if dir \<noteq> [] then Clean (dir @ ''/'' @ name) else if name \<noteq> [] then Clean name else [])"

definition filepath_Base :: "string \<Rightarrow> string" where
  "filepath_Base path =
     (if path = [] then ''.''
      else let path = rev (dropWhile (\<lambda>c. c = CHR ''/'') (rev path));
               base = after_last CHR ''/'' path
           in if base = [] then ''/'' else base)"

definition filepath_Ext :: "string \<Rightarrow> string" where
  "filepath_Ext path =
     (let name = after_last CHR ''/'' path
      in if CHR ''.'' \<in> set name then CHR ''.'' # after_last CHR ''.'' name else [])"

definition filepath_Dir :: "string \<Rightarrow> string" where
  "filepath_Dir path = Clean (take (length path - length (after_last CHR ''/'' path)) path)"

section \<open>The generator\<close>

record doc_flags =
  df_out :: string
  df_format :: string
  df_frontmatter :: bool
  df_command :: string
  df_output_file :: string

definition doc_default_flags :: doc_flags where
  "doc_default_flags = \<lparr>df_out = ''./docs/cli'', df_format = ''markdown'', df_frontmatter = False,
     df_command = [], df_output_file = []\<rparr>"

text \<open>
  The actions, with what they are given. The link function of a tree of pages is always the same;
  its front matter is a function of the file name.
\<close>

datatype doc_action =
    MkdirAll string
  | CreateFile string
  | WriteString string string
  | GenMarkdown command string
  | GenMarkdownTreeCustom command string "string \<Rightarrow> string" "string \<Rightarrow> string"
  | GenMarkdownTree command string
  | GenManTree command string string string
  | GenReSTTree command string
  | CloseFile string

text \<open>
  The actions done, and the message of \<open>log.Fatal\<close> when the program ended with one; deferred calls
  are then not run.
\<close>

type_synonym doc_run = "doc_action list \<times> string option"

definition do_action :: "(doc_action \<Rightarrow> go_error option) \<Rightarrow> doc_action \<Rightarrow> doc_run \<Rightarrow> doc_run" where
  "do_action fails a k =
     (case fails a of
        Some err \<Rightarrow> ([a], Some (error_text err))
      | None \<Rightarrow> (a # fst k, snd k))"

text \<open>\<open>Quote\<close> and \<open>Title\<close>: the verb \<open>%q\<close> and the casing of words of \<open>golang.org/x/text\<close>.\<close>

definition front_matter :: "(string \<Rightarrow> string) \<Rightarrow> string \<Rightarrow> string \<Rightarrow> string \<Rightarrow> string" where
  "front_matter Quote title name description =
     ''---'' @ [CHR 0x0A] @ ''title: '' @ Quote title @ [CHR 0x0A] @ ''slug: '' @ Quote name @ [CHR 0x0A]
       @ ''description: '' @ [CHR 0x22] @ ''CLI reference for '' @ description @ [CHR 0x22, CHR 0x0A]
       @ ''---'' @ [CHR 0x0A, CHR 0x0A]"

definition page_name :: "string \<Rightarrow> string" where
  "page_name filename = (let base = filepath_Base filename in TrimSuffix base (filepath_Ext base))"

definition tree_prep :: "(string \<Rightarrow> string) \<Rightarrow> string \<Rightarrow> string" where
  "tree_prep Quote filename =
     (let name = page_name filename;
          title = ReplaceAll_char CHR ''_'' CHR '' '' name
      in front_matter Quote title name title)"

definition tree_link :: "string \<Rightarrow> string" where
  "tree_link name = map ascii_lower name"

definition file_prep :: "(string \<Rightarrow> string) \<Rightarrow> (string \<Rightarrow> string) \<Rightarrow> doc_flags \<Rightarrow> string" where
  "file_prep Quote Title f =
     (let name = page_name (df_output_file f);
          title = Title (ReplaceAll_char CHR ''_'' CHR '' '' name)
      in front_matter Quote title name ([CHR 0x60] @ df_command f @ [CHR 0x60]))"

definition closeFile :: "(doc_action \<Rightarrow> go_error option) \<Rightarrow> string \<Rightarrow> doc_run" where
  "closeFile fails path = do_action fails (CloseFile path) ([], None)"

definition single_file :: "(doc_action \<Rightarrow> go_error option) \<Rightarrow> (string \<Rightarrow> string) \<Rightarrow> (string \<Rightarrow> string)
    \<Rightarrow> doc_flags \<Rightarrow> command \<Rightarrow> doc_run" where
  "single_file fails Quote Title f targetCmd =
     (let outputPath = filepath_Join (df_out f) (df_output_file f);
          generate = do_action fails (GenMarkdown targetCmd outputPath) (closeFile fails outputPath)
      in do_action fails (MkdirAll (filepath_Dir outputPath))
         (do_action fails (CreateFile outputPath)
         (if df_frontmatter f then do_action fails (WriteString outputPath (file_prep Quote Title f)) generate
          else generate)))"

definition doc_format :: "(doc_action \<Rightarrow> go_error option) \<Rightarrow> (string \<Rightarrow> string) \<Rightarrow> (string \<Rightarrow> string)
    \<Rightarrow> doc_flags \<Rightarrow> command \<Rightarrow> doc_run" where
  "doc_format fails Quote Title f targetCmd =
     (if df_format f = ''markdown'' then
        (if df_command f \<noteq> [] \<and> df_output_file f \<noteq> [] then single_file fails Quote Title f targetCmd
         else if df_frontmatter f
         then do_action fails (GenMarkdownTreeCustom targetCmd (df_out f) (tree_prep Quote) tree_link) ([], None)
         else do_action fails (GenMarkdownTree targetCmd (df_out f)) ([], None))
      else if df_format f = ''man'' then
        do_action fails (GenManTree targetCmd (map ascii_upper (cmd_name targetCmd)) ''1'' (df_out f)) ([], None)
      else if df_format f = ''rest'' then
        do_action fails (GenReSTTree targetCmd (df_out f)) ([], None)
      else ([], Some (''unknown format: '' @ df_format f)))"

text \<open>\<open>init_commands\<close> adds the help and completion commands of cobra.\<close>

definition doc_main :: "(doc_action \<Rightarrow> go_error option) \<Rightarrow> (string \<Rightarrow> string) \<Rightarrow> (string \<Rightarrow> string)
    \<Rightarrow> (command \<Rightarrow> command) \<Rightarrow> doc_flags \<Rightarrow> doc_run" where
  "doc_main fails Quote Title init_commands f =
     do_action fails (MkdirAll (df_out f))
       (let rootCmd = init_commands root_command
        in case (if df_command f \<noteq> [] then find_command (df_command f) [cmd_name rootCmd] rootCmd (Fields (df_command f))
                 else Inr rootCmd) of
             Inl msg \<Rightarrow> ([], Some msg)
           | Inr targetCmd \<Rightarrow> doc_format fails Quote Title f targetCmd)"

section \<open>Lemmas\<close>

lemma do_action_simps [simp]:
  "fails a = None \<Longrightarrow> do_action fails a k = (a # fst k, snd k)"
  "fails a = Some err \<Longrightarrow> do_action fails a k = ([a], Some (error_text err))"
  by (simp_all add: do_action_def)

text \<open>
  An action that fails is the last one, and its error is the message: nothing is written after a
  failure, and the file of a single page is not closed then.
\<close>

definition stops_at_failure :: "(doc_action \<Rightarrow> go_error option) \<Rightarrow> doc_run \<Rightarrow> bool" where
  "stops_at_failure fails r \<longleftrightarrow>
     (\<forall>a \<in> set (butlast (fst r)). fails a = None)
     \<and> (fst r \<noteq> [] \<longrightarrow> fails (last (fst r)) \<noteq> None \<longrightarrow> snd r = map_option error_text (fails (last (fst r))))"

lemma stops_do_action: "stops_at_failure fails k \<Longrightarrow> stops_at_failure fails (do_action fails a k)"
  by (cases "fails a") (auto simp: stops_at_failure_def)

lemma stops_done [simp]: "stops_at_failure fails ([], m)"
  by (simp add: stops_at_failure_def)

lemma doc_main_stops_at_failure: "stops_at_failure fails (doc_main fails Quote Title init_commands f)"
  unfolding doc_main_def
proof (rule stops_do_action)
  have "stops_at_failure fails (single_file fails Quote Title f c)" for c
    by (simp add: single_file_def closeFile_def stops_do_action Let_def)
  then have "stops_at_failure fails (doc_format fails Quote Title f c)" for c
    by (simp add: doc_format_def stops_do_action)
  then show "stops_at_failure fails (let rootCmd = init_commands root_command
      in case (if df_command f \<noteq> [] then find_command (df_command f) [cmd_name rootCmd] rootCmd (Fields (df_command f))
               else Inr rootCmd) of
           Inl msg \<Rightarrow> ([], Some msg)
         | Inr targetCmd \<Rightarrow> doc_format fails Quote Title f targetCmd)"
    by (simp add: Let_def split: sum.split)
qed

text \<open>
  A page for one command: with no failure its file is created, written and closed, and the page is
  that of the command at the path.
\<close>

lemma doc_main_single_page:
  assumes "\<And>a. fails a = None" and "df_format f = ''markdown''" and "df_output_file f \<noteq> []" and "df_command f \<noteq> []"
    and "unambiguous (init_commands root_command)" and "at_path (init_commands root_command) (Fields (df_command f)) c"
  shows "doc_main fails Quote Title init_commands f =
    ([MkdirAll (df_out f), MkdirAll (filepath_Dir (filepath_Join (df_out f) (df_output_file f))),
      CreateFile (filepath_Join (df_out f) (df_output_file f))]
     @ (if df_frontmatter f then [WriteString (filepath_Join (df_out f) (df_output_file f)) (file_prep Quote Title f)] else [])
     @ [GenMarkdown c (filepath_Join (df_out f) (df_output_file f)), CloseFile (filepath_Join (df_out f) (df_output_file f))], None)"
  using assms(1-4) find_command_at_path [OF assms(6,5)]
  by (simp add: doc_main_def doc_format_def single_file_def closeFile_def Let_def)

text \<open>An output file without a command is ignored: the whole tree is written.\<close>

lemma doc_main_output_file_alone:
  assumes "df_command f = []"
  shows "doc_main fails Quote Title init_commands (f\<lparr>df_output_file := o1\<rparr>) = doc_main fails Quote Title init_commands f"
  using assms by (simp add: doc_main_def doc_format_def Let_def cong: if_cong)

lemma Fields_no_space: "w \<in> set (Fields s) \<Longrightarrow> w \<noteq> [] \<and> (\<forall>c \<in> set w. \<not> is_space c)"
proof (induction s rule: Fields.induct)
  case (1 s)
  let ?t = "dropWhile is_space s"
  show ?case
  proof (cases "?t = []")
    case True
    with "1.prems" show ?thesis by (simp add: Fields.simps [of s])
  next
    case False
    then have "\<not> is_space (hd ?t)" by (rule hd_dropWhile)
    with False have first: "takeWhile (\<lambda>c. \<not> is_space c) ?t \<noteq> []" by (cases ?t) simp_all
    from "1.prems" False have "w = takeWhile (\<lambda>c. \<not> is_space c) ?t \<or> w \<in> set (Fields (dropWhile (\<lambda>c. \<not> is_space c) ?t))"
    proof -
      have "Fields s = takeWhile (\<lambda>c. \<not> is_space c) ?t # Fields (dropWhile (\<lambda>c. \<not> is_space c) ?t)"
        using False by (subst Fields.simps) (simp add: Let_def del: dropWhile_eq_Nil_conv)
      with "1.prems" show ?thesis by simp
    qed
    then show ?thesis
    proof
      assume "w = takeWhile (\<lambda>c. \<not> is_space c) ?t"
      with first show ?thesis by (auto dest: set_takeWhileD)
    next
      assume "w \<in> set (Fields (dropWhile (\<lambda>c. \<not> is_space c) ?t))"
      with "1.IH" [OF refl False] show ?thesis by blast
    qed
  qed
qed

lemma doc_examples:
  "Fields '' serve  envoy authz-server'' = [''serve'', ''envoy'', ''authz-server'']"
  "filepath_Join ''./docs/cli'' ''../serve//envoy.md'' = ''docs/serve/envoy.md''"
  "filepath_Dir ''docs/serve/envoy.md'' = ''docs/serve''"
  "page_name ''docs/kyverno-authz_serve.md'' = ''kyverno-authz_serve''"
  by (simp_all add: Fields.simps is_space_def Clean_def filepath_Join_def filepath_Dir_def page_name_def filepath_Base_def
      filepath_Ext_def TrimSuffix_def after_last_def clean_step_def Let_def)

end
