(* ===== verification/CompositeStore.thy ===== *)
theory CompositeStore
  imports Compiler Strconv
begin

text \<open>
  The in-cluster policy source: the store that the two watchers fill
  (\<open>pkg/engine/sources/composite_source.go\<close>) and the function that compiles a policy of
  the store for the cache (\<open>pkg/engine/sources/kube.go\<close>). Policies and exceptions point at
  each other, so their states live in two heaps and the maps hold addresses; the mutex is a
  field, and taking it while it is held never returns. Loops over Go maps take the iteration
  order as an argument.
\<close>

section \<open>State\<close>

type_synonym addr = nat

record policyState =
  ps_policy :: ValidatingPolicy
  ps_exceptions :: "string \<rightharpoonup> addr"
  exceptionEventCounter :: int64

record exceptionState =
  es_exception :: PolicyException
  references :: "string \<rightharpoonup> addr"

record compositeStore =
  locked :: bool
  st_policies :: "string \<rightharpoonup> addr"
  st_exceptions :: "string \<rightharpoonup> addr"
  pol_heap :: "addr \<rightharpoonup> policyState"
  exc_heap :: "addr \<rightharpoonup> exceptionState"
  next_addr :: addr

definition newCompositeStore :: compositeStore where
  "newCompositeStore = \<lparr>locked = False, st_policies = Map.empty, st_exceptions = Map.empty,
     pol_heap = Map.empty, exc_heap = Map.empty, next_addr = 0\<rparr>"

definition Lock :: "compositeStore \<Rightarrow> compositeStore outcome" where
  "Lock s = (if locked s then Blocked else Ret (s\<lparr>locked := True\<rparr>))"

definition Unlock :: "compositeStore \<Rightarrow> compositeStore" where
  "Unlock s = s\<lparr>locked := False\<rparr>"

text \<open>Writing through a pointer.\<close>

definition upd_pol :: "addr \<Rightarrow> (policyState \<Rightarrow> policyState) \<Rightarrow> compositeStore \<Rightarrow> compositeStore" where
  "upd_pol a f s = s\<lparr>pol_heap := (pol_heap s)(a := map_option f (pol_heap s a))\<rparr>"

definition upd_exc :: "addr \<Rightarrow> (exceptionState \<Rightarrow> exceptionState) \<Rightarrow> compositeStore \<Rightarrow> compositeStore" where
  "upd_exc a f s = s\<lparr>exc_heap := (exc_heap s)(a := map_option f (exc_heap s a))\<rparr>"

definition TrimPrefix :: "string \<Rightarrow> string \<Rightarrow> string" where
  "TrimPrefix s prefix = (if take (length prefix) s = prefix then drop (length prefix) s else s)"

section \<open>Loading\<close>

text \<open>
  \<open>Load\<close> collects the keys in map order, sorts them and returns a pointer into the state of
  each policy.
\<close>

definition store_Load :: "string list \<Rightarrow> compositeStore \<Rightarrow> (compositeStore \<times> addr list) outcome" where
  "store_Load it s =
     bind_outcome (Lock s) (\<lambda>s.
       Ret (Unlock s, map (\<lambda>key. the (st_policies s key)) (sort it)))"

section \<open>Policy events\<close>

text \<open>Delete: drop the policy, then its back reference in every stored exception.\<close>

definition drop_reference :: "string \<Rightarrow> string \<Rightarrow> compositeStore \<Rightarrow> compositeStore" where
  "drop_reference policyKey excKey s =
     (case st_exceptions s excKey of
        None \<Rightarrow> s
      | Some e \<Rightarrow> upd_exc e (\<lambda>x. x\<lparr>references := (references x)(policyKey := None)\<rparr>) s)"

definition delete_policy :: "string list \<Rightarrow> string \<Rightarrow> compositeStore \<Rightarrow> compositeStore" where
  "delete_policy it policyKey s =
     fold (drop_reference policyKey) it (s\<lparr>st_policies := (st_policies s)(policyKey := None)\<rparr>)"

text \<open>Create: allocate the state, then link every stored exception that references the key.\<close>

definition link_exception :: "string \<Rightarrow> addr \<Rightarrow> string \<Rightarrow> compositeStore \<Rightarrow> compositeStore" where
  "link_exception policyKey a excKey s =
     (case st_exceptions s excKey of
        None \<Rightarrow> s
      | Some e \<Rightarrow>
          (case exc_heap s e of
             None \<Rightarrow> s
           | Some exc \<Rightarrow>
               fold (\<lambda>ref s. if ref = policyKey
                   then upd_pol a (\<lambda>p. p\<lparr>ps_exceptions := (ps_exceptions p)(excKey \<mapsto> e)\<rparr>)
                         (upd_exc e (\<lambda>x. x\<lparr>references := (references x)(policyKey := st_policies s policyKey)\<rparr>) s)
                   else s)
                 (pe_policyRefs (es_exception exc)) s))"

definition create_policy :: "string list \<Rightarrow> string \<Rightarrow> ValidatingPolicy \<Rightarrow> compositeStore \<Rightarrow> compositeStore" where
  "create_policy it policyKey policy s =
     (let a = next_addr s;
          polState = \<lparr>ps_policy = policy, ps_exceptions = Map.empty, exceptionEventCounter = 0\<rparr>
      in fold (link_exception policyKey a) it
           (s\<lparr>pol_heap := (pol_heap s)(a \<mapsto> polState), next_addr := Suc a,
              st_policies := (st_policies s)(policyKey \<mapsto> a)\<rparr>))"

definition handlePolicy :: "string list \<Rightarrow> string \<Rightarrow> ValidatingPolicy \<Rightarrow> bool \<Rightarrow> compositeStore
    \<Rightarrow> (compositeStore \<times> unit) outcome" where
  "handlePolicy it key policy isDelete s =
     bind_outcome (Lock s) (\<lambda>s.
       let policyKey = TrimPrefix key ''/'' in
       if isDelete then Ret (Unlock (delete_policy it policyKey s), ())
       else (case st_policies s policyKey of
               Some a \<Rightarrow> Ret (Unlock (upd_pol a (\<lambda>p. p\<lparr>ps_policy := policy\<rparr>) s), ())
             | None \<Rightarrow> Ret (Unlock (create_policy it policyKey policy s), ())))"

section \<open>Exception events\<close>

definition forget_exception :: "string \<Rightarrow> string \<Rightarrow> compositeStore \<Rightarrow> compositeStore" where
  "forget_exception excKey policyKey s =
     (case st_policies s policyKey of
        None \<Rightarrow> s
      | Some a \<Rightarrow> upd_pol a (\<lambda>p. p\<lparr>exceptionEventCounter := exceptionEventCounter p + 1,
                              ps_exceptions := (ps_exceptions p)(excKey := None)\<rparr>) s)"

definition delete_polex :: "string list \<Rightarrow> string \<Rightarrow> compositeStore \<Rightarrow> compositeStore" where
  "delete_polex it excKey s =
     fold (forget_exception excKey) it (s\<lparr>st_exceptions := (st_exceptions s)(excKey := None)\<rparr>)"

text \<open>
  Create or update: a fresh state for the exception, which is linked to the referenced policies
  that are in the store, and is itself stored only while linking one.
\<close>

definition link_reference :: "string \<Rightarrow> addr \<Rightarrow> string \<Rightarrow> compositeStore \<Rightarrow> compositeStore" where
  "link_reference excKey e refName s =
     (case st_policies s refName of
        None \<Rightarrow> s
      | Some a \<Rightarrow>
          (let s1 = upd_pol a (\<lambda>p. p\<lparr>ps_exceptions := (ps_exceptions p)(excKey \<mapsto> e),
                      exceptionEventCounter := exceptionEventCounter p + 1\<rparr>) s;
               s2 = upd_exc e (\<lambda>x. x\<lparr>references := (references x)(refName \<mapsto> a)\<rparr>) s1
           in s2\<lparr>st_exceptions := (st_exceptions s2)(excKey \<mapsto> e)\<rparr>))"

definition store_polex :: "string \<Rightarrow> PolicyException \<Rightarrow> compositeStore \<Rightarrow> compositeStore" where
  "store_polex excKey exc s =
     (let e = next_addr s;
          excState = \<lparr>es_exception = exc, references = Map.empty\<rparr>
      in fold (link_reference excKey e) (pe_policyRefs exc)
           (s\<lparr>exc_heap := (exc_heap s)(e \<mapsto> excState), next_addr := Suc e\<rparr>))"

definition handlePolex :: "string list \<Rightarrow> string \<Rightarrow> PolicyException \<Rightarrow> bool \<Rightarrow> compositeStore
    \<Rightarrow> (compositeStore \<times> unit) outcome" where
  "handlePolex it excKey exc isDelete s =
     bind_outcome (Lock s) (\<lambda>s.
       if isDelete then Ret (Unlock (delete_polex it excKey s), ())
       else Ret (Unlock (store_polex excKey exc s), ()))"

section \<open>The cache: keys and compilation\<close>

definition missing_key_error :: go_error where
  "missing_key_error = Errorf ''attempting to get the cache key for a non existing policy''"

definition keyFunc :: "ValidatingPolicy \<Rightarrow> compositeStore \<Rightarrow> (compositeStore \<times> (go_error + string)) outcome" where
  "keyFunc policy s =
     bind_outcome (Lock s) (\<lambda>s.
       case st_policies s (vp_name policy) of
         None \<Rightarrow> Ret (Unlock s, Inl missing_key_error)
       | Some a \<Rightarrow>
           (case pol_heap s a of
              None \<Rightarrow> Panic nil_deref
            | Some polState \<Rightarrow>
                Ret (Unlock s, Inr (vp_name policy @ vp_resourceVersion policy
                  @ itoa (sint (exceptionEventCounter polState))))))"

definition missing_policy_error :: go_error where
  "missing_policy_error = Errorf ''attempting to fetch and compile a policy that doesn't exist''"

text \<open>
  The compile function of the cache (\<open>NewKube\<close>): look the policy up under the lock, collect
  its exceptions of the policy's evaluation mode, compile. The branch for a policy that is gone
  returns without unlocking.
\<close>

definition matching_exceptions :: "string list \<Rightarrow> compositeStore \<Rightarrow> policyState \<Rightarrow> ValidatingPolicy
    \<Rightarrow> PolicyException list" where
  "matching_exceptions it s polState policy =
     [ex. ex \<leftarrow> map (\<lambda>e. es_exception (the (exc_heap s e))) (List.map_filter (ps_exceptions polState) it),
       pe_evaluationMode ex = vp_evaluationMode policy]"

definition kube_compile :: "('e, 'ast, 'in, 'v) cel_compiler \<Rightarrow> string list \<Rightarrow> ValidatingPolicy \<Rightarrow> compositeStore
    \<Rightarrow> (compositeStore \<times> (go_error + ('in, 'v) compiledPolicy \<times> field_error list)) outcome" where
  "kube_compile C it policy s =
     bind_outcome (Lock s) (\<lambda>s.
       case st_policies s (vp_name policy) of
         None \<Rightarrow> Ret (s, Inl missing_policy_error)
       | Some a \<Rightarrow>
           (let s = Unlock s in
            case pol_heap s a of
              None \<Rightarrow> Panic nil_deref
            | Some polState \<Rightarrow>
                bind_outcome (Compile C policy (matching_exceptions it s polState policy))
                  (\<lambda>res. Ret (s, Inr res))))"

section \<open>Selectors after a write\<close>

lemma upd_pol_sel [simp]:
  "st_policies (upd_pol a f s) = st_policies s" "st_exceptions (upd_pol a f s) = st_exceptions s"
  "exc_heap (upd_pol a f s) = exc_heap s" "next_addr (upd_pol a f s) = next_addr s"
  "locked (upd_pol a f s) = locked s"
  "pol_heap (upd_pol a f s) b = (if b = a then map_option f (pol_heap s a) else pol_heap s b)"
  by (simp_all add: upd_pol_def)

lemma upd_exc_sel [simp]:
  "st_policies (upd_exc a f s) = st_policies s" "st_exceptions (upd_exc a f s) = st_exceptions s"
  "pol_heap (upd_exc a f s) = pol_heap s" "next_addr (upd_exc a f s) = next_addr s"
  "locked (upd_exc a f s) = locked s"
  "exc_heap (upd_exc a f s) b = (if b = a then map_option f (exc_heap s a) else exc_heap s b)"
  by (simp_all add: upd_exc_def)

lemma Unlock_sel [simp]:
  "st_policies (Unlock s) = st_policies s" "st_exceptions (Unlock s) = st_exceptions s"
  "pol_heap (Unlock s) = pol_heap s" "exc_heap (Unlock s) = exc_heap s"
  "next_addr (Unlock s) = next_addr s" "locked (Unlock s) = False"
  by (simp_all add: Unlock_def)

lemma Lock_Ret_iff: "Lock s = Ret t \<longleftrightarrow> \<not> locked s \<and> t = s\<lparr>locked := True\<rparr>"
  by (auto simp: Lock_def)

lemma fold_keeps: "(\<And>x t. x \<in> set xs \<Longrightarrow> P t \<Longrightarrow> P (f x t)) \<Longrightarrow> P s \<Longrightarrow> P (fold f xs s)"
  by (rule fold_invariant [where Q = "\<lambda>x. x \<in> set xs"]) auto

section \<open>Interface: operations guarded by the mutex\<close>

text \<open>
  The contract of an operation of the store: it waits while the mutex is held, otherwise it
  returns and leaves the mutex free. A sequence of such operations always returns.
\<close>

locale guarded_op =
  fixes run :: "compositeStore \<Rightarrow> (compositeStore \<times> 'r) outcome"
  assumes waits: "locked s \<Longrightarrow> run s = Blocked"
    and releases: "\<not> locked s \<Longrightarrow> run s = Ret (s', r) \<Longrightarrow> \<not> locked s'"
begin

lemma returned_unlocked: "run s = Ret (s', r) \<Longrightarrow> \<not> locked s \<and> \<not> locked s'"
  using waits [of s] releases [of s] by (cases "locked s") auto

end

interpretation load_op: guarded_op "store_Load it" for it
  by unfold_locales (auto simp: store_Load_def Lock_def)

interpretation policy_op: guarded_op "handlePolicy it key policy isDelete" for it key policy isDelete
  by unfold_locales (auto simp: handlePolicy_def Lock_def Let_def split: if_splits option.splits)

interpretation polex_op: guarded_op "handlePolex it excKey exc isDelete" for it excKey exc isDelete
  by unfold_locales (auto simp: handlePolex_def Lock_def split: if_splits)

interpretation key_op: guarded_op "keyFunc policy" for policy
  by unfold_locales (auto simp: keyFunc_def Lock_def split: option.splits)

section \<open>The invariant of the store\<close>

text \<open>
  No dangling pointers, no two keys for one policy state, fresh addresses are unused, and every
  exception linked to a stored policy names that policy among its references.
\<close>

definition links_ok :: "compositeStore \<Rightarrow> bool" where
  "links_ok s \<longleftrightarrow>
     (\<forall>k a p x e. st_policies s k = Some a \<longrightarrow> pol_heap s a = Some p \<longrightarrow> ps_exceptions p x = Some e \<longrightarrow>
        (\<exists>ex. exc_heap s e = Some ex \<and> k \<in> set (pe_policyRefs (es_exception ex))))"

definition pointers_ok :: "compositeStore \<Rightarrow> bool" where
  "pointers_ok s \<longleftrightarrow>
     (\<forall>k a. st_policies s k = Some a \<longrightarrow> pol_heap s a \<noteq> None) \<and>
     (\<forall>k e. st_exceptions s k = Some e \<longrightarrow> exc_heap s e \<noteq> None) \<and>
     (\<forall>k l a. st_policies s k = Some a \<longrightarrow> st_policies s l = Some a \<longrightarrow> k = l) \<and>
     (\<forall>a. next_addr s \<le> a \<longrightarrow> pol_heap s a = None \<and> exc_heap s a = None)"

definition store_inv :: "compositeStore \<Rightarrow> bool" where
  "store_inv s \<longleftrightarrow> pointers_ok s \<and> links_ok s"

lemma store_inv_new: "store_inv newCompositeStore"
  by (simp add: store_inv_def pointers_ok_def links_ok_def newCompositeStore_def)

lemma store_inv_locked [simp]: "store_inv (s\<lparr>locked := b\<rparr>) = store_inv s"
  by (simp add: store_inv_def pointers_ok_def links_ok_def)

lemma store_inv_Unlock [simp]: "store_inv (Unlock s) = store_inv s"
  by (simp add: Unlock_def)

lemma store_inv_policy: "store_inv s \<Longrightarrow> st_policies s k = Some a \<Longrightarrow> \<exists>p. pol_heap s a = Some p"
  by (auto simp: store_inv_def pointers_ok_def)

lemma store_inv_exception: "store_inv s \<Longrightarrow> st_exceptions s k = Some e \<Longrightarrow> \<exists>x. exc_heap s e = Some x"
  by (auto simp: store_inv_def pointers_ok_def)

lemma store_inv_inj: "store_inv s \<Longrightarrow> st_policies s k = Some a \<Longrightarrow> st_policies s l = Some a \<Longrightarrow> k = l"
  unfolding store_inv_def pointers_ok_def by blast

lemma store_inv_link:
  assumes "store_inv s" and "st_policies s k = Some a" and "pol_heap s a = Some p" and "ps_exceptions p x = Some e"
  shows "\<exists>ex. exc_heap s e = Some ex \<and> k \<in> set (pe_policyRefs (es_exception ex))"
  using assms unfolding store_inv_def links_ok_def by blast

lemma store_inv_upd_exc:
  assumes "store_inv s" and "\<And>x. es_exception (f x) = es_exception x"
  shows "store_inv (upd_exc e f s)"
proof -
  have "pointers_ok (upd_exc e f s)"
    using assms(1) by (simp add: store_inv_def pointers_ok_def)
  moreover have "links_ok (upd_exc e f s)"
    unfolding links_ok_def
  proof (intro allI impI)
    fix k a p x e'
    assume "st_policies (upd_exc e f s) k = Some a" "pol_heap (upd_exc e f s) a = Some p"
      "ps_exceptions p x = Some e'"
    then obtain ex where "exc_heap s e' = Some ex" "k \<in> set (pe_policyRefs (es_exception ex))"
      using store_inv_link [OF assms(1)] by (simp, blast)
    with assms(2) show "\<exists>ex. exc_heap (upd_exc e f s) e' = Some ex \<and> k \<in> set (pe_policyRefs (es_exception ex))"
      by auto
  qed
  ultimately show ?thesis by (simp add: store_inv_def)
qed

lemma store_inv_upd_pol:
  assumes "store_inv s"
    and "\<And>p x e. ps_exceptions (f p) x = Some e \<Longrightarrow> ps_exceptions p x \<noteq> Some e \<Longrightarrow>
      \<exists>ex. exc_heap s e = Some ex \<and> (\<forall>k. st_policies s k = Some a \<longrightarrow> k \<in> set (pe_policyRefs (es_exception ex)))"
  shows "store_inv (upd_pol a f s)"
proof -
  have "pointers_ok (upd_pol a f s)"
    using assms(1) by (simp add: store_inv_def pointers_ok_def)
  moreover have "links_ok (upd_pol a f s)"
    unfolding links_ok_def
  proof (intro allI impI)
    fix k b p x e
    assume k: "st_policies (upd_pol a f s) k = Some b" and b: "pol_heap (upd_pol a f s) b = Some p"
      and e: "ps_exceptions p x = Some e"
    show "\<exists>ex. exc_heap (upd_pol a f s) e = Some ex \<and> k \<in> set (pe_policyRefs (es_exception ex))"
    proof (cases "b = a")
      case True
      with b obtain q where q: "pol_heap s a = Some q" "p = f q" by (auto split: if_splits)
      show ?thesis
      proof (cases "ps_exceptions q x = Some e")
        case True
        with assms(1) k q \<open>b = a\<close> show ?thesis by (simp add: store_inv_def links_ok_def)
      next
        case False
        from assms(2) [of q x e] e q False k \<open>b = a\<close> show ?thesis by auto
      qed
    next
      case False
      with assms(1) k b e show ?thesis by (simp add: store_inv_def links_ok_def)
    qed
  qed
  ultimately show ?thesis by (simp add: store_inv_def)
qed

lemma store_inv_drop_policy: "store_inv s \<Longrightarrow> store_inv (s\<lparr>st_policies := (st_policies s)(k := None)\<rparr>)"
  by (simp add: store_inv_def pointers_ok_def links_ok_def)

lemma store_inv_drop_exception: "store_inv s \<Longrightarrow> store_inv (s\<lparr>st_exceptions := (st_exceptions s)(k := None)\<rparr>)"
  by (simp add: store_inv_def pointers_ok_def links_ok_def)

lemma store_inv_add_exception:
  "store_inv s \<Longrightarrow> exc_heap s e \<noteq> None \<Longrightarrow> store_inv (s\<lparr>st_exceptions := (st_exceptions s)(k \<mapsto> e)\<rparr>)"
  by (simp add: store_inv_def pointers_ok_def links_ok_def)

lemma store_inv_fresh:
  assumes "store_inv s" and "next_addr s \<le> a"
  shows "pol_heap s a = None" and "exc_heap s a = None"
  using assms by (auto simp: store_inv_def pointers_ok_def)

lemma store_inv_fresh_key: "store_inv s \<Longrightarrow> st_policies s l \<noteq> Some (next_addr s)"
  using store_inv_fresh(1) [of s "next_addr s"] store_inv_policy [of s l "next_addr s"] by auto

lemma store_inv_alloc_exc:
  assumes "store_inv s"
  shows "store_inv (s\<lparr>exc_heap := (exc_heap s)(next_addr s \<mapsto> x), next_addr := Suc (next_addr s)\<rparr>)"
    (is "store_inv ?t")
proof -
  have fresh: "exc_heap s (next_addr s) = None" using store_inv_fresh(2) [OF assms] by simp
  have "pointers_ok ?t" using assms by (simp add: store_inv_def pointers_ok_def)
  moreover have "links_ok ?t"
    unfolding links_ok_def
  proof (intro allI impI)
    fix k a p y e
    assume "st_policies ?t k = Some a" "pol_heap ?t a = Some p" "ps_exceptions p y = Some e"
    then obtain ex where ex: "exc_heap s e = Some ex" "k \<in> set (pe_policyRefs (es_exception ex))"
      using store_inv_link [OF assms] by (simp, blast)
    with fresh have "e \<noteq> next_addr s" by auto
    with ex show "\<exists>ex. exc_heap ?t e = Some ex \<and> k \<in> set (pe_policyRefs (es_exception ex))" by simp
  qed
  ultimately show ?thesis by (simp add: store_inv_def)
qed

lemma store_inv_alloc_pol:
  assumes "store_inv s" and "ps_exceptions p = Map.empty"
  shows "store_inv (s\<lparr>pol_heap := (pol_heap s)(next_addr s \<mapsto> p), next_addr := Suc (next_addr s),
    st_policies := (st_policies s)(k \<mapsto> next_addr s)\<rparr>)" (is "store_inv ?t")
proof -
  note fresh = store_inv_fresh_key [OF assms(1)]
  have "links_ok ?t"
    using assms by (simp add: store_inv_def links_ok_def fresh)
  moreover have "pointers_ok ?t"
    unfolding pointers_ok_def
  proof (intro conjI allI impI)
    fix l a assume "st_policies ?t l = Some a"
    then show "pol_heap ?t a \<noteq> None"
      using assms(1) by (auto simp: store_inv_def pointers_ok_def split: if_splits)
  next
    fix l e assume "st_exceptions ?t l = Some e"
    then show "exc_heap ?t e \<noteq> None"
      using assms(1) by (auto simp: store_inv_def pointers_ok_def)
  next
    fix l m a assume "st_policies ?t l = Some a" "st_policies ?t m = Some a"
    then show "l = m"
      using fresh [of l] fresh [of m] store_inv_inj [OF assms(1)] by (auto split: if_splits)
  next
    fix a assume "next_addr ?t \<le> a"
    then show "pol_heap ?t a = None" "exc_heap ?t a = None"
      using store_inv_fresh [OF assms(1), of a] by auto
  qed
  ultimately show ?thesis by (simp add: store_inv_def)
qed

subsection \<open>Every operation keeps the invariant\<close>

lemma drop_reference_inv: "store_inv s \<Longrightarrow> store_inv (drop_reference k x s)"
  by (simp add: drop_reference_def store_inv_upd_exc split: option.split)

lemma delete_policy_inv: "store_inv s \<Longrightarrow> store_inv (delete_policy it k s)"
  unfolding delete_policy_def
  by (rule fold_keeps) (simp_all add: drop_reference_inv store_inv_drop_policy)

lemma forget_exception_inv: "store_inv s \<Longrightarrow> store_inv (forget_exception x k s)"
  unfolding forget_exception_def
  by (cases "st_policies s k") (auto intro!: store_inv_upd_pol split: if_splits)

lemma delete_polex_inv: "store_inv s \<Longrightarrow> store_inv (delete_polex it x s)"
  unfolding delete_polex_def
  by (rule fold_keeps) (simp_all add: forget_exception_inv store_inv_drop_exception)

lemma replace_policy_inv: "store_inv s \<Longrightarrow> store_inv (upd_pol a (\<lambda>p. p\<lparr>ps_policy := policy\<rparr>) s)"
  by (rule store_inv_upd_pol) auto

text \<open>Linking keeps the invariant while the linked policy and exception stay where they are.\<close>

definition linking :: "string \<Rightarrow> addr \<Rightarrow> compositeStore \<Rightarrow> bool" where
  "linking k a s \<longleftrightarrow> store_inv s \<and> st_policies s k = Some a"

lemma link_exception_linking:
  assumes "linking k a s"
  shows "linking k a (link_exception k a x s)"
proof (cases "st_exceptions s x")
  case None
  with assms show ?thesis by (simp add: link_exception_def)
next
  case (Some e)
  with assms obtain exc where exc: "exc_heap s e = Some exc"
    using store_inv_exception [of s x e] by (auto simp: linking_def)
  let ?P = "\<lambda>t. linking k a t \<and> (\<exists>y. exc_heap t e = Some y \<and> es_exception y = es_exception exc)"
  have "?P (link_exception k a x s)"
    unfolding link_exception_def using Some exc
  proof (simp, intro fold_keeps [where P = ?P])
    fix ref t assume ref: "ref \<in> set (pe_policyRefs (es_exception exc))" and t: "?P t"
    let ?t = "upd_exc e (\<lambda>y. y\<lparr>references := (references y)(k := st_policies t k)\<rparr>) t"
    have inv: "store_inv ?t" using t by (auto simp: linking_def intro: store_inv_upd_exc)
    have "store_inv (upd_pol a (\<lambda>p. p\<lparr>ps_exceptions := (ps_exceptions p)(x \<mapsto> e)\<rparr>) ?t)" if "ref = k"
    proof (rule store_inv_upd_pol [OF inv])
      fix p :: policyState and z e'
      assume "ps_exceptions (p\<lparr>ps_exceptions := (ps_exceptions p)(x \<mapsto> e)\<rparr>) z = Some e'" "ps_exceptions p z \<noteq> Some e'"
      then have e': "e' = e" by (simp split: if_splits)
      have "l = k" if "st_policies t l = Some a" for l
        using store_inv_inj [of t l a k] t that by (simp add: linking_def)
      with e' t ref \<open>ref = k\<close> show "\<exists>ex. exc_heap ?t e' = Some ex \<and>
          (\<forall>l. st_policies ?t l = Some a \<longrightarrow> l \<in> set (pe_policyRefs (es_exception ex)))"
        by auto
    qed
    with t show "?P (if ref = k
        then upd_pol a (\<lambda>p. p\<lparr>ps_exceptions := (ps_exceptions p)(x \<mapsto> e)\<rparr>)
              (upd_exc e (\<lambda>y. y\<lparr>references := (references y)(k := st_policies t k)\<rparr>) t)
        else t)"
      by (auto simp: linking_def)
  qed (use assms exc in simp)
  then show ?thesis by blast
qed

lemma create_policy_inv:
  assumes "store_inv s"
  shows "store_inv (create_policy it k policy s)"
proof -
  have "linking k (next_addr s) (create_policy it k policy s)"
    unfolding create_policy_def Let_def
    by (rule fold_keeps) (use assms in \<open>auto simp: linking_def [symmetric] link_exception_linking,
        simp add: linking_def store_inv_alloc_pol\<close>)
  then show ?thesis by (simp add: linking_def)
qed

text \<open>The exception being stored stays at its address, and keeps its references list.\<close>

definition storing :: "addr \<Rightarrow> PolicyException \<Rightarrow> compositeStore \<Rightarrow> bool" where
  "storing e exc s \<longleftrightarrow> store_inv s \<and> (\<exists>y. exc_heap s e = Some y \<and> es_exception y = exc)"

lemma link_reference_storing:
  assumes t: "storing e exc s" and ref: "ref \<in> set (pe_policyRefs exc)"
  shows "storing e exc (link_reference x e ref s)"
proof (cases "st_policies s ref")
  case None
  with t show ?thesis by (simp add: link_reference_def)
next
  case (Some a)
  let ?f = "\<lambda>p. p\<lparr>ps_exceptions := (ps_exceptions p)(x \<mapsto> e), exceptionEventCounter := exceptionEventCounter p + 1\<rparr>"
  let ?s = "upd_pol a ?f s"
  have "store_inv ?s"
  proof (rule store_inv_upd_pol)
    show "store_inv s" using t by (simp add: storing_def)
    fix p :: policyState and z e'
    assume "ps_exceptions (?f p) z = Some e'" "ps_exceptions p z \<noteq> Some e'"
    then have "e' = e" by (simp split: if_splits)
    moreover have "l = ref" if "st_policies s l = Some a" for l
      using store_inv_inj [of s l a ref] t Some that by (simp add: storing_def)
    ultimately show "\<exists>ex. exc_heap s e' = Some ex \<and>
        (\<forall>l. st_policies s l = Some a \<longrightarrow> l \<in> set (pe_policyRefs (es_exception ex)))"
      using t ref by (auto simp: storing_def)
  qed
  then have inv: "store_inv (upd_exc e (\<lambda>y. y\<lparr>references := (references y)(ref \<mapsto> a)\<rparr>) ?s)"
    by (rule store_inv_upd_exc) simp
  from t obtain y where y: "exc_heap s e = Some y" "es_exception y = exc" by (auto simp: storing_def)
  with store_inv_add_exception [OF inv, of e x] Some show ?thesis
    by (simp add: storing_def link_reference_def Let_def)
qed

lemma store_polex_inv:
  assumes "store_inv s"
  shows "store_inv (store_polex x exc s)"
proof -
  have "storing (next_addr s) exc (store_polex x exc s)"
    unfolding store_polex_def Let_def
    by (rule fold_keeps) (use assms in \<open>auto simp: link_reference_storing,
        simp add: storing_def store_inv_alloc_exc\<close>)
  then show ?thesis by (simp add: storing_def)
qed

lemma handlePolicy_inv: "store_inv s \<Longrightarrow> handlePolicy it key policy d s = Ret (s', r) \<Longrightarrow> store_inv s'"
  by (auto simp: handlePolicy_def Let_def Lock_def delete_policy_inv replace_policy_inv create_policy_inv
      split: if_splits option.splits)

lemma handlePolex_inv: "store_inv s \<Longrightarrow> handlePolex it x exc d s = Ret (s', r) \<Longrightarrow> store_inv s'"
  by (auto simp: handlePolex_def Lock_def delete_polex_inv store_polex_inv split: if_splits)

section \<open>The store as a state machine\<close>

text \<open>
  The steps of the source: the two watchers call the handlers, the cache calls \<open>Load\<close> and
  \<open>keyFunc\<close>, and compiles policies. An operation is one step here, as if it ran alone; theory
  Interleaving splits the operations and lets them overlap.
\<close>

inductive store_step :: "('e, 'ast, 'in, 'v) cel_compiler \<Rightarrow> compositeStore \<Rightarrow> compositeStore \<Rightarrow> bool" for C where
  policy_event: "iterates it (st_exceptions s) \<Longrightarrow> handlePolicy it key policy isDelete s = Ret (s', ()) \<Longrightarrow> store_step C s s'"
| polex_event: "iterates it (st_policies s) \<Longrightarrow> handlePolex it excKey exc isDelete s = Ret (s', ()) \<Longrightarrow> store_step C s s'"
| load_event: "iterates it (st_policies s) \<Longrightarrow> store_Load it s = Ret (s', ps) \<Longrightarrow> store_step C s s'"
| key_event: "keyFunc policy s = Ret (s', r) \<Longrightarrow> store_step C s s'"
| compile_event: "kube_compile C it policy s = Ret (s', r) \<Longrightarrow> store_step C s s'"

inductive store_reachable :: "('e, 'ast, 'in, 'v) cel_compiler \<Rightarrow> compositeStore \<Rightarrow> bool" for C where
  store_start: "store_reachable C newCompositeStore"
| store_next: "store_reachable C s \<Longrightarrow> store_step C s s' \<Longrightarrow> store_reachable C s'"

inductive_cases store_stepE: "store_step C s s'"

lemma store_Load_inv: "store_inv s \<Longrightarrow> store_Load it s = Ret (s', r) \<Longrightarrow> store_inv s'"
  by (auto simp: store_Load_def Lock_def split: if_splits)

lemma keyFunc_inv: "store_inv s \<Longrightarrow> keyFunc policy s = Ret (s', r) \<Longrightarrow> store_inv s'"
  by (auto simp: keyFunc_def Lock_def split: if_splits option.splits)

lemma kube_compile_inv: "store_inv s \<Longrightarrow> kube_compile C it policy s = Ret (s', r) \<Longrightarrow> store_inv s'"
  by (auto simp: kube_compile_def Lock_def Let_def bind_outcome_Ret_iff split: if_splits option.splits)

lemmas operations_keep_inv = handlePolicy_inv handlePolex_inv store_Load_inv keyFunc_inv kube_compile_inv

lemma store_reachable_inv: "store_reachable C s \<Longrightarrow> store_inv s"
  by (induction rule: store_reachable.induct)
    (auto simp: store_inv_new elim!: store_stepE dest: operations_keep_inv)

section \<open>What an event does to one policy\<close>

definition counter_of :: "compositeStore \<Rightarrow> string \<Rightarrow> int64 option" where
  "counter_of s k = Option.bind (st_policies s k) (\<lambda>a. map_option exceptionEventCounter (pol_heap s a))"

definition linked_to :: "compositeStore \<Rightarrow> string \<Rightarrow> (string \<rightharpoonup> addr)" where
  "linked_to s k = (\<lambda>x. Option.bind (st_policies s k) (\<lambda>a. Option.bind (pol_heap s a) (\<lambda>p. ps_exceptions p x)))"

lemma link_reference_policies [simp]: "st_policies (link_reference x e ref s) = st_policies s"
  by (simp add: link_reference_def Let_def split: option.split)

lemma link_reference_counter:
  assumes "store_inv s"
  shows "counter_of (link_reference x e ref s) k =
    map_option (\<lambda>c. if ref = k then c + 1 else c) (counter_of s k)"
proof (cases "st_policies s ref")
  case None
  then show ?thesis by (cases "ref = k") (auto simp: link_reference_def counter_of_def option.map_ident)
next
  case (Some a)
  have "st_policies s k \<noteq> Some a" if "ref \<noteq> k"
    using store_inv_inj [OF assms Some] that by blast
  with Some show ?thesis
    by (cases "st_policies s k"; cases "ref = k")
      (auto simp: link_reference_def counter_of_def Let_def option.map_comp comp_def option.map_ident)
qed

lemma link_references_counter:
  assumes "storing e exc s" and "set refs \<subseteq> set (pe_policyRefs exc)"
  shows "counter_of (fold (link_reference x e) refs s) k =
    map_option (\<lambda>c. c + of_nat (count_list refs k)) (counter_of s k)"
  using assms
proof (induction refs arbitrary: s)
  case Nil
  then show ?case by (simp add: option.map_ident)
next
  case (Cons ref refs)
  then have "storing e exc (link_reference x e ref s)" and "store_inv s"
    using link_reference_storing by (auto simp: storing_def)
  with Cons show ?case
    by (cases "counter_of s k") (auto simp: link_reference_counter)
qed

lemma store_polex_counter:
  assumes "store_inv s"
  shows "counter_of (store_polex x exc s) k =
    map_option (\<lambda>c. c + of_nat (count_list (pe_policyRefs exc) k)) (counter_of s k)"
  unfolding store_polex_def Let_def
  by (subst link_references_counter [where exc = exc])
    (use assms in \<open>simp_all add: storing_def store_inv_alloc_exc\<close>, simp add: counter_of_def)

lemma keyFunc_key:
  assumes "keyFunc policy s = Ret (s', Inr key)"
  shows "\<exists>c. counter_of s (vp_name policy) = Some c \<and>
    key = vp_name policy @ vp_resourceVersion policy @ itoa (sint c)"
  using assms by (auto simp: keyFunc_def Lock_def counter_of_def split: if_splits option.splits)

lemma of_nat_int64_nonzero: "0 < n \<Longrightarrow> n < 2 ^ 64 \<Longrightarrow> (of_nat n :: int64) \<noteq> 0"
  by (auto simp: word_of_nat_eq_0_iff dest: dvd_imp_le)

lemma counter_of_locked [simp]: "counter_of (s\<lparr>locked := b\<rparr>) k = counter_of s k" "counter_of (Unlock s) k = counter_of s k"
  by (simp_all add: counter_of_def)

lemma create_link_ps:
  assumes "linking k a s" and "\<And>y. linked_to s k y = m y"
  shows "linked_to (link_exception k a x s) k =
    (case st_exceptions s x of None \<Rightarrow> m | Some e \<Rightarrow>
       if \<exists>ex. exc_heap s e = Some ex \<and> k \<in> set (pe_policyRefs (es_exception ex)) then m(x \<mapsto> e) else m)"
proof (cases "st_exceptions s x")
  case None
  with assms(2) show ?thesis by (simp add: link_exception_def fun_eq_iff)
next
  case (Some e)
  obtain exc where exc: "exc_heap s e = Some exc"
    using store_inv_exception [OF _ Some] assms(1) by (auto simp: linking_def)
  have fold: "linked_to (fold (\<lambda>ref s. if ref = k
        then upd_pol a (\<lambda>p. p\<lparr>ps_exceptions := (ps_exceptions p)(x \<mapsto> e)\<rparr>)
              (upd_exc e (\<lambda>y. y\<lparr>references := (references y)(k := st_policies s k)\<rparr>) s)
        else s) refs t) k = (if k \<in> set refs then n(x \<mapsto> e) else n)"
    if "st_policies t k = Some a" "pol_heap t a \<noteq> None" "linked_to t k = n" for refs t n
    using that
  proof (induction refs arbitrary: t n)
    case (Cons ref refs)
    show ?case
    proof (cases "ref = k")
      case True
      from Cons.prems obtain p where p: "pol_heap t a = Some p" by auto
      with Cons.prems have n: "n = ps_exceptions p" by (auto simp: linked_to_def fun_eq_iff)
      show ?thesis using True Cons.prems p n by (simp, subst Cons.IH [where n = "n(x \<mapsto> e)"])
          (auto simp: linked_to_def fun_eq_iff)
    next
      case False
      with Cons show ?thesis by simp
    qed
  qed simp
  have "pol_heap s a \<noteq> None" and "st_policies s k = Some a" and "linked_to s k = m"
    using store_inv_policy [of s k a] assms by (auto simp: linking_def)
  from fold [OF this(2,1,3), of "pe_policyRefs (es_exception exc)"] Some exc show ?thesis
    by (simp add: link_exception_def)
qed

text \<open>The stored exception under a key, when it references the policy key.\<close>

definition wanted :: "compositeStore \<Rightarrow> string \<Rightarrow> string \<rightharpoonup> addr" where
  "wanted s k x = Option.bind (st_exceptions s x) (\<lambda>e. Option.bind (exc_heap s e) (\<lambda>ex.
     if k \<in> set (pe_policyRefs (es_exception ex)) then Some e else None))"

lemma linked_after_link_exception:
  assumes "linking k a s"
  shows "linked_to (link_exception k a x s) k =
    (case wanted s k x of None \<Rightarrow> linked_to s k | Some e \<Rightarrow> (linked_to s k)(x \<mapsto> e))"
  using create_link_ps [OF assms refl] store_inv_exception [of s x] assms
  by (cases "st_exceptions s x") (auto simp: wanted_def linking_def split: option.splits)

lemma wanted_link_exception: "wanted (link_exception k a x s) l = wanted s l"
proof -
  let ?step = "\<lambda>e ref s. if ref = k
      then upd_pol a (\<lambda>p. p\<lparr>ps_exceptions := (ps_exceptions p)(x \<mapsto> e)\<rparr>)
            (upd_exc e (\<lambda>y. y\<lparr>references := (references y)(k := st_policies s k)\<rparr>) s)
      else s"
  have step: "wanted (?step e ref t) l = wanted t l" for e ref t
  proof
    fix z show "wanted (?step e ref t) l z = wanted t l z"
      by (cases "st_exceptions t z"; cases "exc_heap t e") (auto simp: wanted_def)
  qed
  have "wanted (fold (?step e) refs t) l = wanted t l" for e refs t
    by (induction refs arbitrary: t) (simp, metis (no_types, lifting) fold_Cons comp_apply step)
  then show ?thesis by (simp add: link_exception_def split: option.split)
qed

lemma linked_after_link_exceptions:
  assumes "linking k a s"
  shows "linked_to (fold (link_exception k a) it s) k =
    (\<lambda>x. if x \<in> set it \<and> wanted s k x \<noteq> None then wanted s k x else linked_to s k x)"
  using assms
proof (induction it arbitrary: s)
  case (Cons y it)
  show ?case
    using Cons.IH [OF link_exception_linking [OF Cons.prems, of y]] linked_after_link_exception [OF Cons.prems, of y]
    by (cases "wanted s k y") (auto simp: wanted_link_exception fun_eq_iff)
qed simp

lemma create_policy_links:
  assumes "store_inv s" and "iterates it (st_exceptions s)"
  shows "linked_to (create_policy it k policy s) k = wanted s k"
proof -
  let ?s = "s\<lparr>pol_heap := (pol_heap s)(next_addr s \<mapsto> \<lparr>ps_policy = policy, ps_exceptions = Map.empty,
      exceptionEventCounter = 0\<rparr>), next_addr := Suc (next_addr s),
      st_policies := (st_policies s)(k \<mapsto> next_addr s)\<rparr>"
  have l: "linking k (next_addr s) ?s" using store_inv_alloc_pol [OF assms(1)] by (simp add: linking_def)
  have empty: "linked_to ?s k = Map.empty" by (simp add: linked_to_def)
  have same: "wanted ?s k = wanted s k" by (simp add: wanted_def fun_eq_iff)
  have all: "wanted s k x = None" if "x \<notin> set it" for x
    using that assms(2) by (auto simp: wanted_def iterates_lookup split: bind_splits)
  have "create_policy it k policy s = fold (link_exception k (next_addr s)) it ?s"
    by (simp add: create_policy_def Let_def)
  then have "linked_to (create_policy it k policy s) k =
      (\<lambda>x. if x \<in> set it \<and> wanted s k x \<noteq> None then wanted s k x else None)"
    by (simp only: linked_after_link_exceptions [OF l] empty same)
  also have "\<dots> = wanted s k" using all by (auto simp: fun_eq_iff)
  finally show ?thesis .
qed

lemma forget_exception_linked:
  assumes "store_inv s"
  shows "linked_to (forget_exception x ref s) k = (if ref = k then (linked_to s k)(x := None) else linked_to s k)"
proof (cases "st_policies s ref")
  case None
  then show ?thesis by (auto simp: forget_exception_def linked_to_def fun_eq_iff)
next
  case (Some a)
  have "st_policies s k \<noteq> Some a" if "ref \<noteq> k"
    using store_inv_inj [OF assms Some] that by blast
  with Some show ?thesis
    by (cases "st_policies s k"; cases "ref = k"; cases "pol_heap s a")
      (auto simp: forget_exception_def linked_to_def fun_eq_iff)
qed

lemma forget_exception_counter:
  assumes "store_inv s"
  shows "counter_of (forget_exception x ref s) k = map_option (\<lambda>c. if ref = k then c + 1 else c) (counter_of s k)"
proof (cases "st_policies s ref")
  case None
  then show ?thesis by (cases "ref = k") (auto simp: forget_exception_def counter_of_def option.map_ident)
next
  case (Some a)
  have "st_policies s k \<noteq> Some a" if "ref \<noteq> k"
    using store_inv_inj [OF assms Some] that by blast
  with Some show ?thesis
    by (cases "st_policies s k"; cases "ref = k")
      (auto simp: forget_exception_def counter_of_def option.map_comp comp_def option.map_ident)
qed

lemma delete_polex_effect:
  assumes "store_inv s" and "iterates it (st_policies s)"
  shows "linked_to (delete_polex it x s) k = (linked_to s k)(x := None)"
    and "counter_of (delete_polex it x s) k = map_option (\<lambda>c. c + 1) (counter_of s k)"
proof -
  let ?s = "s\<lparr>st_exceptions := (st_exceptions s)(x := None)\<rparr>"
  have fold: "linked_to (fold (forget_exception x) it t) k = (if k \<in> set it then (linked_to t k)(x := None) else linked_to t k)
      \<and> counter_of (fold (forget_exception x) it t) k = map_option (\<lambda>c. if k \<in> set it then c + 1 else c) (counter_of t k)"
    if "store_inv t" "distinct it" for it t
    using that
  proof (induction it arbitrary: t)
    case (Cons y it)
    from Cons.IH [OF forget_exception_inv [OF Cons.prems(1)]] Cons.prems show ?case
      by (cases "counter_of t k") (auto simp: forget_exception_linked forget_exception_counter)
  qed (simp add: option.map_ident)
  have s: "linked_to ?s k = linked_to s k" "counter_of ?s k = counter_of s k"
    by (simp_all add: linked_to_def counter_of_def)
  have f: "linked_to (delete_polex it x s) k = (if k \<in> set it then (linked_to s k)(x := None) else linked_to s k)"
    "counter_of (delete_polex it x s) k = map_option (\<lambda>c. if k \<in> set it then c + 1 else c) (counter_of s k)"
    using fold [of ?s it] assms store_inv_drop_exception s by (auto simp: delete_polex_def iterates_def)
  have absent: "linked_to s k = Map.empty" "counter_of s k = None" if "k \<notin> set it"
    using that assms(2) by (auto simp: iterates_lookup linked_to_def counter_of_def fun_eq_iff split: bind_splits)
  show "linked_to (delete_polex it x s) k = (linked_to s k)(x := None)"
    using f(1) absent(1) by (auto simp: fun_eq_iff)
  show "counter_of (delete_polex it x s) k = map_option (\<lambda>c. c + 1) (counter_of s k)"
    using f(2) absent(2) by (cases "k \<in> set it") auto
qed

lemma link_reference_linked:
  assumes "store_inv s"
  shows "linked_to (link_reference x e ref s) k =
    (if ref = k \<and> st_policies s k \<noteq> None then (linked_to s k)(x \<mapsto> e) else linked_to s k)"
proof (cases "st_policies s ref")
  case None
  then show ?thesis by (auto simp: link_reference_def linked_to_def fun_eq_iff)
next
  case (Some a)
  obtain p where "pol_heap s a = Some p" using store_inv_policy [OF assms Some] by blast
  moreover have "st_policies s k \<noteq> Some a" if "ref \<noteq> k"
    using store_inv_inj [OF assms Some] that by blast
  ultimately show ?thesis using Some
    by (cases "st_policies s k"; cases "ref = k")
      (auto simp: link_reference_def linked_to_def Let_def fun_eq_iff)
qed

lemma link_references_linked:
  assumes "storing e exc s" and "set refs \<subseteq> set (pe_policyRefs exc)"
  shows "linked_to (fold (link_reference x e) refs s) k =
    (if k \<in> set refs \<and> st_policies s k \<noteq> None then (linked_to s k)(x \<mapsto> e) else linked_to s k)"
  using assms
proof (induction refs arbitrary: s)
  case (Cons ref refs)
  then have "storing e exc (link_reference x e ref s)" and "store_inv s"
    using link_reference_storing by (auto simp: storing_def)
  with Cons show ?case by (auto simp: link_reference_linked)
qed simp

lemma store_polex_linked:
  assumes "store_inv s"
  shows "linked_to (store_polex x exc s) k = (if k \<in> set (pe_policyRefs exc) \<and> st_policies s k \<noteq> None
     then (linked_to s k)(x \<mapsto> next_addr s) else linked_to s k)"
proof -
  let ?s = "s\<lparr>exc_heap := (exc_heap s)(next_addr s \<mapsto> \<lparr>es_exception = exc, references = Map.empty\<rparr>),
      next_addr := Suc (next_addr s)\<rparr>"
  have "storing (next_addr s) exc ?s" using assms by (simp add: storing_def store_inv_alloc_exc)
  moreover have "linked_to ?s k = linked_to s k" by (simp add: linked_to_def)
  moreover have "store_polex x exc s = fold (link_reference x (next_addr s)) (pe_policyRefs exc) ?s"
    by (simp add: store_polex_def Let_def)
  ultimately show ?thesis
    by (simp only: link_references_linked [where exc = exc] subset_refl if_cancel) simp
qed

section \<open>Properties\<close>

lemma handlePolex_create:
  "handlePolex it x exc False s = Ret (s', r) \<Longrightarrow> \<not> locked s \<and> s' = Unlock (store_polex x exc (s\<lparr>locked := True\<rparr>))"
  by (simp add: handlePolex_def Lock_def split: if_splits)

lemma handlePolex_delete:
  "handlePolex it x exc True s = Ret (s', r) \<Longrightarrow> \<not> locked s \<and> s' = Unlock (delete_polex it x (s\<lparr>locked := True\<rparr>))"
  by (simp add: handlePolex_def Lock_def split: if_splits)

lemma handlePolicy_create:
  "handlePolicy it key policy False s = Ret (s', r) \<Longrightarrow> st_policies s (TrimPrefix key ''/'') = None \<Longrightarrow>
    \<not> locked s \<and> s' = Unlock (create_policy it (TrimPrefix key ''/'') policy (s\<lparr>locked := True\<rparr>))"
  by (auto simp: handlePolicy_def Lock_def Let_def split: if_splits)

lemma linked_to_locked [simp]: "linked_to (s\<lparr>locked := b\<rparr>) k = linked_to s k" "linked_to (Unlock s) k = linked_to s k"
  by (simp_all add: linked_to_def)

lemma wanted_locked [simp]: "wanted (s\<lparr>locked := b\<rparr>) k = wanted s k"
  by (simp add: wanted_def fun_eq_iff)

lemma sample_fields:
  "vp_name sample_vpol = ''demo''" "vp_evaluationMode sample_vpol = EvaluationModeHTTP"
  "pe_policyRefs (sample_polex c) = [''demo'']" "pe_evaluationMode (sample_polex c) = EvaluationModeHTTP"
  by (simp_all add: sample_vpol_def sample_polex_def)

definition sample_policy_store :: compositeStore where
  "sample_policy_store = Unlock (create_policy [] ''demo'' sample_vpol (newCompositeStore\<lparr>locked := True\<rparr>))"

definition sample_store :: compositeStore where
  "sample_store = Unlock (store_polex ''polex'' (sample_polex ''isAdmin'') (sample_policy_store\<lparr>locked := True\<rparr>))"

lemma sample_policy_store_unlocked [simp]: "locked sample_policy_store = False"
  by (simp add: sample_policy_store_def)

lemma sample_policy_store_reachable: "store_reachable C sample_policy_store"
proof -
  have "handlePolicy [] ''/demo'' sample_vpol False newCompositeStore = Ret (sample_policy_store, ())"
    by (simp add: handlePolicy_def Lock_def newCompositeStore_def TrimPrefix_def sample_policy_store_def)
  then show ?thesis
    by (intro store_next [OF store_start] policy_event [where it = "[]"])
      (simp_all add: iterates_def newCompositeStore_def)
qed

lemma sample_store_reachable: "store_reachable C sample_store"
proof -
  have "handlePolex [''demo''] ''polex'' (sample_polex ''isAdmin'') False sample_policy_store = Ret (sample_store, ())"
    by (simp add: handlePolex_def Lock_def sample_store_def)
  moreover have "iterates [''demo''] (st_policies sample_policy_store)"
    by (simp add: iterates_def create_policy_def newCompositeStore_def Let_def sample_policy_store_def)
  ultimately show ?thesis using sample_policy_store_reachable by (blast intro: store_next polex_event)
qed

lemma sample_store_eval:
  "st_policies sample_store = [''demo'' \<mapsto> 0]" "st_exceptions sample_store = [''polex'' \<mapsto> 1]"
  "pol_heap sample_store = [0 \<mapsto> \<lparr>ps_policy = sample_vpol, ps_exceptions = [''polex'' \<mapsto> 1], exceptionEventCounter = 1\<rparr>]"
  "exc_heap sample_store = [1 \<mapsto> \<lparr>es_exception = sample_polex ''isAdmin'', references = [''demo'' \<mapsto> 0]\<rparr>]"
  "locked sample_store = False"
  by (simp_all add: sample_store_def sample_policy_store_def store_polex_def create_policy_def newCompositeStore_def sample_fields
      link_reference_def Let_def upd_pol_def upd_exc_def Unlock_def)

text \<open>
  C9. Whatever events the watchers and the cache went through, a policy is compiled only with
  exceptions that reference it by name and have its evaluation mode.
\<close>

theorem compiled_with_own_exceptions:
  assumes "store_reachable C s" and "kube_compile C it policy s = Ret (s', Inr res)"
  shows "\<exists>excs. Compile C policy excs = Ret res \<and>
    (\<forall>ex \<in> set excs. vp_name policy \<in> set (pe_policyRefs ex) \<and> pe_evaluationMode ex = vp_evaluationMode policy)"
proof -
  from assms(2) obtain a p where a: "st_policies s (vp_name policy) = Some a" "pol_heap s a = Some p"
    and c: "Compile C policy (matching_exceptions it (Unlock (s\<lparr>locked := True\<rparr>)) p policy) = Ret res"
    by (auto simp: kube_compile_def Lock_def Let_def bind_outcome_Ret_iff split: if_splits option.splits)
  have "vp_name policy \<in> set (pe_policyRefs ex) \<and> pe_evaluationMode ex = vp_evaluationMode policy"
    if ex: "ex \<in> set (matching_exceptions it (Unlock (s\<lparr>locked := True\<rparr>)) p policy)" for ex
  proof -
    from ex obtain x e where e: "ps_exceptions p x = Some e" "ex = es_exception (the (exc_heap s e))"
      and m: "pe_evaluationMode ex = vp_evaluationMode policy"
      by (auto simp: matching_exceptions_def map_filter_def)
    with store_inv_link [OF store_reachable_inv [OF assms(1)] a e(1)] show ?thesis by auto
  qed
  with c show ?thesis by blast
qed

theorem compiled_with_own_exceptions_witness:
  "\<exists>excs res. Compile sample_compiler sample_vpol excs = Ret res \<and>
    (\<forall>ex \<in> set excs. ''demo'' \<in> set (pe_policyRefs ex) \<and> pe_evaluationMode ex = EvaluationModeHTTP)"
proof -
  have "\<exists>s' res. kube_compile sample_compiler [''polex''] sample_vpol sample_store = Ret (s', Inr res)"
    using sample_Compile
    by (simp add: kube_compile_def Lock_def sample_store_eval Let_def matching_exceptions_def map_filter_def
        Unlock_def sample_fields)
  then obtain s' res where "kube_compile sample_compiler [''polex''] sample_vpol sample_store = Ret (s', Inr res)"
    by blast
  from compiled_with_own_exceptions [OF sample_store_reachable this] show ?thesis
    unfolding sample_fields by blast
qed

text \<open>
  An exception event on a policy of the store changes the cache key of that policy, so the
  policy is compiled again: no event that touches a policy is served from the cache.
\<close>

lemma exception_event_changes_key:
  assumes "store_reachable C s" and "handlePolex it x exc False s = Ret (s', ())"
    and "vp_name policy \<in> set (pe_policyRefs exc)" and "length (pe_policyRefs exc) < 2 ^ 64"
    and "keyFunc policy s = Ret (t, Inr key)" and "keyFunc policy s' = Ret (t', Inr key')"
  shows "key' \<noteq> key"
proof -
  note inv = store_reachable_inv [OF assms(1)]
  let ?n = "count_list (pe_policyRefs exc) (vp_name policy)"
  have s': "s' = Unlock (store_polex x exc (s\<lparr>locked := True\<rparr>))" using handlePolex_create [OF assms(2)] by simp
  obtain c where c: "counter_of s (vp_name policy) = Some c" "key = vp_name policy @ vp_resourceVersion policy @ itoa (sint c)"
    using keyFunc_key [OF assms(5)] by blast
  have c': "counter_of s' (vp_name policy) = Some (c + of_nat ?n)"
    using store_polex_counter [of "s\<lparr>locked := True\<rparr>"] inv c s' by simp
  have "?n \<noteq> 0" using assms(3) by (simp add: count_list_0_iff)
  moreover have "?n < 2 ^ 64" using assms(4) count_le_length [of "pe_policyRefs exc"] by (rule order.strict_trans1 [rotated])
  ultimately have "c + of_nat ?n \<noteq> c" using of_nat_int64_nonzero [of ?n] by simp
  then have "sint (c + of_nat ?n) \<noteq> sint c" by (metis word_eq_iff_signed)
  then show ?thesis
    using keyFunc_key [OF assms(6)] c c' by (auto simp: itoa_inj)
qed

lemma exception_event_changes_key_sample:
  "\<exists>s' t t' key key'. handlePolex [] ''second'' (sample_polex ''isAdmin'') False sample_store = Ret (s', ()) \<and>
     keyFunc sample_vpol sample_store = Ret (t, Inr key) \<and> keyFunc sample_vpol s' = Ret (t', Inr key') \<and> key' \<noteq> key"
proof -
  obtain s' where s': "handlePolex [] ''second'' (sample_polex ''isAdmin'') False sample_store = Ret (s', ())"
    by (simp add: handlePolex_def Lock_def sample_store_eval)
  obtain t key where k: "keyFunc sample_vpol sample_store = Ret (t, Inr key)"
    by (simp add: keyFunc_def Lock_def sample_store_eval sample_fields)
  have "locked s' = False" using handlePolex_create [OF s'] by simp
  moreover have "\<exists>a p. st_policies s' ''demo'' = Some a \<and> pol_heap s' a = Some p"
    using handlePolex_create [OF s']
    by (simp add: store_polex_def Let_def sample_fields link_reference_def sample_store_eval)
  ultimately obtain t' key' where k': "keyFunc sample_vpol s' = Ret (t', Inr key')"
    by (auto simp: keyFunc_def Lock_def sample_fields)
  have "key' \<noteq> key"
    by (rule exception_event_changes_key [OF sample_store_reachable [of sample_compiler] s' _ _ k k'])
      (simp_all add: sample_fields)
  with s' k k' show ?thesis by blast
qed

text \<open>
  Creating a policy links it to exactly the stored exceptions that reference it, with a
  fresh event counter, whatever order the map of exceptions is walked in.
\<close>

lemma policy_creation_links_exceptions:
  assumes "store_reachable C s" and "iterates it (st_exceptions s)"
    and "st_policies s (TrimPrefix key ''/'') = None"
    and "handlePolicy it key policy False s = Ret (s', ())"
  shows "linked_to s' (TrimPrefix key ''/'') = wanted s (TrimPrefix key ''/'')"
  using create_policy_links [of "s\<lparr>locked := True\<rparr>" it] store_reachable_inv [OF assms(1)] assms(2)
    handlePolicy_create [OF assms(4,3)]
  by simp

lemma policy_creation_links_exceptions_sample:
  "\<exists>s'. handlePolicy [''polex''] ''/other'' sample_vpol False sample_store = Ret (s', ())
     \<and> linked_to s' ''other'' = Map.empty"
proof -
  obtain s' where s': "handlePolicy [''polex''] ''/other'' sample_vpol False sample_store = Ret (s', ())"
    by (simp add: handlePolicy_def Lock_def sample_store_eval Let_def TrimPrefix_def)
  have "linked_to s' (TrimPrefix ''/other'' ''/'') = wanted sample_store (TrimPrefix ''/other'' ''/'')"
    by (rule policy_creation_links_exceptions [OF sample_store_reachable [of sample_compiler] _ _ s'])
      (simp_all add: iterates_def sample_store_eval TrimPrefix_def)
  moreover have "wanted sample_store ''other'' = Map.empty"
    by (simp add: wanted_def fun_eq_iff sample_store_eval sample_fields split: bind_split)
  ultimately show ?thesis using s' by (simp add: TrimPrefix_def)
qed

text \<open>
  Deleting an exception unlinks it from every policy of the store and moves the counter in
  the cache key of every one of them, so that all are compiled again without it.
\<close>

lemma exception_delete_unlinks_everywhere:
  assumes "store_reachable C s" and "iterates it (st_policies s)"
    and "handlePolex it x exc True s = Ret (s', ())"
  shows "linked_to s' k = (linked_to s k)(x := None) \<and> st_exceptions s' x = None
    \<and> counter_of s' k = map_option (\<lambda>c. c + 1) (counter_of s k)"
proof -
  have "st_exceptions (forget_exception x y t) = st_exceptions t" for y t
    by (simp add: forget_exception_def split: option.split)
  then have "st_exceptions (fold (forget_exception x) it t) = st_exceptions t" for t
    by (induction it arbitrary: t) simp_all
  then show ?thesis
    using delete_polex_effect [of "s\<lparr>locked := True\<rparr>" it x k] store_reachable_inv [OF assms(1)] assms(2)
      handlePolex_delete [OF assms(3)]
    by (simp add: delete_polex_def)
qed

lemma exception_delete_unlinks_everywhere_sample:
  "\<exists>s'. handlePolex [''demo''] ''polex'' (sample_polex ''isAdmin'') True sample_store = Ret (s', ())
     \<and> linked_to s' ''demo'' = Map.empty \<and> counter_of s' ''demo'' = Some 2"
proof -
  obtain s' where s': "handlePolex [''demo''] ''polex'' (sample_polex ''isAdmin'') True sample_store = Ret (s', ())"
    by (simp add: handlePolex_def Lock_def sample_store_eval)
  have "linked_to s' ''demo'' = (linked_to sample_store ''demo'')(''polex'' := None) \<and> st_exceptions s' ''polex'' = None
      \<and> counter_of s' ''demo'' = map_option (\<lambda>c. c + 1) (counter_of sample_store ''demo'')"
    by (rule exception_delete_unlinks_everywhere [OF sample_store_reachable [of sample_compiler] _ s'])
      (simp add: iterates_def sample_store_eval)
  with s' show ?thesis by (simp add: linked_to_def counter_of_def sample_store_eval fun_eq_iff)
qed

text \<open>
  C24. Order dependence: an exception event none of whose policies is in the store leaves no
  trace, so the policy created afterwards is compiled without the exception, although the
  creation step is written to link the exceptions that already reference it.
\<close>

theorem exception_before_its_policy_is_lost:
  assumes "store_reachable C s" and "st_exceptions s x = None"
    and "\<forall>ref \<in> set (pe_policyRefs exc). st_policies s ref = None"
    and "handlePolex it x exc False s = Ret (s1, ())"
    and "iterates it' (st_exceptions s1)" and "st_policies s (TrimPrefix key ''/'') = None"
    and "handlePolicy it' key policy False s1 = Ret (s2, ())"
  shows "linked_to s2 (TrimPrefix key ''/'') x = None"
proof -
  have "fold (link_reference x e) refs t = t" if "\<forall>ref \<in> set refs. st_policies t ref = None" for e refs t
    using that by (induction refs) (simp_all add: link_reference_def)
  then have s1: "st_exceptions s1 = st_exceptions s" "st_policies s1 = st_policies s"
    using handlePolex_create [OF assms(4)] assms(3) by (simp_all add: store_polex_def Let_def)
  have "store_inv s1" using handlePolex_inv [OF store_reachable_inv [OF assms(1)] assms(4)] .
  then have "linked_to s2 (TrimPrefix key ''/'') = wanted s1 (TrimPrefix key ''/'')"
    using handlePolicy_create [OF assms(7)] assms(5,6) s1 create_policy_links [of "s1\<lparr>locked := True\<rparr>" it'] by simp
  then show ?thesis using assms(2) s1 by (simp add: wanted_def)
qed

theorem exception_before_its_policy_is_lost_witness:
  "\<exists>s1 s2. handlePolex [] ''polex'' (sample_polex ''isAdmin'') False newCompositeStore = Ret (s1, ())
     \<and> handlePolicy [] ''/demo'' sample_vpol False s1 = Ret (s2, ()) \<and> linked_to s2 ''demo'' ''polex'' = None"
proof -
  obtain s1 where s1: "handlePolex [] ''polex'' (sample_polex ''isAdmin'') False newCompositeStore = Ret (s1, ())"
    by (simp add: handlePolex_def Lock_def newCompositeStore_def)
  have e: "st_exceptions s1 = Map.empty" "st_policies s1 = Map.empty" "\<not> locked s1"
    using handlePolex_create [OF s1]
    by (simp_all add: store_polex_def Let_def link_reference_def newCompositeStore_def sample_fields)
  obtain s2 where s2: "handlePolicy [] ''/demo'' sample_vpol False s1 = Ret (s2, ())"
    using e by (simp add: handlePolicy_def Lock_def Let_def)
  have "linked_to s2 (TrimPrefix ''/demo'' ''/'') ''polex'' = None"
    by (rule exception_before_its_policy_is_lost [OF store_start [of sample_compiler] _ _ s1 _ _ s2])
      (simp_all add: e iterates_def newCompositeStore_def)
  with s1 s2 show ?thesis by (simp add: TrimPrefix_def)
qed

text \<open>
  C23. Storing an exception links its new version to exactly the referenced policies that are in
  the store and leaves every other policy as it was: a policy that an update drops from the
  references keeps the exception's old version.
\<close>

theorem exception_event_links:
  assumes "store_reachable C s" and "handlePolex it x exc False s = Ret (s', ())"
  shows "linked_to s' k = (if k \<in> set (pe_policyRefs exc) \<and> st_policies s k \<noteq> None
    then (linked_to s k)(x \<mapsto> next_addr s) else linked_to s k)"
proof -
  have "s' = Unlock (store_polex x exc (s\<lparr>locked := True\<rparr>))" using handlePolex_create [OF assms(2)] by simp
  with store_reachable_inv [OF assms(1)] show ?thesis by (auto simp: store_polex_linked)
qed

theorem exception_event_links_witness:
  "\<exists>s'. handlePolex [] ''polex'' ((sample_polex ''isAdmin'')\<lparr>pe_policyRefs := [''other'']\<rparr>) False sample_store = Ret (s', ())
     \<and> linked_to s' ''demo'' ''polex'' = Some 1"
proof -
  obtain s' where s': "handlePolex [] ''polex'' ((sample_polex ''isAdmin'')\<lparr>pe_policyRefs := [''other'']\<rparr>) False sample_store
      = Ret (s', ())"
    by (simp add: handlePolex_def Lock_def sample_store_eval)
  from exception_event_links [OF sample_store_reachable [of sample_compiler] this, of "''demo''"]
  have "linked_to s' ''demo'' = linked_to sample_store ''demo''" by simp
  then have "linked_to s' ''demo'' ''polex'' = Some 1" by (simp add: linked_to_def sample_store_eval)
  with s' show ?thesis by blast
qed

text \<open>
  C17. Lock discipline: the watchers' handlers, \<open>Load\<close> and \<open>keyFunc\<close> return and release the
  mutex whenever it is free, but compiling a policy that has left the store reports an error and
  keeps the mutex, after which every operation of the store waits forever.
\<close>

theorem compile_of_deleted_policy_leaks_lock:
  assumes "store_reachable C s" and "\<not> locked s"
  shows "(\<exists>s'. handlePolicy it key p d s = Ret (s', ()) \<and> \<not> locked s')
    \<and> (\<exists>s'. handlePolex it x exc d s = Ret (s', ()) \<and> \<not> locked s')
    \<and> (\<exists>s' ps. store_Load it s = Ret (s', ps) \<and> \<not> locked s')
    \<and> (\<exists>s' r. keyFunc policy s = Ret (s', r) \<and> \<not> locked s')
    \<and> (st_policies s (vp_name policy) = None \<longrightarrow>
        (\<exists>s'. kube_compile C it policy s = Ret (s', Inl missing_policy_error)
          \<and> handlePolicy it' key p d s' = Blocked \<and> handlePolex it' x exc d s' = Blocked
          \<and> store_Load it' s' = Blocked \<and> keyFunc q s' = Blocked \<and> kube_compile C it' q s' = Blocked))"
proof -
  have "\<exists>s'. handlePolicy it key p d s = Ret (s', ())"
    using assms(2) by (simp add: handlePolicy_def Lock_def Let_def split: option.split)
  moreover have "\<exists>s'. handlePolex it x exc d s = Ret (s', ())"
    using assms(2) by (simp add: handlePolex_def Lock_def)
  moreover have "\<exists>s' ps. store_Load it s = Ret (s', ps)"
    using assms(2) by (simp add: store_Load_def Lock_def)
  moreover have "\<exists>s' r. keyFunc policy s = Ret (s', r)"
  proof (cases "st_policies s (vp_name policy)")
    case None
    with assms(2) show ?thesis by (simp add: keyFunc_def Lock_def)
  next
    case (Some a)
    with store_inv_policy [OF store_reachable_inv [OF assms(1)] this] assms(2) show ?thesis
      by (auto simp: keyFunc_def Lock_def)
  qed
  moreover have "kube_compile C it policy s = Ret (s\<lparr>locked := True\<rparr>, Inl missing_policy_error)"
    if "st_policies s (vp_name policy) = None"
    using assms(2) that by (simp add: kube_compile_def Lock_def)
  moreover have "kube_compile C it' q (s\<lparr>locked := True\<rparr>) = Blocked" by (simp add: kube_compile_def Lock_def)
  moreover have "locked (s\<lparr>locked := True\<rparr>)" by simp
  note policy_op.waits [OF this] polex_op.waits [OF this] load_op.waits [OF this] key_op.waits [OF this]
  ultimately show ?thesis
    using policy_op.returned_unlocked polex_op.returned_unlocked load_op.returned_unlocked key_op.returned_unlocked
    by meson
qed

theorem compile_of_deleted_policy_leaks_lock_witness:
  "\<exists>s'. kube_compile sample_compiler [] (sample_vpol\<lparr>vp_name := ''gone''\<rparr>) sample_store = Ret (s', Inl missing_policy_error)
     \<and> store_Load [''demo''] s' = Blocked"
  using compile_of_deleted_policy_leaks_lock [OF sample_store_reachable [of sample_compiler],
      of "[]" "[]" sample_vpol False "[]" "sample_polex ''isAdmin''" "sample_vpol\<lparr>vp_name := ''gone''\<rparr>" "[''demo'']" sample_vpol]
  by (auto simp: sample_store_eval)

text \<open>
  \<open>Load\<close> lists the policies in the order of their keys, so two loads of one store agree
  whatever order the map is walked in.
\<close>

lemma store_Load_deterministic:
  assumes "iterates it1 (st_policies s)" and "iterates it2 (st_policies s)" and "\<not> locked s"
  shows "store_Load it1 s = store_Load it2 s
    \<and> (\<exists>keys. sorted keys \<and> set keys = dom (st_policies s)
         \<and> store_Load it1 s = Ret (s, map (\<lambda>k. the (st_policies s k)) keys))"
proof -
  have "(s\<lparr>locked := False\<rparr>) = s" using assms(3) by simp
  then have "store_Load it s = Ret (s, map (\<lambda>k. the (st_policies s k)) (sort it))" for it
    using assms(3) by (simp add: store_Load_def Lock_def Unlock_def)
  moreover have "sort it1 = sort it2" by (rule sort_iterates_unique [OF assms(1,2)])
  ultimately show ?thesis
    using assms(1,2) by (intro conjI exI [of _ "sort it1"]) (simp_all add: iterates_def)
qed

lemma store_Load_deterministic_sample:
  "store_Load [''demo''] sample_store = Ret (sample_store, [0])"
proof -
  have "iterates [''demo''] (st_policies sample_store)" "\<not> locked sample_store"
    by (simp_all add: iterates_def sample_store_eval)
  from store_Load_deterministic [OF this(1,1,2)] obtain keys where
    "set keys = {''demo''}" "sorted keys"
    "store_Load [''demo''] sample_store = Ret (sample_store, map (\<lambda>k. the (st_policies sample_store k)) keys)"
    by (auto simp: sample_store_eval)
  then show ?thesis by (simp add: store_Load_def Lock_def Unlock_def sample_store_eval)
qed

section \<open>The cache key is not injective\<close>

text \<open>
  Name, resource version and counter are concatenated without separators: a policy at version 1
  with eleven exception events has the key of version 11 with one event.
\<close>

definition event_store :: "nat \<Rightarrow> compositeStore" where
  "event_store n = fold (\<lambda>_ s. Unlock (store_polex ''polex'' (sample_polex ''isAdmin'') s)) [0..<n] sample_policy_store"

lemma cache_keys_collide:
  "\<exists>k t1 t2. keyFunc sample_vpol (event_store 11) = Ret (t1, Inr k)
     \<and> keyFunc (sample_vpol\<lparr>vp_resourceVersion := ''11''\<rparr>) (event_store 1) = Ret (t2, Inr k)"
proof -
  have inv: "store_inv (event_store n)" for n
    unfolding event_store_def by (rule fold_keeps)
      (simp_all add: store_polex_inv store_reachable_inv [OF sample_policy_store_reachable [of sample_compiler]])
  have 0: "counter_of sample_policy_store ''demo'' = Some 0"
    by (simp add: sample_policy_store_def counter_of_def create_policy_def Let_def)
  have c: "counter_of (event_store n) ''demo'' = Some (of_nat n)" for n
  proof (induction n)
    case (Suc n)
    have "event_store (Suc n) = Unlock (store_polex ''polex'' (sample_polex ''isAdmin'') (event_store n))"
      by (simp add: event_store_def)
    with Suc store_polex_counter [OF inv [of n], of "''polex''" "sample_polex ''isAdmin''" "''demo''"] show ?case
      by (simp add: sample_fields add.commute)
  qed (simp add: event_store_def 0)
  have "locked (event_store n) = False" for n
    by (cases n) (simp_all add: event_store_def)
  then have "keyFunc p (event_store n) = Ret (Unlock ((event_store n)\<lparr>locked := True\<rparr>),
      Inr (''demo'' @ vp_resourceVersion p @ itoa (sint (of_nat n :: int64))))" if "vp_name p = ''demo''" for n p
    using c [of n] that by (auto simp: keyFunc_def Lock_def counter_of_def split: bind_splits)
  then show ?thesis
    by (simp add: sample_fields) (simp add: sample_vpol_def itoa_def nat_digits.simps)
qed

end
