(* ===== verification/Interleaving.thy ===== *)
theory Interleaving
  imports CompositeStore
begin

text \<open>
  The store of the in-cluster source under concurrency. The watchers of the manager run the
  handlers (\<open>composite_source.go\<close>) while requests compile policies (\<open>NewKube\<close> in \<open>kube.go\<close>); each is
  a thread with its own program counter and every interleaving of their steps is a run. The
  handlers do their work while they hold the mutex. The compile function holds it only for the
  lookup of the policy and ranges over the exceptions of the policy after it was released.
\<close>

section \<open>Threads\<close>

datatype store_event =
    PolicyEvent string ValidatingPolicy bool
  | PolexEvent string PolicyException bool

text \<open>What a handler does between taking and releasing the mutex.\<close>

fun event_body :: "string list \<Rightarrow> store_event \<Rightarrow> compositeStore \<Rightarrow> compositeStore" where
  "event_body it (PolicyEvent key policy isDelete) s =
     (let policyKey = TrimPrefix key ''/'' in
      if isDelete then delete_policy it policyKey s
      else (case st_policies s policyKey of
              Some a \<Rightarrow> upd_pol a (\<lambda>p. p\<lparr>ps_policy := policy\<rparr>) s
            | None \<Rightarrow> create_policy it policyKey policy s))"
| "event_body it (PolexEvent excKey exc isDelete) s =
     (if isDelete then delete_polex it excKey s else store_polex excKey exc s)"

fun event_order :: "string list \<Rightarrow> store_event \<Rightarrow> compositeStore \<Rightarrow> bool" where
  "event_order it (PolicyEvent _ _ _) s \<longleftrightarrow> iterates it (st_exceptions s)"
| "event_order it (PolexEvent _ _ _) s \<longleftrightarrow> iterates it (st_policies s)"

text \<open>
  Program counters: of a handler, and of a compilation, which waits for the mutex, looks the policy
  up, and ranges over the exceptions at the address it found, with the keys still to visit and the
  exceptions collected so far. The branch for a missing policy returns with the mutex held.
\<close>

datatype thread =
    EventStart store_event
  | EventHeld store_event
  | EventDone
  | FetchStart ValidatingPolicy
  | FetchHeld ValidatingPolicy
  | FetchMissing ValidatingPolicy
  | FetchFound ValidatingPolicy addr
  | FetchRange ValidatingPolicy addr "string list" "PolicyException list"
  | FetchCompile ValidatingPolicy "PolicyException list"

text \<open>\<open>sr_raced\<close>: a handler has written the map of exceptions a compilation was ranging over.\<close>

record store_run =
  sr_store :: compositeStore
  sr_threads :: "thread list"
  sr_raced :: bool

definition exceptions_at :: "compositeStore \<Rightarrow> addr \<Rightarrow> (string \<rightharpoonup> addr) option" where
  "exceptions_at s a = map_option ps_exceptions (pol_heap s a)"

definition races :: "thread list \<Rightarrow> compositeStore \<Rightarrow> compositeStore \<Rightarrow> bool" where
  "races threads s s' \<longleftrightarrow>
     (\<exists>policy a ks acc. FetchRange policy a ks acc \<in> set threads \<and> exceptions_at s' a \<noteq> exceptions_at s a)"

text \<open>One iteration of the range: a key that is gone by now is skipped.\<close>

definition take_exception :: "compositeStore \<Rightarrow> ValidatingPolicy \<Rightarrow> addr \<Rightarrow> string \<Rightarrow> PolicyException list \<Rightarrow> PolicyException list" where
  "take_exception s policy a x acc =
     (case Option.bind (exceptions_at s a) (\<lambda>m. m x) of
        None \<Rightarrow> acc
      | Some e \<Rightarrow>
          (let ex = es_exception (the (exc_heap s e))
           in if pe_evaluationMode ex = vp_evaluationMode policy then acc @ [ex] else acc))"

inductive run_step :: "store_run \<Rightarrow> store_run \<Rightarrow> bool" where
  event_lock: "i < length (sr_threads r) \<Longrightarrow> sr_threads r ! i = EventStart ev \<Longrightarrow> Lock (sr_store r) = Ret s \<Longrightarrow>
    run_step r (r\<lparr>sr_store := s, sr_threads := (sr_threads r)[i := EventHeld ev]\<rparr>)"
| event_run: "i < length (sr_threads r) \<Longrightarrow> sr_threads r ! i = EventHeld ev \<Longrightarrow> event_order it ev (sr_store r) \<Longrightarrow>
    s = event_body it ev (sr_store r) \<Longrightarrow>
    run_step r (r\<lparr>sr_store := Unlock s, sr_threads := (sr_threads r)[i := EventDone],
      sr_raced := (sr_raced r \<or> races (sr_threads r) (sr_store r) s)\<rparr>)"
| fetch_lock: "i < length (sr_threads r) \<Longrightarrow> sr_threads r ! i = FetchStart policy \<Longrightarrow> Lock (sr_store r) = Ret s \<Longrightarrow>
    run_step r (r\<lparr>sr_store := s, sr_threads := (sr_threads r)[i := FetchHeld policy]\<rparr>)"
| fetch_missing: "i < length (sr_threads r) \<Longrightarrow> sr_threads r ! i = FetchHeld policy \<Longrightarrow>
    st_policies (sr_store r) (vp_name policy) = None \<Longrightarrow>
    run_step r (r\<lparr>sr_threads := (sr_threads r)[i := FetchMissing policy]\<rparr>)"
| fetch_found: "i < length (sr_threads r) \<Longrightarrow> sr_threads r ! i = FetchHeld policy \<Longrightarrow>
    st_policies (sr_store r) (vp_name policy) = Some a \<Longrightarrow>
    run_step r (r\<lparr>sr_store := Unlock (sr_store r), sr_threads := (sr_threads r)[i := FetchFound policy a]\<rparr>)"
| fetch_range: "i < length (sr_threads r) \<Longrightarrow> sr_threads r ! i = FetchFound policy a \<Longrightarrow>
    exceptions_at (sr_store r) a = Some m \<Longrightarrow> iterates it m \<Longrightarrow>
    run_step r (r\<lparr>sr_threads := (sr_threads r)[i := FetchRange policy a it []]\<rparr>)"
| fetch_take: "i < length (sr_threads r) \<Longrightarrow> sr_threads r ! i = FetchRange policy a (x # ks) acc \<Longrightarrow>
    run_step r (r\<lparr>sr_threads := (sr_threads r)[i := FetchRange policy a ks (take_exception (sr_store r) policy a x acc)]\<rparr>)"
| fetch_end: "i < length (sr_threads r) \<Longrightarrow> sr_threads r ! i = FetchRange policy a [] acc \<Longrightarrow>
    run_step r (r\<lparr>sr_threads := (sr_threads r)[i := FetchCompile policy acc]\<rparr>)"

inductive_cases run_stepE: "run_step r r'"

definition starting :: "thread \<Rightarrow> bool" where
  "starting t \<longleftrightarrow> (case t of EventStart _ \<Rightarrow> True | FetchStart _ \<Rightarrow> True | _ \<Rightarrow> False)"

definition run_start :: "compositeStore \<Rightarrow> thread list \<Rightarrow> store_run" where
  "run_start s threads = \<lparr>sr_store = s, sr_threads = threads, sr_raced = False\<rparr>"

section \<open>The steps are those of the handlers\<close>

lemma handlePolicy_body:
  "handlePolicy it key policy d s = bind_outcome (Lock s) (\<lambda>s. Ret (Unlock (event_body it (PolicyEvent key policy d) s), ()))"
  by (cases "Lock s") (auto simp: handlePolicy_def Let_def split: option.split)

lemma handlePolex_body:
  "handlePolex it x exc d s = bind_outcome (Lock s) (\<lambda>s. Ret (Unlock (event_body it (PolexEvent x exc d) s), ()))"
  by (cases "Lock s") (auto simp: handlePolex_def)

text \<open>Ranging without interruption collects what the sequential model collects.\<close>

lemma fold_take_exception:
  assumes "pol_heap s a = Some p"
  shows "fold (take_exception s policy a) it acc = acc @ matching_exceptions it s p policy"
proof (induction it arbitrary: acc)
  case (Cons x it)
  have "take_exception s policy a x acc = acc @ matching_exceptions [x] s p policy"
    using assms by (auto simp: take_exception_def exceptions_at_def matching_exceptions_def map_filter_def Let_def split: option.split)
  moreover have "matching_exceptions (x # it) s p policy = matching_exceptions [x] s p policy @ matching_exceptions it s p policy"
    by (auto simp: matching_exceptions_def map_filter_def)
  ultimately show ?case using Cons by simp
qed (simp add: matching_exceptions_def map_filter_def)

lemma range_runs:
  assumes "i < length (sr_threads r)" and "sr_threads r ! i = FetchRange policy a it acc"
  shows "run_step\<^sup>*\<^sup>* r (r\<lparr>sr_threads := (sr_threads r)[i := FetchCompile policy (fold (take_exception (sr_store r) policy a) it acc)]\<rparr>)"
  using assms
proof (induction it arbitrary: r acc)
  case Nil
  then show ?case using fetch_end [OF Nil] by auto
next
  case (Cons x it)
  let ?r = "r\<lparr>sr_threads := (sr_threads r)[i := FetchRange policy a it (take_exception (sr_store r) policy a x acc)]\<rparr>"
  have "run_step r ?r" by (rule fetch_take [OF Cons.prems])
  moreover have "run_step\<^sup>*\<^sup>* ?r (?r\<lparr>sr_threads := (sr_threads ?r)[i := FetchCompile policy
      (fold (take_exception (sr_store ?r) policy a) it (take_exception (sr_store r) policy a x acc))]\<rparr>)"
    by (rule Cons.IH) (use Cons.prems in simp_all)
  ultimately show ?case by (simp add: converse_rtranclp_into_rtranclp)
qed

section \<open>The mutex\<close>

definition holds_lock :: "thread \<Rightarrow> bool" where
  "holds_lock t \<longleftrightarrow> (case t of EventHeld _ \<Rightarrow> True | FetchHeld _ \<Rightarrow> True | FetchMissing _ \<Rightarrow> True | _ \<Rightarrow> False)"

definition holders :: "thread list \<Rightarrow> nat" where
  "holders threads = length (filter holds_lock threads)"

definition mutex_inv :: "store_run \<Rightarrow> bool" where
  "mutex_inv r \<longleftrightarrow> holders (sr_threads r) = (if locked (sr_store r) then 1 else 0)"

lemma holders_update:
  "i < length ts \<Longrightarrow> holders (ts[i := t]) + (if holds_lock (ts ! i) then 1 else 0) = holders ts + (if holds_lock t then 1 else 0)"
proof (induction ts arbitrary: i)
  case (Cons u ts)
  then show ?case by (cases i) (auto simp: holders_def)
qed simp

lemma holders_pos: "i < length ts \<Longrightarrow> holds_lock (ts ! i) \<Longrightarrow> 0 < holders ts"
  by (auto simp: holders_def filter_empty_conv intro: nth_mem)

lemma holders_one:
  assumes "holders ts \<le> 1" and "i < length ts" and "j < length ts" and "holds_lock (ts ! i)" and "holds_lock (ts ! j)"
  shows "i = j"
proof (rule ccontr)
  assume "i \<noteq> j"
  with assms(3,5) have "0 < holders (ts[i := EventDone])" by (intro holders_pos [of j]) simp_all
  moreover have "holders (ts[i := EventDone]) + 1 = holders ts"
    using holders_update [OF assms(2), of EventDone] assms(4) by (simp add: holds_lock_def)
  ultimately show False using assms(1) by simp
qed

lemma mutex_inv_start: "\<forall>t \<in> set threads. starting t \<Longrightarrow> \<not> locked s \<Longrightarrow> mutex_inv (run_start s threads)"
  by (auto simp: mutex_inv_def run_start_def holders_def filter_empty_conv starting_def holds_lock_def split: thread.splits)

lemma mutex_inv_step:
  assumes "mutex_inv r" and "run_step r r'"
  shows "mutex_inv r'"
  using assms(2)
proof cases
  case (event_lock i ev s)
  with assms(1) holders_update [of i "sr_threads r" "EventHeld ev"] show ?thesis
    by (simp add: mutex_inv_def holds_lock_def Lock_Ret_iff)
next
  case (event_run i ev it s)
  with holders_pos [of i "sr_threads r"] have "0 < holders (sr_threads r)" by (simp add: holds_lock_def)
  with assms(1) event_run holders_update [of i "sr_threads r" EventDone] show ?thesis
    by (simp add: mutex_inv_def holds_lock_def split: if_splits)
next
  case (fetch_lock i policy s)
  with assms(1) holders_update [of i "sr_threads r" "FetchHeld policy"] show ?thesis
    by (simp add: mutex_inv_def holds_lock_def Lock_Ret_iff)
next
  case (fetch_missing i policy)
  with assms(1) holders_update [of i "sr_threads r" "FetchMissing policy"] show ?thesis
    by (simp add: mutex_inv_def holds_lock_def)
next
  case (fetch_found i policy a)
  with holders_pos [of i "sr_threads r"] have "0 < holders (sr_threads r)" by (simp add: holds_lock_def)
  with assms(1) fetch_found holders_update [of i "sr_threads r" "FetchFound policy a"] show ?thesis
    by (simp add: mutex_inv_def holds_lock_def split: if_splits)
next
  case (fetch_range i policy a m it)
  with assms(1) holders_update [of i "sr_threads r" "FetchRange policy a it []"] show ?thesis
    by (simp add: mutex_inv_def holds_lock_def)
next
  case (fetch_take i policy a x ks acc)
  with assms(1) holders_update [of i "sr_threads r" "FetchRange policy a ks (take_exception (sr_store r) policy a x acc)"] show ?thesis
    by (simp add: mutex_inv_def holds_lock_def)
next
  case (fetch_end i policy a acc)
  with assms(1) holders_update [of i "sr_threads r" "FetchCompile policy acc"] show ?thesis
    by (simp add: mutex_inv_def holds_lock_def)
qed

lemma mutex_inv_runs: "run_step\<^sup>*\<^sup>* r r' \<Longrightarrow> mutex_inv r \<Longrightarrow> mutex_inv r'"
  by (induction rule: rtranclp_induct) (auto intro: mutex_inv_step)

lemma mutex_holder:
  assumes "mutex_inv r" and "i < length (sr_threads r)" and "holds_lock (sr_threads r ! i)"
  shows "locked (sr_store r)" and "j < length (sr_threads r) \<Longrightarrow> holds_lock (sr_threads r ! j) \<Longrightarrow> i = j"
  using assms holders_pos [of i "sr_threads r"] holders_one [of "sr_threads r" i j]
  by (auto simp: mutex_inv_def split: if_splits)

text \<open>A thread that met a missing policy keeps the mutex, and nobody gets past the start any more.\<close>

lemma step_after_missing:
  assumes "mutex_inv r" and "j < length (sr_threads r)" and "sr_threads r ! j = FetchMissing policy" and "run_step r r'"
  shows "sr_threads r' ! j = FetchMissing policy \<and> length (sr_threads r') = length (sr_threads r)
    \<and> (\<forall>i < length (sr_threads r). starting (sr_threads r ! i) \<longrightarrow> sr_threads r' ! i = sr_threads r ! i)
    \<and> sr_store r' = sr_store r"
proof -
  note j = mutex_holder [OF assms(1,2)]
  have l: "locked (sr_store r)" using j(1) assms(3) by (simp add: holds_lock_def)
  have only: "i = j" if "i < length (sr_threads r)" "holds_lock (sr_threads r ! i)" for i
    using j(2) [of i] that assms(3) by (simp add: holds_lock_def)
  show ?thesis
    using assms(4)
  proof cases
    case (event_run i ev it s)
    with only [of i] assms(3) show ?thesis by (simp add: holds_lock_def)
  next
    case (fetch_missing i policy')
    with only [of i] assms(3) show ?thesis by (simp add: holds_lock_def)
  next
    case (fetch_found i policy' a)
    with only [of i] assms(3) show ?thesis by (simp add: holds_lock_def)
  qed (use l assms(3) in \<open>auto simp: Lock_Ret_iff nth_list_update starting_def\<close>)
qed

lemma runs_after_missing:
  assumes "run_step\<^sup>*\<^sup>* r r'" and "mutex_inv r" and "j < length (sr_threads r)" and "sr_threads r ! j = FetchMissing policy"
  shows "sr_threads r' ! j = FetchMissing policy \<and> length (sr_threads r') = length (sr_threads r)
    \<and> (\<forall>i < length (sr_threads r). starting (sr_threads r ! i) \<longrightarrow> sr_threads r' ! i = sr_threads r ! i)
    \<and> sr_store r' = sr_store r"
  using assms(1)
proof (induction rule: rtranclp_induct)
  case (step s t)
  from step.IH have j: "j < length (sr_threads s)" "sr_threads s ! j = FetchMissing policy" using assms(3) by simp_all
  show ?case
    using step_after_missing [OF mutex_inv_runs [OF step.hyps(1) assms(2)] j step.hyps(2)] step.IH by auto
qed (use assms in simp)

section \<open>Races\<close>

text \<open>Compilations alone never race: only a handler writes.\<close>

definition is_fetch :: "thread \<Rightarrow> bool" where
  "is_fetch t \<longleftrightarrow> (case t of EventStart _ \<Rightarrow> False | EventHeld _ \<Rightarrow> False | EventDone \<Rightarrow> False | _ \<Rightarrow> True)"

lemma fetches_step:
  assumes "run_step r r'" and "\<forall>t \<in> set (sr_threads r). is_fetch t" and "\<not> sr_raced r"
  shows "(\<forall>t \<in> set (sr_threads r'). is_fetch t) \<and> \<not> sr_raced r'"
  using assms(1)
proof cases
  case (event_lock i ev s)
  then have "is_fetch (EventStart ev)" using assms(2) nth_mem by metis
  then show ?thesis by (simp add: is_fetch_def)
next
  case (event_run i ev it s)
  then have "is_fetch (EventHeld ev)" using assms(2) nth_mem by metis
  then show ?thesis by (simp add: is_fetch_def)
qed (use assms(2,3) in \<open>auto simp: is_fetch_def dest!: set_update_subset_insert [THEN subsetD]\<close>)

lemma fetches_never_race:
  "run_step\<^sup>*\<^sup>* r r' \<Longrightarrow> \<forall>t \<in> set (sr_threads r). is_fetch t \<Longrightarrow> \<not> sr_raced r \<Longrightarrow>
   (\<forall>t \<in> set (sr_threads r'). is_fetch t) \<and> \<not> sr_raced r'"
  by (induction rule: rtranclp_induct) (use fetches_step in blast)+

lemma finite_map_iterates: "finite (dom m) \<Longrightarrow> \<exists>it. iterates it m"
  by (metis finite_distinct_list iterates_def)

lemma delete_polex_changes:
  assumes "store_inv s" and "iterates it (st_policies s)" and "st_policies s k = Some a"
    and "pol_heap s a = Some p" and "ps_exceptions p x = Some e"
  shows "exceptions_at (delete_polex it x s) a \<noteq> exceptions_at s a"
proof -
  have "st_policies (delete_polex it x s) = st_policies s"
    unfolding delete_polex_def
    by (rule fold_keeps [where P = "\<lambda>t. st_policies t = st_policies s"]) (auto simp: forget_exception_def split: option.splits)
  moreover have "linked_to (delete_polex it x s) k x = None" "linked_to s k x = Some e"
    using delete_polex_effect(1) [OF assms(1,2), of x k] assms(3-5) by (simp_all add: linked_to_def)
  ultimately have "exceptions_at (delete_polex it x s) a = exceptions_at s a \<Longrightarrow> False"
    using assms(3-5) by (auto simp: linked_to_def exceptions_at_def split: bind_splits)
  then show ?thesis by blast
qed

section \<open>Properties\<close>

text \<open>
  C11. The mutex of the store works for any number of handlers and compilations: whatever they do, at most
  one thread is between taking and releasing it, and it is taken exactly while one is. But once a
  compilation met a policy that is not in the store, no thread waiting for the mutex ever gets
  it, and the store never changes again.
\<close>

theorem mutex_until_missing_policy:
  assumes "\<forall>t \<in> set threads. starting t" and "\<not> locked s" and "run_step\<^sup>*\<^sup>* (run_start s threads) r"
  shows "(\<forall>i j. i < length (sr_threads r) \<longrightarrow> j < length (sr_threads r) \<longrightarrow> holds_lock (sr_threads r ! i)
        \<longrightarrow> holds_lock (sr_threads r ! j) \<longrightarrow> i = j)
    \<and> (locked (sr_store r) \<longleftrightarrow> (\<exists>t \<in> set (sr_threads r). holds_lock t))
    \<and> (\<forall>policy. FetchMissing policy \<in> set (sr_threads r) \<longrightarrow>
        (\<forall>r'. run_step\<^sup>*\<^sup>* r r' \<longrightarrow> sr_store r' = sr_store r
          \<and> (\<forall>i < length (sr_threads r). starting (sr_threads r ! i) \<longrightarrow> sr_threads r' ! i = sr_threads r ! i)))"
proof -
  have inv: "mutex_inv r" by (rule mutex_inv_runs [OF assms(3) mutex_inv_start [OF assms(1,2)]])
  have "locked (sr_store r) \<longleftrightarrow> (\<exists>t \<in> set (sr_threads r). holds_lock t)"
    using inv by (auto simp: mutex_inv_def holders_def filter_empty_conv split: if_splits)
      (metis One_nat_def filter_False list.size(3) nat.distinct(1))
  moreover have "i = j" if "i < length (sr_threads r)" "j < length (sr_threads r)" "holds_lock (sr_threads r ! i)"
    "holds_lock (sr_threads r ! j)" for i j
    using mutex_holder(2) [OF inv] that by blast
  moreover have "sr_store r' = sr_store r
      \<and> (\<forall>i < length (sr_threads r). starting (sr_threads r ! i) \<longrightarrow> sr_threads r' ! i = sr_threads r ! i)"
    if "FetchMissing policy \<in> set (sr_threads r)" "run_step\<^sup>*\<^sup>* r r'" for policy r'
  proof -
    from that(1) obtain j where "j < length (sr_threads r)" "sr_threads r ! j = FetchMissing policy"
      by (auto simp: in_set_conv_nth)
    from runs_after_missing [OF that(2) inv this] show ?thesis by blast
  qed
  ultimately show ?thesis by blast
qed

text \<open>
  C12. Deleting an exception races with compiling a policy it is linked to: the compile function ranges
  over the exceptions after releasing the mutex, so a run exists in which the handler writes the
  map in the middle of the range, although compilations alone never race.
\<close>

theorem exception_deletion_races_with_compilation:
  assumes "store_inv s" and "\<not> locked s" and "finite (dom (st_policies s))"
    and "st_policies s (vp_name policy) = Some a" and "pol_heap s a = Some p"
    and "ps_exceptions p x = Some e" and "finite (dom (ps_exceptions p))"
  shows "(\<exists>r. run_step\<^sup>*\<^sup>* (run_start s [FetchStart policy, EventStart (PolexEvent x exc True)]) r \<and> sr_raced r)
    \<and> (\<forall>policies r. run_step\<^sup>*\<^sup>* (run_start s (map FetchStart policies)) r \<longrightarrow> \<not> sr_raced r)"
proof
  obtain ks where ks: "iterates ks (ps_exceptions p)" using finite_map_iterates [OF assms(7)] by blast
  obtain it where it: "iterates it (st_policies s)" using finite_map_iterates [OF assms(3)] by blast
  let ?ev = "PolexEvent x exc True"
  let ?l = "s\<lparr>locked := True\<rparr>"
  have lock: "Lock s = Ret ?l" "Lock (Unlock ?l) = Ret ?l" using assms(2) by (simp_all add: Lock_def Unlock_def)
  let ?r = "\<lambda>s t u. \<lparr>sr_store = s, sr_threads = [t, u], sr_raced = False\<rparr>"
  have "run_step (?r s (FetchStart policy) (EventStart ?ev)) (?r ?l (FetchHeld policy) (EventStart ?ev))"
    using fetch_lock [of 0 "?r s (FetchStart policy) (EventStart ?ev)" policy ?l] lock by simp
  moreover have "run_step (?r ?l (FetchHeld policy) (EventStart ?ev)) (?r (Unlock ?l) (FetchFound policy a) (EventStart ?ev))"
    using fetch_found [of 0 "?r ?l (FetchHeld policy) (EventStart ?ev)" policy a] assms(4) by simp
  moreover have "run_step (?r (Unlock ?l) (FetchFound policy a) (EventStart ?ev)) (?r (Unlock ?l) (FetchRange policy a ks []) (EventStart ?ev))"
    using fetch_range [of 0 "?r (Unlock ?l) (FetchFound policy a) (EventStart ?ev)" policy a "ps_exceptions p" ks] assms(5) ks
    by (simp add: exceptions_at_def)
  moreover have "run_step (?r (Unlock ?l) (FetchRange policy a ks []) (EventStart ?ev)) (?r ?l (FetchRange policy a ks []) (EventHeld ?ev))"
    using event_lock [of 1 "?r (Unlock ?l) (FetchRange policy a ks []) (EventStart ?ev)" ?ev ?l] lock by simp
  moreover have "\<exists>r. run_step (?r ?l (FetchRange policy a ks []) (EventHeld ?ev)) r \<and> sr_raced r"
  proof -
    have inv: "store_inv ?l" "iterates it (st_policies ?l)" "st_policies ?l (vp_name policy) = Some a" "pol_heap ?l a = Some p"
      using assms(1,4,5) it by simp_all
    from delete_polex_changes [OF this assms(6)]
    have "races [FetchRange policy a ks [], EventHeld ?ev] ?l (delete_polex it x ?l)"
      by (auto simp: races_def)
    moreover have "run_step (?r ?l (FetchRange policy a ks []) (EventHeld ?ev))
        (?r ?l (FetchRange policy a ks []) (EventHeld ?ev)
          \<lparr>sr_store := Unlock (delete_polex it x ?l), sr_threads := [FetchRange policy a ks [], EventDone],
           sr_raced := races [FetchRange policy a ks [], EventHeld ?ev] ?l (delete_polex it x ?l)\<rparr>)"
      using event_run [of 1 "?r ?l (FetchRange policy a ks []) (EventHeld ?ev)" ?ev it "delete_polex it x ?l"] it
      by simp
    ultimately show ?thesis by (intro exI conjI) (assumption, simp)
  qed
  ultimately show "\<exists>r. run_step\<^sup>*\<^sup>* (run_start s [FetchStart policy, EventStart ?ev]) r \<and> sr_raced r"
    unfolding run_start_def by (meson converse_rtranclp_into_rtranclp rtranclp.rtrancl_refl)
next
  show "\<forall>policies r. run_step\<^sup>*\<^sup>* (run_start s (map FetchStart policies)) r \<longrightarrow> \<not> sr_raced r"
    using fetches_never_race by (fastforce simp: run_start_def is_fetch_def)
qed

text \<open>The sample store, with its policy and the exception linked to it.\<close>

theorem exception_deletion_races_with_compilation_witness:
  "\<exists>r. run_step\<^sup>*\<^sup>* (run_start sample_store [FetchStart sample_vpol, EventStart (PolexEvent ''polex'' (sample_polex ''isAdmin'') True)]) r
     \<and> sr_raced r"
proof -
  have "store_inv sample_store" by (rule store_reachable_inv [OF sample_store_reachable])
  from exception_deletion_races_with_compilation [OF this, of sample_vpol 0 _ "''polex''" 1 "sample_polex ''isAdmin''"]
  show ?thesis by (simp add: sample_store_eval sample_fields)
qed

theorem mutex_until_missing_policy_witness:
  "\<exists>r. run_step\<^sup>*\<^sup>* (run_start newCompositeStore [FetchStart sample_vpol, FetchStart sample_vpol]) r
     \<and> FetchMissing sample_vpol \<in> set (sr_threads r)
     \<and> (\<forall>r'. run_step\<^sup>*\<^sup>* r r' \<longrightarrow> sr_threads r' ! 1 = FetchStart sample_vpol)"
proof -
  let ?r = "\<lambda>s t. \<lparr>sr_store = s, sr_threads = [t, FetchStart sample_vpol], sr_raced = False\<rparr>"
  let ?l = "newCompositeStore\<lparr>locked := True\<rparr>"
  have "run_step (?r newCompositeStore (FetchStart sample_vpol)) (?r ?l (FetchHeld sample_vpol))"
    using fetch_lock [of 0 "?r newCompositeStore (FetchStart sample_vpol)" sample_vpol ?l] by (simp add: Lock_def newCompositeStore_def)
  moreover have "run_step (?r ?l (FetchHeld sample_vpol)) (?r ?l (FetchMissing sample_vpol))"
    using fetch_missing [of 0 "?r ?l (FetchHeld sample_vpol)" sample_vpol] by (simp add: newCompositeStore_def)
  ultimately have run: "run_step\<^sup>*\<^sup>* (run_start newCompositeStore [FetchStart sample_vpol, FetchStart sample_vpol])
      (?r ?l (FetchMissing sample_vpol))"
    unfolding run_start_def by (meson converse_rtranclp_into_rtranclp rtranclp.rtrancl_refl)
  have "\<forall>r'. run_step\<^sup>*\<^sup>* (?r ?l (FetchMissing sample_vpol)) r' \<longrightarrow> sr_threads r' ! 1 = FetchStart sample_vpol"
    using mutex_until_missing_policy [OF _ _ run] by (auto simp: starting_def newCompositeStore_def)
  with run show ?thesis by (intro exI [of _ "?r ?l (FetchMissing sample_vpol)"]) simp
qed

end
