(* ===== verification/StoreCache.thy ===== *)
theory StoreCache
  imports CompositeStore
begin

text \<open>
  Caching of compiled policies is transparent. The cache around the store
  (\<open>pkg/engine/sources/kube.go\<close>) keeps a compiled policy under the key of \<open>keyFunc\<close>. The
  theory follows the store through any run of its operations, counts how often the event counter
  of one policy is moved, and shows that as long as a policy state lives and the counter has not
  gone once around, equal keys mean that compiling again gives the same result. The cache itself is
  not in the repository: what is shown is what it needs of the keys.
\<close>

section \<open>Interface: contents with a stamp\<close>

text \<open>
  A state with a content and a 64-bit stamp. Every step moves the stamp by a known amount, and a
  step that does not move it keeps the content. Runs add up the amounts.
\<close>

inductive runs :: "('s \<Rightarrow> nat \<Rightarrow> 's \<Rightarrow> bool) \<Rightarrow> 's \<Rightarrow> nat \<Rightarrow> 's \<Rightarrow> bool" for move where
  runs_none: "runs move s 0 s"
| runs_more: "runs move s n t \<Longrightarrow> move t m u \<Longrightarrow> runs move s (n + m) u"

lemma runs_mono: "runs move s n t \<Longrightarrow> (\<And>s n t. move s n t \<Longrightarrow> move' s n t) \<Longrightarrow> runs move' s n t"
  by (induction rule: runs.induct) (auto intro: runs.intros)

lemma runs_trans: "runs move t m u \<Longrightarrow> runs move s n t \<Longrightarrow> runs move s (n + m) u"
  by (induction rule: runs.induct) (auto simp: add.assoc [symmetric] intro: runs_more)

lemma runs_invariant:
  "runs move s n t \<Longrightarrow> P s \<Longrightarrow> (\<And>s n t. P s \<Longrightarrow> move s n t \<Longrightarrow> P t) \<Longrightarrow> P t"
  by (induction rule: runs.induct) auto

locale stamped =
  fixes move :: "'s \<Rightarrow> nat \<Rightarrow> 's \<Rightarrow> bool"
    and stamp :: "'s \<Rightarrow> int64"
    and content :: "'s \<Rightarrow> 'c"
  assumes move_stamp: "move s n t \<Longrightarrow> stamp t = stamp s + of_nat n"
    and move_content: "move s 0 t \<Longrightarrow> content t = content s"
begin

lemma runs_stamp: "runs move s n t \<Longrightarrow> stamp t = stamp s + of_nat n"
  by (induction rule: runs.induct) (simp_all add: move_stamp)

lemma runs_content: "runs move s n t \<Longrightarrow> n = 0 \<Longrightarrow> content t = content s"
  by (induction rule: runs.induct) (auto dest: move_content)

text \<open>The stamp identifies the content until it has gone once around.\<close>

lemma equal_stamps:
  assumes "runs move s n t" and "stamp t = stamp s" and "n < 2 ^ 64"
  shows "n = 0" and "content t = content s"
proof -
  have "(of_nat n :: int64) = 0" using runs_stamp [OF assms(1)] assms(2) by simp
  with of_nat_int64_nonzero [of n] assms(3) show "n = 0" by auto
  with runs_content [OF assms(1)] show "content t = content s" by simp
qed

text \<open>Also for a content read between the two readings of the stamp.\<close>

lemma content_in_between:
  assumes "runs move s n t" and "runs move t m u" and "stamp u = stamp s" and "n + m < 2 ^ 64"
  shows "content t = content u"
proof -
  have "n + m = 0" using equal_stamps(1) [OF runs_trans [OF assms(2,1)] assms(3,4)] .
  then show ?thesis using runs_content [OF assms(2)] by simp
qed

end

section \<open>What one operation does to one policy\<close>

text \<open>
  The steps of the store with the number of times they move the event counter of the policy
  named \<open>k\<close>.
\<close>

inductive store_move :: "('e, 'ast, 'in, 'v) cel_compiler \<Rightarrow> string \<Rightarrow> compositeStore \<Rightarrow> nat \<Rightarrow> compositeStore \<Rightarrow> bool"
  for C k where
  move_policy: "handlePolicy it key policy isDelete s = Ret (t, ()) \<Longrightarrow> store_move C k s 0 t"
| move_polex: "handlePolex it excKey exc False s = Ret (t, ()) \<Longrightarrow>
    store_move C k s (count_list (pe_policyRefs exc) k) t"
| move_no_polex: "iterates it (st_policies s) \<Longrightarrow> handlePolex it excKey exc True s = Ret (t, ()) \<Longrightarrow>
    store_move C k s 1 t"
| move_load: "store_Load it s = Ret (t, ps) \<Longrightarrow> store_move C k s 0 t"
| move_key: "keyFunc policy s = Ret (t, r) \<Longrightarrow> store_move C k s 0 t"
| move_compile: "kube_compile C it policy s = Ret (t, res) \<Longrightarrow> store_move C k s 0 t"

lemma store_step_move: "store_step C s t \<Longrightarrow> \<exists>n. store_move C k s n t"
proof (induction rule: store_step.induct)
  case (polex_event it s excKey exc isDelete s')
  then show ?case by (cases isDelete) (auto intro: store_move.intros)
qed (auto intro: store_move.intros)

text \<open>The contents of an exception never change once its state is allocated.\<close>

definition exc_kept :: "compositeStore \<Rightarrow> compositeStore \<Rightarrow> bool" where
  "exc_kept s t \<longleftrightarrow> (\<forall>e. exc_heap s e \<noteq> None \<longrightarrow>
     map_option es_exception (exc_heap t e) = map_option es_exception (exc_heap s e))"

lemma exc_kept_same: "exc_heap t = exc_heap s \<Longrightarrow> exc_kept s t"
  by (simp add: exc_kept_def)

lemma exc_kept_upd_exc:
  assumes "exc_kept s t" and "\<And>x. es_exception (f x) = es_exception x"
  shows "exc_kept s (upd_exc e f t)"
  using assms by (auto simp: exc_kept_def option.map_comp comp_def)

lemma exc_kept_upd_pol [simp]: "exc_kept s (upd_pol a f t) = exc_kept s t"
  by (simp add: exc_kept_def)

lemma exc_kept_sel [simp]:
  "exc_kept s (t\<lparr>st_exceptions := m\<rparr>) = exc_kept s t" "exc_kept s (t\<lparr>locked := b\<rparr>) = exc_kept s t"
  "exc_kept (s\<lparr>locked := b\<rparr>) t = exc_kept s t" "exc_kept s (Unlock t) = exc_kept s t"
  by (simp_all add: exc_kept_def)

lemma exc_kept_trans:
  assumes "exc_kept s t" and "exc_kept t u"
  shows "exc_kept s u"
  unfolding exc_kept_def
proof (intro allI impI)
  fix e assume e: "exc_heap s e \<noteq> None"
  with assms(1) have t: "map_option es_exception (exc_heap t e) = map_option es_exception (exc_heap s e)"
    by (simp add: exc_kept_def)
  with e have "exc_heap t e \<noteq> None" by auto
  with assms(2) t show "map_option es_exception (exc_heap u e) = map_option es_exception (exc_heap s e)"
    by (simp add: exc_kept_def)
qed

text \<open>
  A change that leaves the policy states alone, except the one at an address, and keeps the
  contents of the exceptions.
\<close>

definition touches :: "addr \<Rightarrow> compositeStore \<Rightarrow> compositeStore \<Rightarrow> bool" where
  "touches a s t \<longleftrightarrow> st_policies t = st_policies s \<and> next_addr t = next_addr s \<and> exc_kept s t
     \<and> (\<forall>b. b \<noteq> a \<longrightarrow> pol_heap t b = pol_heap s b)"

lemma touches_refl: "touches a s s"
  by (simp add: touches_def exc_kept_def)

lemma link_exception_touches:
  assumes "touches a s t"
  shows "touches a s (link_exception k a x t)"
proof -
  have "touches a s (fold (\<lambda>ref t. if ref = k
      then upd_pol a (\<lambda>p. p\<lparr>ps_exceptions := (ps_exceptions p)(x \<mapsto> e)\<rparr>)
            (upd_exc e (\<lambda>y. y\<lparr>references := (references y)(k := st_policies t k)\<rparr>) t)
      else t) refs t)" for e refs
    by (rule fold_keeps) (use assms in \<open>simp_all add: touches_def exc_kept_upd_exc\<close>)
  then show ?thesis using assms by (simp add: link_exception_def split: option.split)
qed

lemma drop_reference_touches:
  assumes "touches a s t"
  shows "touches a s (drop_reference k x t)"
  using assms by (simp add: drop_reference_def touches_def exc_kept_upd_exc split: option.split)

lemma touches_elsewhere:
  assumes "touches a s t" and "st_policies s k \<noteq> Some a"
  shows "linked_to t k = linked_to s k" and "counter_of t k = counter_of s k"
  using assms by (cases "st_policies s k"; simp add: touches_def linked_to_def counter_of_def)+

lemma link_reference_exc_kept: "exc_kept s t \<Longrightarrow> exc_kept s (link_reference x e ref t)"
  by (simp add: link_reference_def Let_def exc_kept_upd_exc split: option.split)

lemma link_reference_next [simp]: "next_addr (link_reference x e ref t) = next_addr t"
  by (simp add: link_reference_def Let_def split: option.split)

lemma forget_exception_frame [simp]:
  "st_policies (forget_exception x k t) = st_policies t" "next_addr (forget_exception x k t) = next_addr t"
  "exc_heap (forget_exception x k t) = exc_heap t"
  by (simp_all add: forget_exception_def split: option.split)

lemma store_polex_frame:
  assumes "store_inv s"
  shows "st_policies (store_polex x exc s) = st_policies s" and "next_addr s \<le> next_addr (store_polex x exc s)"
    and "exc_kept s (store_polex x exc s)"
proof -
  let ?s = "s\<lparr>exc_heap := (exc_heap s)(next_addr s \<mapsto> \<lparr>es_exception = exc, references = Map.empty\<rparr>),
      next_addr := Suc (next_addr s)\<rparr>"
  let ?P = "\<lambda>t. st_policies t = st_policies s \<and> next_addr t = Suc (next_addr s) \<and> exc_kept s t"
  have "exc_kept s ?s" using store_inv_fresh(2) [OF assms] by (simp add: exc_kept_def)
  then have "?P (fold (link_reference x (next_addr s)) (pe_policyRefs exc) ?s)"
    by (intro fold_keeps [where P = ?P]) (simp_all add: link_reference_exc_kept)
  then show "st_policies (store_polex x exc s) = st_policies s" "next_addr s \<le> next_addr (store_polex x exc s)"
    "exc_kept s (store_polex x exc s)"
    by (simp_all add: store_polex_def Let_def)
qed

lemma delete_polex_frame:
  "st_policies (delete_polex it x s) = st_policies s" "next_addr (delete_polex it x s) = next_addr s"
  "exc_heap (delete_polex it x s) = exc_heap s"
proof -
  let ?P = "\<lambda>t. st_policies t = st_policies s \<and> next_addr t = next_addr s \<and> exc_heap t = exc_heap s"
  have "?P (delete_polex it x s)"
    unfolding delete_polex_def by (rule fold_keeps [where P = ?P]) simp_all
  then show "st_policies (delete_polex it x s) = st_policies s" "next_addr (delete_polex it x s) = next_addr s"
    "exc_heap (delete_polex it x s) = exc_heap s" by simp_all
qed

section \<open>What one operation does to the store\<close>

text \<open>
  Across any operation the contents of exceptions stay, and addresses are not used again: a key
  that holds an address known before held it before.
\<close>

definition evolves :: "compositeStore \<Rightarrow> compositeStore \<Rightarrow> bool" where
  "evolves s t \<longleftrightarrow> store_inv t \<and> exc_kept s t \<and> next_addr s \<le> next_addr t
     \<and> (\<forall>k a. st_policies t k = Some a \<longrightarrow> a < next_addr s \<longrightarrow> st_policies s k = Some a)"

lemma evolves_same_policies:
  "store_inv t \<Longrightarrow> exc_kept s t \<Longrightarrow> next_addr s \<le> next_addr t \<Longrightarrow> st_policies t = st_policies s \<Longrightarrow> evolves s t"
  by (simp add: evolves_def)

lemma store_inv_address: "store_inv s \<Longrightarrow> st_policies s k = Some a \<Longrightarrow> a < next_addr s"
  using store_inv_policy [of s k a] store_inv_fresh(1) [of s a] by (cases "a < next_addr s") auto

lemma delete_policy_frame:
  assumes "store_inv s"
  shows "evolves s (delete_policy it l s)"
    and "k \<noteq> l \<Longrightarrow> linked_to (delete_policy it l s) k = linked_to s k"
    and "k \<noteq> l \<Longrightarrow> counter_of (delete_policy it l s) k = counter_of s k"
    and "st_policies (delete_policy it l s) l = None"
proof -
  let ?s = "s\<lparr>st_policies := (st_policies s)(l := None)\<rparr>"
  have t: "touches (next_addr s) ?s (delete_policy it l s)"
    unfolding delete_policy_def by (rule fold_keeps, erule drop_reference_touches, rule touches_refl)
  then have "exc_kept s (delete_policy it l s)" by (simp add: touches_def exc_kept_def)
  with t delete_policy_inv [OF assms] show "evolves s (delete_policy it l s)"
    by (simp add: touches_def evolves_def)
  show "st_policies (delete_policy it l s) l = None" using t by (simp add: touches_def)
  assume "k \<noteq> l"
  then have s: "linked_to ?s k = linked_to s k" "counter_of ?s k = counter_of s k"
    by (simp_all add: linked_to_def counter_of_def)
  have "st_policies ?s k \<noteq> Some (next_addr s)" using store_inv_fresh_key [OF assms] by simp
  from touches_elsewhere [OF t this] s
  show "linked_to (delete_policy it l s) k = linked_to s k" "counter_of (delete_policy it l s) k = counter_of s k"
    by simp_all
qed

lemma create_policy_frame:
  assumes "store_inv s" and "st_policies s l = None"
  shows "evolves s (create_policy it l policy s)"
    and "k \<noteq> l \<Longrightarrow> linked_to (create_policy it l policy s) k = linked_to s k"
    and "k \<noteq> l \<Longrightarrow> counter_of (create_policy it l policy s) k = counter_of s k"
    and "st_policies (create_policy it l policy s) = (st_policies s)(l \<mapsto> next_addr s)"
proof -
  let ?s = "s\<lparr>pol_heap := (pol_heap s)(next_addr s \<mapsto> \<lparr>ps_policy = policy, ps_exceptions = Map.empty,
      exceptionEventCounter = 0\<rparr>), next_addr := Suc (next_addr s), st_policies := (st_policies s)(l \<mapsto> next_addr s)\<rparr>"
  note fresh = store_inv_fresh_key [OF assms(1)]
  have t: "touches (next_addr s) ?s (create_policy it l policy s)"
    unfolding create_policy_def Let_def by (rule fold_keeps, erule link_exception_touches, rule touches_refl)
  then have "exc_kept s (create_policy it l policy s)" by (simp add: touches_def exc_kept_def)
  with t create_policy_inv [OF assms(1)] show "evolves s (create_policy it l policy s)"
    by (simp add: touches_def evolves_def)
  show "st_policies (create_policy it l policy s) = (st_policies s)(l \<mapsto> next_addr s)" using t by (simp add: touches_def)
  assume k: "k \<noteq> l"
  then have s: "linked_to ?s k = linked_to s k" "counter_of ?s k = counter_of s k"
    using fresh [of k] by (cases "st_policies s k"; auto simp: linked_to_def counter_of_def)+
  have "st_policies ?s k \<noteq> Some (next_addr s)" using fresh k by simp
  from touches_elsewhere [OF t this] s
  show "linked_to (create_policy it l policy s) k = linked_to s k"
    "counter_of (create_policy it l policy s) k = counter_of s k"
    by simp_all
qed

lemma replace_policy_frame:
  assumes "store_inv s"
  shows "evolves s (upd_pol a (\<lambda>p. p\<lparr>ps_policy := policy\<rparr>) s)"
    and "linked_to (upd_pol a (\<lambda>p. p\<lparr>ps_policy := policy\<rparr>) s) k = linked_to s k"
    and "counter_of (upd_pol a (\<lambda>p. p\<lparr>ps_policy := policy\<rparr>) s) k = counter_of s k"
  using replace_policy_inv [OF assms, of a policy]
  by (simp_all add: evolves_def exc_kept_def linked_to_def counter_of_def option.map_comp comp_def fun_eq_iff
      cong: bind_option_cong split: bind_split)

lemma evolves_locked [simp]: "evolves (s\<lparr>locked := b\<rparr>) t = evolves s t" "evolves s (Unlock t) = evolves s t"
  by (simp_all add: evolves_def)

lemma evolves_relock [simp]: "evolves s (t\<lparr>locked := b\<rparr>) = evolves s t"
  by (simp add: evolves_def)

lemma evolves_refl: "store_inv s \<Longrightarrow> evolves s s"
  by (simp add: evolves_def exc_kept_def)

text \<open>A policy that keeps its state keeps its links and its counter when another one changes.\<close>

lemma policy_event_frame:
  assumes "store_inv s" and "handlePolicy it key policy d s = Ret (t, ())"
  shows "evolves s t"
    and "st_policies s k = Some a \<Longrightarrow> st_policies t k = Some a \<Longrightarrow> linked_to t k = linked_to s k"
    and "st_policies s k = Some a \<Longrightarrow> st_policies t k = Some a \<Longrightarrow> counter_of t k = counter_of s k"
proof -
  let ?l = "TrimPrefix key ''/''"
  let ?s = "s\<lparr>locked := True\<rparr>"
  have inv: "store_inv ?s" using assms(1) by simp
  consider (delete) "d" "t = Unlock (delete_policy it ?l ?s)"
    | (replace) a' where "t = Unlock (upd_pol a' (\<lambda>p. p\<lparr>ps_policy := policy\<rparr>) ?s)"
    | (create) "st_policies s ?l = None" "t = Unlock (create_policy it ?l policy ?s)"
    using assms(2) by (auto simp: handlePolicy_def Let_def Lock_def split: if_splits option.splits)
  then have "evolves s t \<and> (st_policies s k = Some a \<longrightarrow> st_policies t k = Some a \<longrightarrow>
      linked_to t k = linked_to s k \<and> counter_of t k = counter_of s k)"
  proof cases
    case delete
    with delete_policy_frame [OF inv, where it = it and l = ?l] show ?thesis by (cases "k = ?l") auto
  next
    case (replace a')
    with replace_policy_frame [OF inv, where a = a' and policy = policy] show ?thesis by simp
  next
    case create
    with create_policy_frame [OF inv, where l = ?l and it = it and policy = policy] show ?thesis by (cases "k = ?l") auto
  qed
  then show "evolves s t"
    "st_policies s k = Some a \<Longrightarrow> st_policies t k = Some a \<Longrightarrow> linked_to t k = linked_to s k"
    "st_policies s k = Some a \<Longrightarrow> st_policies t k = Some a \<Longrightarrow> counter_of t k = counter_of s k"
    by blast+
qed

lemma polex_event_frame:
  assumes "store_inv s" and "handlePolex it x exc d s = Ret (t, ())"
  shows "evolves s t" and "st_policies t = st_policies s"
proof -
  let ?s = "s\<lparr>locked := True\<rparr>"
  have inv: "store_inv ?s" using assms(1) by simp
  have "evolves s t \<and> st_policies t = st_policies s"
  proof (cases d)
    case True
    with handlePolex_delete [of it x exc s t "()"] assms(2) have "t = Unlock (delete_polex it x ?s)" by simp
    with delete_polex_frame [of it x ?s] delete_polex_inv [OF inv, of it x] show ?thesis
      by (simp add: evolves_def exc_kept_def)
  next
    case False
    with handlePolex_create [of it x exc s t "()"] assms(2) have "t = Unlock (store_polex x exc ?s)" by simp
    with store_polex_frame [OF inv, of x exc] store_polex_inv [OF inv, of x exc] show ?thesis
      by (simp add: evolves_def)
  qed
  then show "evolves s t" "st_policies t = st_policies s" by auto
qed

text \<open>Reading operations change at most the mutex.\<close>

lemma load_frame: "store_Load it s = Ret (t, ps) \<Longrightarrow> t = s\<lparr>locked := False\<rparr>"
  by (auto simp: store_Load_def Lock_def Unlock_def split: if_splits)

lemma key_frame: "keyFunc policy s = Ret (t, r) \<Longrightarrow> t = s\<lparr>locked := False\<rparr>"
  by (auto simp: keyFunc_def Lock_def Unlock_def split: if_splits option.splits)

lemma compile_frame: "kube_compile C it policy s = Ret (t, r) \<Longrightarrow> \<exists>b. t = s\<lparr>locked := b\<rparr>"
  by (auto simp: kube_compile_def Lock_def Unlock_def bind_outcome_Ret_iff Let_def split: if_splits option.splits)

lemma read_frame:
  assumes "store_inv s" and "t = s\<lparr>locked := b\<rparr>"
  shows "evolves s t" and "linked_to t k = linked_to s k" and "counter_of t k = counter_of s k"
  using assms by (simp_all add: evolves_refl)

lemma store_move_evolves: "store_move C k s n t \<Longrightarrow> store_inv s \<Longrightarrow> evolves s t"
  by (induction rule: store_move.induct)
    (auto simp: evolves_refl dest: policy_event_frame(1) polex_event_frame(1) load_frame key_frame compile_frame)

section \<open>The event counter stamps the exceptions of a policy\<close>

text \<open>The exceptions linked to a policy, by key, as the compiler will see them.\<close>

definition content_of :: "compositeStore \<Rightarrow> string \<Rightarrow> string \<rightharpoonup> PolicyException" where
  "content_of s k x = map_option (\<lambda>e. es_exception (the (exc_heap s e))) (linked_to s k x)"

lemma content_of_locked [simp]: "content_of (s\<lparr>locked := b\<rparr>) k = content_of s k"
  by (simp add: content_of_def fun_eq_iff)

lemma content_of_kept:
  assumes "store_inv s" and "exc_kept s t" and "linked_to t k = linked_to s k"
  shows "content_of t k = content_of s k"
proof
  fix x
  show "content_of t k x = content_of s k x"
  proof (cases "linked_to s k x")
    case None
    with assms(3) show ?thesis by (simp add: content_of_def)
  next
    case (Some e)
    then obtain a p where "st_policies s k = Some a" "pol_heap s a = Some p" "ps_exceptions p x = Some e"
      by (auto simp: linked_to_def split: bind_splits)
    then obtain ex where "exc_heap s e = Some ex" using store_inv_link [OF assms(1)] by blast
    moreover from this have "map_option es_exception (exc_heap t e) = Some (es_exception ex)"
      using assms(2) by (simp add: exc_kept_def)
    ultimately show ?thesis using Some assms(3) by (auto simp: content_of_def)
  qed
qed

text \<open>Steps during which the policy lives at one address.\<close>

definition kept_move :: "('e, 'ast, 'in, 'v) cel_compiler \<Rightarrow> string \<Rightarrow> addr \<Rightarrow> compositeStore \<Rightarrow> nat \<Rightarrow> compositeStore \<Rightarrow> bool" where
  "kept_move C k a s n t \<longleftrightarrow>
     store_inv s \<and> st_policies s k = Some a \<and> st_policies t k = Some a \<and> store_move C k s n t"

lemma counter_of_stored: "store_inv s \<Longrightarrow> st_policies s k = Some a \<Longrightarrow> \<exists>c. counter_of s k = Some c"
  using store_inv_policy [of s k a] by (auto simp: counter_of_def)

lemma store_move_counter:
  assumes "store_move C k s n t" and "store_inv s" and "st_policies s k = Some a" and "st_policies t k = Some a"
  shows "counter_of t k = map_option (\<lambda>c. c + of_nat n) (counter_of s k)"
  using assms
proof (induction rule: store_move.induct)
  case (move_policy it key policy isDelete s t)
  then show ?case using policy_event_frame(3) [of s it key policy isDelete t k a] by (simp add: option.map_ident)
next
  case (move_polex it excKey exc s t)
  then show ?case
    using handlePolex_create [of it excKey exc s t] store_polex_counter [of "s\<lparr>locked := True\<rparr>" excKey exc k] by simp
next
  case (move_no_polex it s excKey exc t)
  then show ?case
    using handlePolex_delete [of it excKey exc s t] delete_polex_effect(2) [of "s\<lparr>locked := True\<rparr>" it excKey k] by simp
qed (auto simp: option.map_ident dest!: load_frame key_frame compile_frame)

lemma store_move_linked:
  assumes "store_move C k s n t" and "n = 0" and "store_inv s" and "st_policies s k = Some a" and "st_policies t k = Some a"
  shows "linked_to t k = linked_to s k"
  using assms
proof (induction rule: store_move.induct)
  case (move_policy it key policy isDelete s t)
  then show ?case using policy_event_frame(2) [of s it key policy isDelete t k a] by simp
next
  case (move_polex it excKey exc s t)
  then have "k \<notin> set (pe_policyRefs exc)" by (simp add: count_list_0_iff)
  with move_polex show ?case
    using handlePolex_create [of it excKey exc s t] store_polex_linked [of "s\<lparr>locked := True\<rparr>" excKey exc k] by simp
qed (auto dest!: load_frame key_frame compile_frame)

interpretation kept: stamped "kept_move C k a" "\<lambda>s. the (counter_of s k)" "\<lambda>s. content_of s k" for C k a
proof
  fix s n t assume m: "kept_move C k a s n t"
  then obtain c where "counter_of s k = Some c" using counter_of_stored [of s k a] by (auto simp: kept_move_def)
  with m store_move_counter [of C k s n t a]
  show "the (counter_of t k) = the (counter_of s k) + of_nat n" by (simp add: kept_move_def)
next
  fix s t assume m: "kept_move C k a s 0 t"
  then have "evolves s t" using store_move_evolves by (auto simp: kept_move_def)
  with m store_move_linked [of C k s 0 t a] show "content_of t k = content_of s k"
    by (intro content_of_kept) (simp_all add: kept_move_def evolves_def)
qed

text \<open>A policy found at the same address at both ends of a run was there all the time.\<close>

lemma runs_evolves:
  assumes "runs (store_move C k) s n t" and "store_inv s"
  shows "store_inv t" and "next_addr s \<le> next_addr t"
  using assms
proof (induction rule: runs.induct)
  case (runs_more s n t m u)
  {
    case 1
    with runs_more store_move_evolves [of C k t m u] show ?case by (simp add: evolves_def)
  next
    case 2
    with runs_more store_move_evolves [of C k t m u] show ?case by (auto simp: evolves_def)
  }
qed auto

lemma runs_kept:
  assumes "runs (store_move C k) s n t" and "store_inv s" and "st_policies s k = Some a" and "st_policies t k = Some a"
  shows "runs (kept_move C k a) s n t"
  using assms
proof (induction rule: runs.induct)
  case (runs_more s n t m u)
  have inv: "store_inv t" and "next_addr s \<le> next_addr t" using runs_evolves [OF runs_more.hyps(1)] runs_more.prems(1) by auto
  moreover have "a < next_addr s" using store_inv_address runs_more.prems by blast
  moreover have "evolves t u" using store_move_evolves runs_more.hyps(2) inv by blast
  ultimately have t: "st_policies t k = Some a" using runs_more.prems(3) by (simp add: evolves_def)
  then have "kept_move C k a t m u" using inv runs_more by (simp add: kept_move_def)
  with runs_more t show ?case by (blast intro: runs.runs_more)
qed (auto intro: runs.intros)

lemma runs_present:
  assumes "runs (store_move C k) s n t" and "store_inv s" and "a < next_addr s" and "st_policies t k = Some a"
  shows "st_policies s k = Some a"
  using assms
proof (induction rule: runs.induct)
  case (runs_more s n t m u)
  have inv: "store_inv t" and "next_addr s \<le> next_addr t" using runs_evolves [OF runs_more.hyps(1)] runs_more.prems(1) by auto
  moreover have "evolves t u" using store_move_evolves runs_more.hyps(2) inv by blast
  ultimately have "st_policies t k = Some a" using runs_more.prems by (simp add: evolves_def)
  with runs_more show ?case by blast
qed auto

text \<open>Compilation sees the store only through the exceptions linked to the policy.\<close>

lemma matching_exceptions_content:
  assumes "st_policies s k = Some a" and "pol_heap s a = Some p"
  shows "matching_exceptions it s p policy = [ex \<leftarrow> List.map_filter (content_of s k) it.
    pe_evaluationMode ex = vp_evaluationMode policy]"
proof (induction it)
  case Nil
  show ?case by (simp add: matching_exceptions_def map_filter_simps)
next
  case (Cons x it)
  have "content_of s k x = map_option (\<lambda>e. es_exception (the (exc_heap s e))) (ps_exceptions p x)"
    using assms by (simp add: content_of_def linked_to_def)
  with Cons show ?case
    by (cases "ps_exceptions p x") (simp_all add: matching_exceptions_def map_filter_simps)
qed

lemma kube_compile_content:
  assumes "store_inv s" and "kube_compile C it policy s = Ret (t, Inr res)"
  shows "\<not> locked s \<and> t = s \<and> (\<exists>a. st_policies s (vp_name policy) = Some a) \<and>
    Compile C policy [ex \<leftarrow> List.map_filter (content_of s (vp_name policy)) it.
      pe_evaluationMode ex = vp_evaluationMode policy] = Ret res"
proof -
  from assms(2) obtain a p where a: "st_policies s (vp_name policy) = Some a" "pol_heap s a = Some p"
    and t: "\<not> locked s" "t = Unlock (s\<lparr>locked := True\<rparr>)"
    and c: "Compile C policy (matching_exceptions it t p policy) = Ret res"
    by (auto simp: kube_compile_def Lock_def Let_def bind_outcome_Ret_iff split: if_splits option.splits)
  have s: "t = s" using t by (simp add: Unlock_def)
  with a s t c matching_exceptions_content [OF a] show ?thesis by simp
qed

lemma kube_compile_content_iff:
  assumes "store_inv s" and "\<not> locked s" and "st_policies s (vp_name policy) = Some a"
    and "Compile C policy [ex \<leftarrow> List.map_filter (content_of s (vp_name policy)) it.
      pe_evaluationMode ex = vp_evaluationMode policy] = Ret res"
  shows "kube_compile C it policy s = Ret (s, Inr res)"
proof -
  obtain p where p: "pol_heap s a = Some p" using store_inv_policy assms by blast
  have s: "Unlock (s\<lparr>locked := True\<rparr>) = s" using assms(2) by (simp add: Unlock_def)
  show ?thesis
    using assms(2-4) p by (simp add: kube_compile_def Lock_def Let_def s matching_exceptions_content [OF assms(3) p])
qed

section \<open>Property\<close>

lemma equal_keys_equal_counters:
  assumes "keyFunc policy s = Ret (s', Inr key)" and "keyFunc policy t = Ret (t', Inr key)"
  shows "counter_of s (vp_name policy) = counter_of t (vp_name policy)"
  using keyFunc_key [OF assms(1)] keyFunc_key [OF assms(2)] by (auto simp: itoa_inj) (metis word_eq_iff_signed)

text \<open>
  C10. The cache of compiled policies is transparent: a policy compiled at any time after its key
  was taken is what compiling it again would give whenever its key is the same later, whatever
  events, loads and compilations ran in between, as long as the policy was not deleted and the
  events moved its counter fewer than two to the 64 times.
\<close>

theorem caching_is_transparent:
  assumes "store_reachable C s" and "keyFunc policy s = Ret (s', Inr key)"
    and "runs (store_move C (vp_name policy)) s' n t"
    and "kube_compile C it policy t = Ret (t', Inr res)"
    and "runs (store_move C (vp_name policy)) t' m u"
    and "keyFunc policy u = Ret (u', Inr key)"
    and "st_policies u (vp_name policy) = st_policies s (vp_name policy)" and "n + m < 2 ^ 64"
  shows "\<exists>u''. kube_compile C it policy u' = Ret (u'', Inr res)"
proof -
  let ?k = "vp_name policy"
  note inv = store_reachable_inv [OF assms(1)]
  have s': "s' = s\<lparr>locked := False\<rparr>" and u': "u' = u\<lparr>locked := False\<rparr>" "\<not> locked u"
    using key_frame [OF assms(2)] key_frame [OF assms(6)] assms(6) by (simp_all add: keyFunc_def Lock_def split: if_splits)
  then have inv': "store_inv s'" and inv_t: "store_inv t" using inv runs_evolves [OF assms(3)] by simp_all
  from kube_compile_content [OF inv_t assms(4)] have t: "t' = t" and c: "Compile C policy
      [ex \<leftarrow> List.map_filter (content_of t ?k) it. pe_evaluationMode ex = vp_evaluationMode policy] = Ret res" by auto
  have inv_u: "store_inv u" using runs_evolves(1) [OF assms(5)] t inv_t by simp
  obtain a where a: "st_policies s' ?k = Some a" "st_policies u ?k = Some a"
    using assms(2,7) s' by (auto simp: keyFunc_def Lock_def split: if_splits option.splits)
  then have "a < next_addr t"
    using store_inv_address [OF inv'] runs_evolves(2) [OF assms(3) inv'] by fastforce
  then have at: "st_policies t ?k = Some a" using runs_present [OF assms(5)] t inv_t a by simp
  have "content_of t ?k = content_of u ?k"
  proof (rule kept.content_in_between)
    show "runs (kept_move C ?k a) s' n t" using runs_kept [OF assms(3) inv' a(1) at] .
    show "runs (kept_move C ?k a) t m u" using runs_kept [OF _ inv_t at a(2)] assms(5) t by simp
    show "the (counter_of u ?k) = the (counter_of s' ?k)"
      using equal_keys_equal_counters [OF assms(2,6)] s' by simp
  qed (rule assms(8))
  with kube_compile_content_iff [of u' policy a C it res] inv_u u' a c show ?thesis by simp
qed

theorem caching_is_transparent_witness:
  "\<exists>u u' key res. handlePolicy [''polex''] ''/other'' sample_vpol False sample_store = Ret (u, ())
     \<and> keyFunc sample_vpol sample_store = Ret (sample_store, Inr key) \<and> keyFunc sample_vpol u = Ret (u', Inr key)
     \<and> kube_compile sample_compiler [''polex''] sample_vpol sample_store = Ret (sample_store, Inr res)
     \<and> (\<exists>u''. kube_compile sample_compiler [''polex''] sample_vpol u' = Ret (u'', Inr res))"
proof -
  let ?C = sample_compiler
  have self: "sample_store\<lparr>locked := False\<rparr> = sample_store" by (simp add: sample_store_eval)
  obtain u where u: "handlePolicy [''polex''] ''/other'' sample_vpol False sample_store = Ret (u, ())"
    by (simp add: handlePolicy_def Lock_def sample_store_eval Let_def TrimPrefix_def)
  obtain key where k: "keyFunc sample_vpol sample_store = Ret (sample_store, Inr key)"
    using self by (simp add: keyFunc_def Lock_def Unlock_def sample_store_eval sample_fields)
  obtain t res where c: "kube_compile ?C [''polex''] sample_vpol sample_store = Ret (t, Inr res)"
    using sample_Compile
    by (simp add: kube_compile_def Lock_def sample_store_eval Let_def matching_exceptions_def map_filter_def
        Unlock_def sample_fields)
  note inv = store_reachable_inv [OF sample_store_reachable [of ?C]]
  with kube_compile_content [OF inv c] c have c: "kube_compile ?C [''polex''] sample_vpol sample_store = Ret (sample_store, Inr res)"
    by simp
  have run: "runs (store_move ?C ''demo'') sample_store 0 u"
    using runs_more [of "store_move ?C ''demo''", OF runs_none move_policy [OF u]] by simp
  have "st_policies u = (st_policies sample_store)(''other'' \<mapsto> next_addr sample_store)"
    using handlePolicy_create [OF u] inv
    by (simp add: TrimPrefix_def sample_store_eval(1) create_policy_frame(4))
  then have at: "st_policies u ''demo'' = Some 0" by (simp add: sample_store_eval)
  moreover have "counter_of u ''demo'' = counter_of sample_store ''demo''"
    using policy_event_frame(3) [OF inv u, of "''demo''" 0] at by (simp add: sample_store_eval)
  moreover have "\<not> locked u" using policy_op.returned_unlocked [OF u] by blast
  ultimately obtain u' where k': "keyFunc sample_vpol u = Ret (u', Inr key)"
    using keyFunc_key [OF k] by (auto simp: keyFunc_def Lock_def counter_of_def sample_fields split: bind_splits)
  have "\<exists>u''. kube_compile ?C [''polex''] sample_vpol u' = Ret (u'', Inr res)"
    by (rule caching_is_transparent [OF sample_store_reachable k _ c _ k'])
      (use run at in \<open>auto simp: sample_fields sample_store_eval intro: runs_none\<close>)
  with u k k' c show ?thesis by blast
qed

text \<open>
  C39. Across policies the keys are not unique: name, resource version and counter are concatenated
  without a separator. When two policies of the store have equal event counters, and the name of one
  is the name of the other followed by the digits that its version lacks at the front, both have the
  same key, and the cache cannot tell their compiled forms apart.
\<close>

theorem two_policies_share_cache_key:
  assumes "\<not> locked s" and "counter_of s (vp_name p) = Some c" and "counter_of s (vp_name q) = Some c"
    and "vp_name q = vp_name p @ digits" and "vp_resourceVersion p = digits @ vp_resourceVersion q"
  shows "\<exists>key. keyFunc p s = Ret (s, Inr key) \<and> keyFunc q s = Ret (s, Inr key)"
proof -
  have s: "Unlock (s\<lparr>locked := True\<rparr>) = s" using assms(1) by (simp add: Unlock_def)
  have "keyFunc r s = Ret (s, Inr (vp_name r @ vp_resourceVersion r @ itoa (sint c)))"
    if "counter_of s (vp_name r) = Some c" for r
    using that assms(1) by (auto simp: keyFunc_def Lock_def s counter_of_def split: bind_splits)
  from this [OF assms(2)] this [OF assms(3)] show ?thesis using assms(4,5) by simp
qed

text \<open>The policies \<open>demo\<close> at version 15 and \<open>demo1\<close> at version 5, in a store that two events build.\<close>

theorem two_policies_share_cache_key_witness:
  "\<exists>s key. store_reachable sample_compiler s
     \<and> keyFunc (sample_vpol\<lparr>vp_resourceVersion := ''15''\<rparr>) s = Ret (s, Inr key)
     \<and> keyFunc (sample_vpol\<lparr>vp_name := ''demo1'', vp_resourceVersion := ''5''\<rparr>) s = Ret (s, Inr key)"
proof -
  let ?p = "sample_vpol\<lparr>vp_name := ''demo1'', vp_resourceVersion := ''5''\<rparr>"
  have e: "st_exceptions sample_policy_store = Map.empty" "st_policies sample_policy_store ''demo1'' = None"
    by (simp_all add: sample_policy_store_def create_policy_def newCompositeStore_def Let_def)
  then obtain s where s: "handlePolicy [] ''/demo1'' ?p False sample_policy_store = Ret (s, ())"
    by (simp add: handlePolicy_def Lock_def Let_def TrimPrefix_def)
  with sample_policy_store_reachable [of sample_compiler] e have r: "store_reachable sample_compiler s"
    by (intro store_next [OF _ policy_event [OF _ s]]) (simp_all add: iterates_def)
  have "s = Unlock (create_policy [] ''demo1'' ?p (sample_policy_store\<lparr>locked := True\<rparr>))"
    using handlePolicy_create [OF s] e by (simp add: TrimPrefix_def)
  then have c: "counter_of s ''demo'' = Some 0" "counter_of s ''demo1'' = Some 0" "\<not> locked s"
    by (simp_all add: counter_of_def create_policy_def sample_policy_store_def newCompositeStore_def Let_def)
  from two_policies_share_cache_key [of s "sample_vpol\<lparr>vp_resourceVersion := ''15''\<rparr>" 0 ?p "''1''"] c r
  show ?thesis by (auto simp: sample_fields)
qed

end
