(* ===== verification/MetricsRegistry.thy ===== *)
theory MetricsRegistry
  imports Metrics
begin

text \<open>
  The registration of the vectors of \<open>pkg/metrics\<close> when the package is loaded, and which recordings of
  a request panic. The registry and the vectors are the metrics client's: parameters, with what it
  documents as the hypotheses \<open>registry_law\<close> and \<open>vector_law\<close>.
\<close>

section \<open>Registration\<close>

text \<open>
  \<open>must_register ds g\<close> is the registry after \<open>MustRegister\<close>. The client documents that it panics on a
  collector whose name is registered already; \<open>taken g\<close> are the registered names. The files of the
  package register theirs in the order of their names.
\<close>

type_synonym 'g registrar = "metric_desc list \<Rightarrow> 'g \<Rightarrow> 'g outcome"

definition init_decision :: "'g registrar \<Rightarrow> 'g \<Rightarrow> 'g outcome" where
  "init_decision must_register = must_register [desc_RequestDecisions, desc_DecisionDuration]"

definition init_envoy :: "'g registrar \<Rightarrow> 'g \<Rightarrow> 'g outcome" where
  "init_envoy must_register = must_register [desc_envoyRequests, desc_envoyDuration, desc_envoyRequestErrors]"

definition init_http :: "'g registrar \<Rightarrow> 'g \<Rightarrow> 'g outcome" where
  "init_http must_register = must_register [desc_httpRequests, desc_httpDuration, desc_httpRequestErrors]"

definition init_policy :: "'g registrar \<Rightarrow> 'g \<Rightarrow> 'g outcome" where
  "init_policy must_register = must_register [desc_PolicyDecisions, desc_PolicyDuration]"

definition init_metrics :: "'g registrar \<Rightarrow> 'g \<Rightarrow> 'g outcome" where
  "init_metrics must_register g =
     bind_outcome (init_decision must_register g) (\<lambda>g. bind_outcome (init_envoy must_register g) (\<lambda>g.
     bind_outcome (init_http must_register g) (init_policy must_register)))"

definition registry_law :: "'g registrar \<Rightarrow> ('g \<Rightarrow> string set) \<Rightarrow> bool" where
  "registry_law must_register taken \<longleftrightarrow>
     (\<forall>ds g. if distinct (map md_Name ds) \<and> set (map md_Name ds) \<inter> taken g = {}
        then \<exists>g'. must_register ds g = Ret g' \<and> taken g' = set (map md_Name ds) \<union> taken g
        else \<exists>msg. must_register ds g = Panic msg)"

lemma registry_law_returns:
  assumes "registry_law must_register taken" and "distinct (map md_Name ds)" and "set (map md_Name ds) \<inter> taken g = {}"
  obtains g' where "must_register ds g = Ret g'" "taken g' = set (map md_Name ds) \<union> taken g"
  using assms(1) [unfolded registry_law_def, rule_format, of ds g] assms(2,3) that by auto

text \<open>Loading the package panics only if somebody else registered one of its ten names.\<close>

lemma init_metrics_returns:
  assumes "registry_law must_register taken" and "\<forall>n \<in> taken g. take 6 n \<noteq> ''authz_''"
  shows "\<exists>g'. init_metrics must_register g = Ret g' \<and> card (taken g' - taken g) = 10"
proof -
  have n: "n \<notin> taken g" if "take 6 n = ''authz_''" for n using assms(2) that by blast
  obtain g1 where g1: "init_decision must_register g = Ret g1"
    "taken g1 = set (map md_Name [desc_RequestDecisions, desc_DecisionDuration]) \<union> taken g"
    by (rule registry_law_returns [OF assms(1), of "[desc_RequestDecisions, desc_DecisionDuration]" g])
      (simp_all add: init_decision_def metric_descs n)
  obtain g2 where g2: "init_envoy must_register g1 = Ret g2"
    "taken g2 = set (map md_Name [desc_envoyRequests, desc_envoyDuration, desc_envoyRequestErrors]) \<union> taken g1"
    by (rule registry_law_returns [OF assms(1), of "[desc_envoyRequests, desc_envoyDuration, desc_envoyRequestErrors]" g1])
      (simp_all add: init_envoy_def g1(2) metric_descs n)
  obtain g3 where g3: "init_http must_register g2 = Ret g3"
    "taken g3 = set (map md_Name [desc_httpRequests, desc_httpDuration, desc_httpRequestErrors]) \<union> taken g2"
    by (rule registry_law_returns [OF assms(1), of "[desc_httpRequests, desc_httpDuration, desc_httpRequestErrors]" g2])
      (simp_all add: init_http_def g1(2) g2(2) metric_descs n)
  obtain g4 where g4: "init_policy must_register g3 = Ret g4"
    "taken g4 = set (map md_Name [desc_PolicyDecisions, desc_PolicyDuration]) \<union> taken g3"
    by (rule registry_law_returns [OF assms(1), of "[desc_PolicyDecisions, desc_PolicyDuration]" g3])
      (simp_all add: init_policy_def g1(2) g2(2) g3(2) metric_descs n)
  let ?new = "set (map md_Name [desc_RequestDecisions, desc_DecisionDuration, desc_envoyRequests, desc_envoyDuration,
     desc_envoyRequestErrors, desc_httpRequests, desc_httpDuration, desc_httpRequestErrors, desc_PolicyDecisions,
     desc_PolicyDuration])"
  have "?new \<inter> taken g = {}" by (simp add: metric_descs n)
  moreover have "taken g4 = ?new \<union> taken g" by (auto simp: g1(2) g2(2) g3(2) g4(2))
  ultimately have "taken g4 - taken g = ?new" by blast
  moreover have "card ?new = 10" by (simp add: metric_descs)
  moreover have "init_metrics must_register g = Ret g4" by (simp add: init_metrics_def g1(1) g2(1) g3(1) g4(1))
  ultimately show ?thesis by simp
qed

text \<open>A registry of names.\<close>

definition sample_registrar :: "string list registrar" where
  "sample_registrar ds g =
     (if distinct (map md_Name ds) \<and> set (map md_Name ds) \<inter> set g = {} then Ret (map md_Name ds @ g)
      else Panic ''duplicate metrics collector registration attempted'')"

lemma sample_registrar_law: "registry_law sample_registrar set"
  by (simp add: registry_law_def sample_registrar_def)

section \<open>Recordings that panic\<close>

text \<open>
  C40. What recording a request needs: the recordings hand every vector as many values as it has
  labels, so a recording panics exactly when the method, host, path or scheme of the request is not
  valid UTF-8, and counts the request once under its labels otherwise. The path of a URL need not be
  valid UTF-8. Of the metrics client the theorem uses what it documents: it panics when the number
  of values is wrong or a value is not valid UTF-8, and not otherwise.
\<close>

theorem recording_panics_iff_not_utf8:
  assumes "vector_law P"
  shows "(if \<forall>l \<in> set (http_labels q). utf8_valid l
    then RecordHTTPRequest P q res m = (count_request q res m, None)
      \<and> RecordHTTPRequestError P q m = (count_request_error q m, None)
    else (\<exists>panic. RecordHTTPRequest P q res m = (m, Some panic))
      \<and> (\<exists>panic. RecordHTTPRequestError P q m = (m, Some panic)))
   \<and> (case envoyRequestAttributes r of (method, host, path, scheme) \<Rightarrow>
    if \<forall>l \<in> {method, host, path, scheme}. utf8_valid l
    then TryRecordEnvoyRequest P r eres m = (RecordEnvoyRequest r eres m, None)
      \<and> TryRecordEnvoyRequestError P r m = (RecordEnvoyRequestError r m, None)
    else (\<exists>panic. TryRecordEnvoyRequest P r eres m = (m, Some panic))
      \<and> (\<exists>panic. TryRecordEnvoyRequestError P r m = (m, Some panic)))"
proof (rule conjI)
  show "if \<forall>l \<in> set (http_labels q). utf8_valid l
    then RecordHTTPRequest P q res m = (count_request q res m, None)
      \<and> RecordHTTPRequestError P q m = (count_request_error q m, None)
    else (\<exists>panic. RecordHTTPRequest P q res m = (m, Some panic))
      \<and> (\<exists>panic. RecordHTTPRequestError P q m = (m, Some panic))"
  proof (cases "labels_valid q")
    case True
    with RecordHTTPRequest_valid [OF assms True] RecordHTTPRequestError_valid [OF assms True] show ?thesis
      by (simp add: labels_valid_def)
  next
    case False
    with RecordHTTPRequest_panics [OF assms False] RecordHTTPRequestError_panics [OF assms False] show ?thesis
      by (auto simp: labels_valid_def)
  qed
next
  obtain mtd hst pth sch where a: "envoyRequestAttributes r = (mtd, hst, pth, sch)" by (metis prod_cases4)
  have "\<exists>status. utf8_valid status \<and> status = (case eres of
            Some r \<Rightarrow> (case Status r of Some st \<Rightarrow> itoa (Code st) | None \<Rightarrow> []) | None \<Rightarrow> [])"
    by (auto simp: utf8_valid_itoa split: option.split)
  then obtain st where st: "utf8_valid st" "(case eres of
            Some r \<Rightarrow> (case Status r of Some st \<Rightarrow> itoa (Code st) | None \<Rightarrow> []) | None \<Rightarrow> []) = st" by auto
  let ?valid = "\<forall>l \<in> {mtd, hst, pth, sch}. utf8_valid l"
  have "P desc_envoyRequests [mtd, hst, pth, sch, st] = None \<longleftrightarrow> ?valid"
    "P desc_envoyDuration [mtd, hst, pth, sch, st] = None \<longleftrightarrow> ?valid"
    "P desc_envoyRequestErrors [mtd, hst, pth, sch] = None \<longleftrightarrow> ?valid"
    using assms st(1)
    by (simp_all add: vector_law_def desc_envoyRequests_def desc_envoyDuration_def desc_envoyRequestErrors_def)
  then show "case envoyRequestAttributes r of (method, host, path, scheme) \<Rightarrow>
    if \<forall>l \<in> {method, host, path, scheme}. utf8_valid l
    then TryRecordEnvoyRequest P r eres m = (RecordEnvoyRequest r eres m, None)
      \<and> TryRecordEnvoyRequestError P r m = (RecordEnvoyRequestError r m, None)
    else (\<exists>panic. TryRecordEnvoyRequest P r eres m = (m, Some panic))
      \<and> (\<exists>panic. TryRecordEnvoyRequestError P r m = (m, Some panic))"
    by (cases ?valid)
      (auto simp: a TryRecordEnvoyRequest_def TryRecordEnvoyRequestError_def RecordEnvoyRequest_def
        RecordEnvoyRequestError_def st(2) with_labels_def and_then_def)
qed

text \<open>The path of \<open>GET /%ff\<close>.\<close>

theorem recording_panics_iff_not_utf8_witness:
  "\<exists>q panic. NewRequest Inr 0 sample_package ((sample_http_request [])\<lparr>rq_Path := [CHR ''/'', CHR 0xFF]\<rparr>) = Inr q
     \<and> RecordHTTPRequest sample_vectors q None zero_metrics = (zero_metrics, Some panic)"
proof -
  obtain q where q: "NewRequest Inr 0 sample_package ((sample_http_request [])\<lparr>rq_Path := [CHR ''/'', CHR 0xFF]\<rparr>) = Inr q"
    and p: "attr_Path (Attributes q) = [CHR ''/'', CHR 0xFF]"
    by (simp add: NewRequest_def sample_http_request_def)
  have "\<not> utf8_valid [CHR ''/'', CHR 0xFF]" by (simp add: byte_in_def utf8_valid.simps(2))
  with p have n: "(\<forall>l \<in> set (http_labels q). utf8_valid l) = False" by (auto simp: http_labels_def)
  have "\<exists>panic. RecordHTTPRequest sample_vectors q None zero_metrics = (zero_metrics, Some panic)"
    using recording_panics_iff_not_utf8 [OF sample_vectors_law, of q None zero_metrics None "None :: unit EnvoyResponse option"]
    unfolding n if_False by (elim conjE)
  with q show ?thesis by blast
qed

end
