(* ===== verification/StaticSource.thy ===== *)
theory StaticSource
  imports Compiler "HOL-Library.Multiset"
begin

text \<open>
  Policies from files (\<open>pkg/engine/sources/fs.go\<close>) and the source that compiles them
  (\<open>newStatic\<close> and \<open>Load\<close> of \<open>pkg/utils/sources.go\<close>), with the helper of
  \<open>pkg/utils/map.go\<close>. The walk of the file system, reading a file, splitting YAML and
  decoding a document are arguments; log messages are left out.
\<close>

section \<open>Sorted slices\<close>

definition ToSortedSlice :: "string list \<Rightarrow> (string \<rightharpoonup> 'v) option \<Rightarrow> 'v list" where
  "ToSortedSlice it m = (case m of None \<Rightarrow> [] | Some m \<Rightarrow> map (\<lambda>key. the (m key)) (sort it))"

section \<open>Loading policies from a file system\<close>

text \<open>One call of the walk function: a walk error, no entry, or an entry with its base name.\<close>

record dir_entry =
  de_Name :: string
  de_IsDir :: bool

record walk_call =
  wc_path :: string
  wc_entry :: "dir_entry option"
  wc_err :: "go_error option"

datatype doc_kind = KindValidatingPolicy | KindPolicyException | KindOther

text \<open>
  The document loader: \<open>make_loader\<close> fails or not, \<open>load_doc\<close> decodes a document and says
  what it is, \<open>to_policy\<close> and \<open>to_exception\<close> convert it.
\<close>

record 'u fs_api =
  is_yaml :: "string \<Rightarrow> bool"
  is_json :: "string \<Rightarrow> bool"
  SplitDocuments :: "string \<Rightarrow> go_error + string list"
  make_loader :: "go_error option"
  load_doc :: "string \<Rightarrow> go_error + doc_kind \<times> 'u"
  to_policy :: "'u \<Rightarrow> go_error + ValidatingPolicy"
  to_exception :: "'u \<Rightarrow> go_error + PolicyException"

definition getDocuments :: "'u fs_api \<Rightarrow> (string \<Rightarrow> go_error + string) \<Rightarrow> dir_entry option \<Rightarrow> go_error + string list" where
  "getDocuments A ReadFile entry =
     (case entry of
        None \<Rightarrow> Inr []
      | Some e \<Rightarrow>
          (if is_yaml A (de_Name e) then
             (case ReadFile (de_Name e) of
                Inl err \<Rightarrow> Inl (Errorf (''failed to read file '' @ de_Name e @ '': '' @ error_text err))
              | Inr bytes \<Rightarrow>
                  (case SplitDocuments A bytes of
                     Inl err \<Rightarrow> Inl (Errorf (''failed to split documents: '' @ error_text err))
                   | Inr documents \<Rightarrow> Inr documents))
           else if is_json A (de_Name e) then
             (case ReadFile (de_Name e) of
                Inl err \<Rightarrow> Inl (Errorf (''failed to read file '' @ de_Name e @ '': '' @ error_text err))
              | Inr doc \<Rightarrow> Inr [doc])
           else Inr []))"

type_synonym loaded = "ValidatingPolicy list \<times> PolicyException list"

definition load_document :: "'u fs_api \<Rightarrow> string \<Rightarrow> loaded \<Rightarrow> loaded" where
  "load_document A doc acc =
     (case acc of (policies, policyExceptions) \<Rightarrow>
        (case load_doc A doc of
           Inl err \<Rightarrow> (policies, policyExceptions)
         | Inr (KindValidatingPolicy, untyped) \<Rightarrow>
             (case to_policy A untyped of
                Inl err \<Rightarrow> (policies, policyExceptions)
              | Inr typed \<Rightarrow> (policies @ [typed], policyExceptions))
         | Inr (KindPolicyException, untyped) \<Rightarrow>
             (case to_exception A untyped of
                Inl err \<Rightarrow> (policies, policyExceptions)
              | Inr typed \<Rightarrow> (policies, policyExceptions @ [typed]))
         | Inr (KindOther, untyped) \<Rightarrow> (policies, policyExceptions)))"

definition walk_fn :: "'u fs_api \<Rightarrow> (string \<Rightarrow> go_error + string) \<Rightarrow> walk_call \<Rightarrow> loaded \<Rightarrow> loaded" where
  "walk_fn A ReadFile call acc =
     (case wc_entry call of
        None \<Rightarrow> acc
      | Some entry \<Rightarrow>
          (if wc_err call \<noteq> None then acc
           else if de_IsDir entry then acc
           else if \<not> is_yaml A (de_Name entry) \<and> \<not> is_json A (de_Name entry) then acc
           else (case getDocuments A ReadFile (Some entry) of
                   Inl err \<Rightarrow> acc
                 | Inr docs \<Rightarrow> if make_loader A \<noteq> None then acc else fold (load_document A) docs acc)))"

definition LoadPolicies :: "'u fs_api \<Rightarrow> walk_call list \<Rightarrow> (string \<Rightarrow> go_error + string) \<Rightarrow> loaded" where
  "LoadPolicies A walk ReadFile = fold (walk_fn A ReadFile) walk ([], [])"

section \<open>The static source\<close>

text \<open>
  The policy map is keyed by the pointers of the policies: a policy is its address and its
  contents.
\<close>

type_synonym policy_ptr = "nat \<times> ValidatingPolicy"

fun ref_matches :: "string \<Rightarrow> string list \<Rightarrow> bool" where
  "ref_matches name [] = False"
| "ref_matches name (pol # refs) = (if pol = name then True else ref_matches name refs)"

fun match_exceptions :: "ValidatingPolicy \<Rightarrow> PolicyException list \<Rightarrow> PolicyException list" where
  "match_exceptions p [] = []"
| "match_exceptions p (ex # exs) =
     (if pe_evaluationMode ex \<noteq> vp_evaluationMode p then match_exceptions p exs
      else if ref_matches (vp_name p) (pe_policyRefs ex) then ex # match_exceptions p exs
      else match_exceptions p exs)"

definition newStatic :: "policy_ptr list \<Rightarrow> PolicyException list \<Rightarrow> (policy_ptr \<rightharpoonup> PolicyException list)" where
  "newStatic policies policyExceptions =
     fold (\<lambda>p m. m(p \<mapsto> match_exceptions (snd p) policyExceptions)) policies Map.empty"

fun static_Load :: "('e, 'ast, 'in, 'v) cel_compiler \<Rightarrow> (policy_ptr \<rightharpoonup> PolicyException list) \<Rightarrow> policy_ptr list
    \<Rightarrow> (field_error list + ('in, 'v) compiledPolicy list) outcome" where
  "static_Load C policyMap [] = Ret (Inr [])"
| "static_Load C policyMap (p # it) =
     bind_outcome (Compile C (snd p) (the (policyMap p))) (\<lambda>(policy, err).
       if err \<noteq> [] then Ret (Inl err)
       else bind_outcome (static_Load C policyMap it) (\<lambda>rest.
         case rest of Inl err \<Rightarrow> Ret (Inl err) | Inr policies \<Rightarrow> Ret (Inr (policy # policies))))"

text \<open>
  The sources of the configured URLs, in their order. \<open>Lookup\<close> is the multiplexer of file, Git and
  OCI file systems: it gives the walk and the reading of the file system of a URL. Loading never
  fails (\<open>LoadPolicies\<close> skips what it cannot read), so only the lookup does. The policies of a
  source are numbered by their position, which is their identity.
\<close>

fun GetExternalSources :: "'u fs_api \<Rightarrow> (string \<Rightarrow> go_error + walk_call list \<times> (string \<Rightarrow> go_error + string)) \<Rightarrow> string list
    \<Rightarrow> go_error + (policy_ptr \<rightharpoonup> PolicyException list) list" where
  "GetExternalSources A Lookup [] = Inr []"
| "GetExternalSources A Lookup (url # urls) =
     (case Lookup url of
        Inl err \<Rightarrow> Inl err
      | Inr (walk, ReadFile) \<Rightarrow>
          (case LoadPolicies A walk ReadFile of (policies, policyExceptions) \<Rightarrow>
             (case GetExternalSources A Lookup urls of
                Inl err \<Rightarrow> Inl err
              | Inr providers \<Rightarrow> Inr (newStatic (enumerate 0 policies) policyExceptions # providers))))"

section \<open>Lemmas\<close>

lemma ref_matches_iff: "ref_matches name refs \<longleftrightarrow> name \<in> set refs"
  by (induction refs) auto

lemma match_exceptions_filter:
  "match_exceptions p exs = filter (\<lambda>ex. pe_evaluationMode ex = vp_evaluationMode p \<and> vp_name p \<in> set (pe_policyRefs ex)) exs"
  by (induction exs) (auto simp: ref_matches_iff)

lemma newStatic_fold:
  "fold (\<lambda>p m. m(p \<mapsto> f p)) ps m k = (if k \<in> set ps then Some (f k) else m k)"
  by (induction ps arbitrary: m) auto

lemma newStatic_lookup:
  "newStatic policies exs p = (if p \<in> set policies then Some (match_exceptions (snd p) exs) else None)"
  by (simp add: newStatic_def newStatic_fold)

lemma static_Load_ok:
  "static_Load C m it = Ret (Inr ps) \<longleftrightarrow> list_all2 (\<lambda>p cp. Compile C (snd p) (the (m p)) = Ret (cp, [])) it ps"
proof (induction it arbitrary: ps)
  case (Cons p it)
  note IH [simp] = Cons.IH [symmetric]
  show ?case
  proof (cases "Compile C (snd p) (the (m p))")
    case (Ret r)
    then show ?thesis
      by (cases r; cases "static_Load C m it")
        (auto simp: list_all2_Cons1 split: sum.splits)
  qed (auto simp: list_all2_Cons1)
qed auto

lemma static_Load_error:
  assumes "\<exists>p \<in> set it. \<forall>cp. Compile C (snd p) (the (m p)) \<noteq> Ret (cp, [])"
  shows "(\<exists>errs. errs \<noteq> [] \<and> static_Load C m it = Ret (Inl errs))
    \<or> \<not> returns (static_Load C m it) \<and> (\<exists>p \<in> set it. \<not> returns (Compile C (snd p) (the (m p))))"
  using assms
proof (induction it)
  case (Cons p it)
  show ?case
  proof (cases "Compile C (snd p) (the (m p))")
    case (Ret out)
    obtain cp errs where out: "out = (cp, errs)" by (cases out)
    show ?thesis
    proof (cases "errs = []")
      case True
      with Cons.prems Ret out have "\<exists>p \<in> set it. \<forall>cp. Compile C (snd p) (the (m p)) \<noteq> Ret (cp, [])" by auto
      from Cons.IH [OF this] show ?thesis
      proof
        assume "\<exists>errs. errs \<noteq> [] \<and> static_Load C m it = Ret (Inl errs)"
        with Ret out True show ?thesis by auto
      next
        assume "\<not> returns (static_Load C m it) \<and> (\<exists>p \<in> set it. \<not> returns (Compile C (snd p) (the (m p))))"
        with Ret out True show ?thesis by (cases "static_Load C m it") auto
      qed
    next
      case False
      with Ret out show ?thesis by simp
    qed
  qed auto
qed simp

lemma GetExternalSources_ok:
  "GetExternalSources A Lookup urls = Inr providers \<longleftrightarrow>
     list_all2 (\<lambda>url src. \<exists>walk ReadFile. Lookup url = Inr (walk, ReadFile)
       \<and> src = (case LoadPolicies A walk ReadFile of (ps, exs) \<Rightarrow> newStatic (enumerate 0 ps) exs)) urls providers"
proof (induction urls arbitrary: providers)
  case (Cons url urls)
  note [simp] = Cons.IH [symmetric]
  show ?case
    by (auto simp: list_all2_Cons1 split: sum.splits prod.splits)
qed auto

section \<open>Properties\<close>

text \<open>
  C31. A static source is all or nothing, whatever the order of its map. When all its policies
  compile, each with exactly the exceptions of its mode that name it, loading yields the compiled
  policies. As soon as one does not, it yields no policy at all: errors, or a panic when compiling
  some policy panics (as it does with an exception that does not compile).
\<close>

theorem static_load_all_or_nothing:
  assumes "iterates it (newStatic policies exs)"
  shows "(\<forall>p \<in> set policies. \<exists>cp. Compile C (snd p) (match_exceptions (snd p) exs) = Ret (cp, []))
      \<and> (\<exists>ps. static_Load C (newStatic policies exs) it = Ret (Inr ps) \<and> length ps = card (set policies)
           \<and> list_all2 (\<lambda>p cp. Compile C (snd p) [ex \<leftarrow> exs. pe_evaluationMode ex = vp_evaluationMode (snd p)
                \<and> vp_name (snd p) \<in> set (pe_policyRefs ex)] = Ret (cp, [])) it ps)
    \<or> (\<exists>p \<in> set policies. \<forall>cp. Compile C (snd p) (match_exceptions (snd p) exs) \<noteq> Ret (cp, []))
      \<and> ((\<exists>errs. errs \<noteq> [] \<and> static_Load C (newStatic policies exs) it = Ret (Inl errs))
         \<or> \<not> returns (static_Load C (newStatic policies exs) it)
           \<and> (\<exists>p \<in> set policies. \<not> returns (Compile C (snd p) (match_exceptions (snd p) exs))))"
proof -
  let ?m = "newStatic policies exs"
  have it: "set it = set policies" "distinct it"
    using assms(1) by (auto simp: iterates_def newStatic_lookup split: if_splits)
  have m: "the (?m p) = match_exceptions (snd p) exs" if "p \<in> set it" for p
    using that it by (simp add: newStatic_lookup)
  show ?thesis
  proof (cases "\<forall>p \<in> set policies. \<exists>cp. Compile C (snd p) (match_exceptions (snd p) exs) = Ret (cp, [])")
    case True
    then obtain f where f: "\<forall>p \<in> set policies. Compile C (snd p) (match_exceptions (snd p) exs) = Ret (f p, [])"
      using bchoice [of "set policies" "\<lambda>p cp. Compile C (snd p) (match_exceptions (snd p) exs) = Ret (cp, [])"] by blast
    define ps where "ps = map f it"
    have all2: "list_all2 (\<lambda>p cp. Compile C (snd p) (match_exceptions (snd p) exs) = Ret (cp, [])) it ps"
      using f it(1) unfolding ps_def list.rel_map by (intro list.rel_refl_strong) blast
    have "list_all2 (\<lambda>p cp. Compile C (snd p) (the (?m p)) = Ret (cp, [])) it ps"
      by (rule list.rel_mono_strong [OF all2]) (simp add: m)
    then have "static_Load C ?m it = Ret (Inr ps)" by (simp only: static_Load_ok)
    moreover have "length ps = card (set policies)"
      using it distinct_card [of it] by (simp add: ps_def)
    ultimately show ?thesis
      using True all2 [unfolded match_exceptions_filter] by blast
  next
    case False
    then have bad: "\<exists>p \<in> set policies. \<forall>cp. Compile C (snd p) (match_exceptions (snd p) exs) \<noteq> Ret (cp, [])" by blast
    have "\<exists>p \<in> set it. \<forall>cp. Compile C (snd p) (the (?m p)) \<noteq> Ret (cp, [])"
      using bad it(1) m by simp
    from static_Load_error [OF this] have "(\<exists>errs. errs \<noteq> [] \<and> static_Load C ?m it = Ret (Inl errs))
       \<or> \<not> returns (static_Load C ?m it)
         \<and> (\<exists>p \<in> set policies. \<not> returns (Compile C (snd p) (match_exceptions (snd p) exs)))"
      using it(1) m by auto
    with bad show ?thesis by blast
  qed
qed

theorem static_load_all_or_nothing_witness:
  "\<exists>ps. static_Load sample_compiler (newStatic [(0, sample_vpol)] [sample_polex ''isAdmin'']) [(0, sample_vpol)] = Ret (Inr ps)
     \<and> length ps = 1"
proof -
  let ?p = "(0, sample_vpol) :: policy_ptr"
  have me: "match_exceptions sample_vpol [sample_polex ''isAdmin''] = [sample_polex ''isAdmin'']"
    by (simp add: sample_vpol_def sample_polex_def)
  have it: "iterates [?p] (newStatic [?p] [sample_polex ''isAdmin''])"
    by (auto simp: iterates_def newStatic_def)
  show ?thesis
    using static_load_all_or_nothing [OF it, of sample_compiler] sample_Compile me by auto
qed

text \<open>
  C32. The contents of nested files are never read: the policies loaded depend on the walk only through
  the entries and walk errors it reports, not through the paths where it found them, and on the files
  only through the contents of those in the top directory, because a file is read by its base name. A
  nested file is skipped when there is no top-level file of its name, and stands for that file, which
  is then loaded once more, when there is one.
\<close>

theorem nested_files_not_read:
  assumes "map (\<lambda>call. (wc_entry call, wc_err call)) walk = map (\<lambda>call. (wc_entry call, wc_err call)) walk'"
    and "\<forall>call \<in> set walk. \<forall>e. wc_entry call = Some e \<longrightarrow> CHR ''/'' \<notin> set (de_Name e)"
    and "\<forall>name. CHR ''/'' \<notin> set name \<longrightarrow> ReadFile name = ReadFile' name"
  shows "LoadPolicies A walk ReadFile = LoadPolicies A walk' ReadFile'"
proof -
  have same_paths: "fold (walk_fn A R) xs acc = fold (walk_fn A R) ys acc"
    if "map (\<lambda>call. (wc_entry call, wc_err call)) xs = map (\<lambda>call. (wc_entry call, wc_err call)) ys" for R acc xs ys
    using that
  proof (induction xs arbitrary: ys acc)
    case (Cons x xs)
    then obtain y zs where ys: "ys = y # zs" "wc_entry x = wc_entry y" "wc_err x = wc_err y"
        "map (\<lambda>call. (wc_entry call, wc_err call)) xs = map (\<lambda>call. (wc_entry call, wc_err call)) zs"
      by (cases ys) auto
    have "walk_fn A R x = walk_fn A R y" by (rule ext) (simp only: walk_fn_def ys(2,3))
    with Cons.IH [OF ys(4)] ys(1) show ?case by simp
  qed simp
  have "walk_fn A ReadFile call = walk_fn A ReadFile' call" if "call \<in> set walk" for call
  proof -
    have "getDocuments A ReadFile (Some e) = getDocuments A ReadFile' (Some e)" if "wc_entry call = Some e" for e
    proof -
      have "ReadFile (de_Name e) = ReadFile' (de_Name e)" using assms(2,3) \<open>call \<in> set walk\<close> that by blast
      then show ?thesis by (simp add: getDocuments_def)
    qed
    then show ?thesis by (auto simp: walk_fn_def fun_eq_iff split: option.split)
  qed
  then have "LoadPolicies A walk ReadFile = LoadPolicies A walk ReadFile'"
    unfolding LoadPolicies_def by (intro fold_cong refl) simp_all
  then show ?thesis unfolding LoadPolicies_def by (simp only: same_paths [OF assms(1)])
qed

definition sample_fs_api :: "string fs_api" where
  "sample_fs_api = \<lparr>is_yaml = (\<lambda>n. drop (length n - 5) n = ''.yaml''), is_json = (\<lambda>n. False),
     SplitDocuments = (\<lambda>s. Inr [s]), make_loader = None,
     load_doc = (\<lambda>d. Inr (KindValidatingPolicy, d)), to_policy = (\<lambda>d. Inr (sample_vpol\<lparr>vp_name := d\<rparr>)),
     to_exception = (\<lambda>_. Inl (Errorf ''no exception''))\<rparr>"

text \<open>A top-level file, and a nested file of the same name or of another one.\<close>

definition nested_walk :: "string \<Rightarrow> walk_call list" where
  "nested_walk dir =
     [\<lparr>wc_path = ''p.yaml'', wc_entry = Some \<lparr>de_Name = ''p.yaml'', de_IsDir = False\<rparr>, wc_err = None\<rparr>,
      \<lparr>wc_path = dir @ ''p.yaml'', wc_entry = Some \<lparr>de_Name = ''p.yaml'', de_IsDir = False\<rparr>, wc_err = None\<rparr>,
      \<lparr>wc_path = dir @ ''q.yaml'', wc_entry = Some \<lparr>de_Name = ''q.yaml'', de_IsDir = False\<rparr>, wc_err = None\<rparr>]"

text \<open>\<open>dir/p.yaml\<close> loads the top-level file again and \<open>dir/q.yaml\<close> is skipped.\<close>

theorem nested_files_not_read_witness:
  "LoadPolicies sample_fs_api (nested_walk ''dir/'')
     (\<lambda>p. if p = ''p.yaml'' then Inr ''allow-all'' else if CHR ''/'' \<in> set p then Inr ''deny-all''
       else Inl (Errorf ''file does not exist''))
    = ([sample_vpol\<lparr>vp_name := ''allow-all''\<rparr>, sample_vpol\<lparr>vp_name := ''allow-all''\<rparr>], [])"
proof -
  let ?read = "\<lambda>p. if p = ''p.yaml'' then Inr ''allow-all'' else if CHR ''/'' \<in> set p then Inr ''deny-all''
       else Inl (Errorf ''file does not exist'')"
  let ?top = "\<lambda>p. if p = ''p.yaml'' then Inr ''allow-all'' else Inl (Errorf ''file does not exist'')"
  have "LoadPolicies sample_fs_api (nested_walk ''dir/'') ?read = LoadPolicies sample_fs_api (nested_walk []) ?top"
    by (rule nested_files_not_read) (auto simp: nested_walk_def)
  also have "\<dots> = ([sample_vpol\<lparr>vp_name := ''allow-all''\<rparr>, sample_vpol\<lparr>vp_name := ''allow-all''\<rparr>], [])"
    by (simp add: LoadPolicies_def nested_walk_def walk_fn_def getDocuments_def sample_fs_api_def load_document_def)
  finally show ?thesis .
qed

end
