(* ===== verification/Verdicts.thy ===== *)
theory Verdicts
  imports StaticSource
begin

text \<open>
  What a list of compiled policies says of a request: the first response, or the first error of
  a policy that fails closed; policies that are skipped, exempted, silent or fail open are
  transparent. Verdicts form a monoid, so that the verdict of several sources is the sum of theirs;
  the theory also says when the order of the policies matters. Policies of a static source come in the
  order of a Go map (\<open>Load\<close> of \<open>pkg/utils/sources.go\<close>), which differs from run to run.
\<close>

section \<open>Verdicts of lists of policies\<close>

fun request_verdict :: "nat \<Rightarrow> ('v, 'o) val_api \<Rightarrow> ('in, 'v) compiledPolicy list \<Rightarrow> 'in \<Rightarrow> 'o verdict" where
  "request_verdict fuel V [] r = Skipped"
| "request_verdict fuel V (p # ps) r =
     (case policy_verdict fuel V p r of
        Decided (Some x) \<Rightarrow> Decided (Some x)
      | Errored e \<Rightarrow> if failurePolicy p = Fail then Errored e else request_verdict fuel V ps r
      | _ \<Rightarrow> request_verdict fuel V ps r)"

text \<open>The first verdict that is not silence counts.\<close>

instantiation verdict :: (type) monoid_add
begin

definition zero_verdict :: "'a verdict" where
  "zero_verdict = Skipped"

definition plus_verdict :: "'a verdict \<Rightarrow> 'a verdict \<Rightarrow> 'a verdict" where
  "plus_verdict v w = (case v of Skipped \<Rightarrow> w | _ \<Rightarrow> v)"

instance
  by standard (auto simp: zero_verdict_def plus_verdict_def split: verdict.splits)

end

text \<open>What one policy contributes: its response, or its error when it fails closed.\<close>

definition policy_says :: "nat \<Rightarrow> ('v, 'o) val_api \<Rightarrow> 'in \<Rightarrow> ('in, 'v) compiledPolicy \<Rightarrow> 'o verdict" where
  "policy_says fuel V r p =
     (case policy_verdict fuel V p r of
        Decided (Some x) \<Rightarrow> Decided (Some x)
      | Errored e \<Rightarrow> if failurePolicy p = Fail then Errored e else Skipped
      | _ \<Rightarrow> Skipped)"

lemma request_verdict_sum: "request_verdict fuel V ps r = sum_list (map (policy_says fuel V r) ps)"
  by (induction ps) (auto simp: policy_says_def zero_verdict_def plus_verdict_def split: verdict.splits option.splits)

lemma request_verdict_append:
  "request_verdict fuel V (ps @ qs) r = request_verdict fuel V ps r + request_verdict fuel V qs r"
  by (simp add: request_verdict_sum)

lemma request_verdict_concat:
  "request_verdict fuel V (concat pss) r = sum_list (map (\<lambda>ps. request_verdict fuel V ps r) pss)"
  by (induction pss) (simp_all add: request_verdict_append zero_verdict_def)

lemma sum_verdicts_Skipped: "sum_list vs = Skipped \<longleftrightarrow> set vs \<subseteq> {Skipped}"
  by (induction vs) (auto simp: zero_verdict_def plus_verdict_def split: verdict.splits)

lemma sum_verdicts_mem: "sum_list vs \<noteq> Skipped \<Longrightarrow> sum_list vs \<in> set vs"
  by (induction vs) (auto simp: zero_verdict_def plus_verdict_def split: verdict.splits)

lemma sum_verdicts_agree:
  assumes "set vs \<subseteq> {Skipped, v}"
  shows "sum_list vs = (if v \<in> set vs then v else Skipped)"
  using sum_verdicts_Skipped [of vs] sum_verdicts_mem [of vs] assms by auto

text \<open>Policies whose variables read only earlier ones say the same at every depth that is enough.\<close>

lemma policy_says_fuel:
  assumes "vars_ordered (variables p) order" and "length order \<le> fuel"
  shows "policy_says fuel V r p = policy_says (length order) V r p"
  unfolding policy_says_def policy_verdict_fuel_irrelevant(1) [OF assms(1) assms(2) order_refl] ..

section \<open>The order of policies\<close>

text \<open>Two policies conflict on a request when both speak and say different things.\<close>

definition conflict :: "nat \<Rightarrow> ('v, 'o) val_api \<Rightarrow> 'in \<Rightarrow> ('in, 'v) compiledPolicy \<Rightarrow> ('in, 'v) compiledPolicy \<Rightarrow> bool" where
  "conflict fuel V r p q \<longleftrightarrow> policy_says fuel V r p \<noteq> Skipped \<and> policy_says fuel V r q \<noteq> Skipped
     \<and> policy_says fuel V r p \<noteq> policy_says fuel V r q"

lemma no_conflict_verdict:
  assumes "\<forall>p \<in> set ps. \<forall>q \<in> set ps. \<not> conflict fuel V r p q" and "p \<in> set ps" and "policy_says fuel V r p \<noteq> Skipped"
  shows "request_verdict fuel V ps r = policy_says fuel V r p"
proof -
  have "set (map (policy_says fuel V r) ps) \<subseteq> {Skipped, policy_says fuel V r p}"
    using assms by (auto simp: conflict_def)
  from sum_verdicts_agree [OF this] assms(2) show ?thesis by (auto simp: request_verdict_sum)
qed

lemma conflict_orders:
  assumes "conflict fuel V r p q"
  shows "request_verdict fuel V (p # ps) r = policy_says fuel V r p"
    and "request_verdict fuel V (q # qs) r = policy_says fuel V r q"
  using assms by (auto simp: conflict_def request_verdict_sum plus_verdict_def split: verdict.splits)

lemma no_conflict_permuted:
  assumes "\<forall>p \<in> set ps. \<forall>q \<in> set ps. \<not> conflict fuel V r p q" and "set ps' = set ps"
  shows "request_verdict fuel V ps' r = request_verdict fuel V ps r"
proof (cases "\<exists>p \<in> set ps. policy_says fuel V r p \<noteq> Skipped")
  case True
  then obtain p where p: "p \<in> set ps" "policy_says fuel V r p \<noteq> Skipped" by blast
  show ?thesis
    using no_conflict_verdict [OF assms(1) p] no_conflict_verdict [of ps' fuel V r p] assms p by simp
next
  case False
  then have "sum_list (map (policy_says fuel V r) ps) = Skipped" "sum_list (map (policy_says fuel V r) ps') = Skipped"
    using assms(2) unfolding sum_verdicts_Skipped by auto
  then show ?thesis by (simp add: request_verdict_sum)
qed

text \<open>A static source compiles each policy for itself, so another order permutes the compiled ones.\<close>

lemma static_Load_map:
  "static_Load C m it = Ret (Inr ps) \<longleftrightarrow>
     (\<forall>x \<in> set it. \<exists>cp. Compile C (snd x) (the (m x)) = Ret (cp, []))
     \<and> ps = map (\<lambda>x. THE cp. Compile C (snd x) (the (m x)) = Ret (cp, [])) it"
proof -
  define P where "P = (\<lambda>x cp. Compile C (snd x) (the (m x)) = Ret (cp, []))"
  have f: "P x cp \<Longrightarrow> (THE cp. P x cp) = cp" for x cp by (auto simp: P_def)
  have "list_all2 P it ps \<longleftrightarrow> (\<forall>x \<in> set it. \<exists>cp. P x cp) \<and> ps = map (\<lambda>x. THE cp. P x cp) it"
  proof
    show "list_all2 P it ps \<Longrightarrow> (\<forall>x \<in> set it. \<exists>cp. P x cp) \<and> ps = map (\<lambda>x. THE cp. P x cp) it"
      by (induction rule: list_all2_induct) (auto simp: f)
  next
    show "(\<forall>x \<in> set it. \<exists>cp. P x cp) \<and> ps = map (\<lambda>x. THE cp. P x cp) it \<Longrightarrow> list_all2 P it ps"
      using f by (metis (no_types, lifting) list.rel_map(2) list.rel_refl_strong)
  qed
  then show ?thesis unfolding static_Load_ok P_def by simp
qed

lemma iterates_first:
  assumes "iterates it m" and "x \<in> set it"
  shows "iterates (x # remove1 x it) m"
  using assms by (auto simp: iterates_def set_remove1_eq)

section \<open>Properties\<close>

text \<open>
  C21. When the order of files matters: the policies of a static source come in the order of a map,
  and what they say of a request is the same for every order exactly when no two of them speak and
  say different things.
\<close>

theorem static_order_matters_on_conflict:
  assumes "iterates it m" and "static_Load C m it = Ret (Inr ps)"
  shows "(\<forall>it' ps'. iterates it' m \<longrightarrow> static_Load C m it' = Ret (Inr ps') \<longrightarrow>
      request_verdict fuel V ps' r = request_verdict fuel V ps r)
    \<longleftrightarrow> (\<forall>p \<in> set ps. \<forall>q \<in> set ps. \<not> conflict fuel V r p q)"
proof -
  define f where "f = (\<lambda>x. THE cp. Compile C (snd x) (the (m x)) = Ret (cp, []))"
  have all: "\<forall>x \<in> set it. \<exists>cp. Compile C (snd x) (the (m x)) = Ret (cp, [])" and ps: "ps = map f it"
    using assms(2) unfolding static_Load_map f_def by auto
  have load: "static_Load C m it' = Ret (Inr (map f it'))" if "set it' = set it" for it'
    unfolding static_Load_map using all that by (simp add: f_def)
  have same: "set it' = set it" if "iterates it' m" for it'
    using iterates_dom [OF that] iterates_dom [OF assms(1)] by simp
  show ?thesis
  proof
    assume no: "\<forall>p \<in> set ps. \<forall>q \<in> set ps. \<not> conflict fuel V r p q"
    show "\<forall>it' ps'. iterates it' m \<longrightarrow> static_Load C m it' = Ret (Inr ps') \<longrightarrow>
        request_verdict fuel V ps' r = request_verdict fuel V ps r"
    proof (intro allI impI)
      fix it' ps' assume "iterates it' m" and l: "static_Load C m it' = Ret (Inr ps')"
      from same [OF this(1)] load have "ps' = map f it'" "set it' = set it" using l by simp_all
      then show "request_verdict fuel V ps' r = request_verdict fuel V ps r"
        by (intro no_conflict_permuted [OF no]) (simp add: ps)
    qed
  next
    assume every: "\<forall>it' ps'. iterates it' m \<longrightarrow> static_Load C m it' = Ret (Inr ps') \<longrightarrow>
        request_verdict fuel V ps' r = request_verdict fuel V ps r"
    show "\<forall>p \<in> set ps. \<forall>q \<in> set ps. \<not> conflict fuel V r p q"
    proof (intro ballI notI)
      fix p q assume "p \<in> set ps" "q \<in> set ps" and c: "conflict fuel V r p q"
      then obtain x y where x: "x \<in> set it" "p = f x" and y: "y \<in> set it" "q = f y" by (auto simp: ps)
      have first: "request_verdict fuel V (f z # map f (remove1 z it)) r = request_verdict fuel V ps r"
        if "z \<in> set it" for z
        using every [rule_format, OF iterates_first [OF assms(1) that] load [OF same [OF iterates_first [OF assms(1) that]]]]
        by (simp only: list.map)
      have "request_verdict fuel V (f x # map f (remove1 x it)) r = request_verdict fuel V (f y # map f (remove1 y it)) r"
        using first [OF x(1)] first [OF y(1)] by simp
      then have "policy_says fuel V r p = policy_says fuel V r q"
        using conflict_orders [OF c] x(2) y(2) by metis
      with c show False by (simp add: conflict_def)
    qed
  qed
qed

text \<open>A policy that denies everything and one that allows everything, in two files.\<close>

definition deny_all :: ValidatingPolicy where
  "deny_all = sample_vpol\<lparr>vp_name := ''deny-all'', vp_variables := [], vp_validations := [''deny'']\<rparr>"

definition allow_all :: ValidatingPolicy where
  "allow_all = sample_vpol\<lparr>vp_name := ''allow-all'', vp_variables := [], vp_validations := [''allow'']\<rparr>"

definition compiled_all :: "string \<Rightarrow> string \<Rightarrow> (string, sample_val) compiledPolicy" where
  "compiled_all name response = \<lparr>cp_name = name, failurePolicy = Fail, matchConditions = [prog_val (SBool True)],
     variables = Map.empty, rules = [prog_val (SResp response)], exceptions = []\<rparr>"

lemma compile_all:
  "Compile sample_compiler deny_all [] = Ret (compiled_all ''deny-all'' ''denied'', [])"
  "Compile sample_compiler allow_all [] = Ret (compiled_all ''allow-all'' ''allowed'', [])"
  by (simp_all add: deny_all_def allow_all_def compiled_all_def Compile_def compile_def sample_compile_defs Let_def http_ResponseType_def)

lemma compiled_all_says: "policy_says fuel sample_api r (compiled_all name response) = Decided (Some response)"
  by (simp add: policy_says_def policy_verdict_def compiled_all_def sample_defs match_verdict_def rule_verdict_def
      rule_data_def setupVariables_def)

theorem static_order_matters_on_conflict_witness:
  "\<exists>it1 ps1 it2 ps2. iterates it1 (newStatic [(0, deny_all), (1, allow_all)] [])
     \<and> static_Load sample_compiler (newStatic [(0, deny_all), (1, allow_all)] []) it1 = Ret (Inr ps1)
     \<and> iterates it2 (newStatic [(0, deny_all), (1, allow_all)] [])
     \<and> static_Load sample_compiler (newStatic [(0, deny_all), (1, allow_all)] []) it2 = Ret (Inr ps2)
     \<and> request_verdict 0 sample_api ps1 ''/'' \<noteq> request_verdict 0 sample_api ps2 ''/''"
proof -
  let ?m = "newStatic [(0, deny_all), (1, allow_all)] []" and ?it = "[(0, deny_all), (1, allow_all)] :: policy_ptr list"
  let ?ps = "[compiled_all ''deny-all'' ''denied'', compiled_all ''allow-all'' ''allowed'']"
  have it: "iterates ?it ?m" by (auto simp: iterates_def newStatic_lookup split: if_splits)
  have l: "static_Load sample_compiler ?m ?it = Ret (Inr ?ps)"
    by (simp add: newStatic_lookup compile_all)
  have "conflict 0 sample_api ''/'' (compiled_all ''deny-all'' ''denied'') (compiled_all ''allow-all'' ''allowed'')"
    by (simp add: conflict_def compiled_all_says)
  then have "\<not> (\<forall>p \<in> set ?ps. \<forall>q \<in> set ?ps. \<not> conflict 0 sample_api ''/'' p q)" by simp
  then obtain it' ps' where "iterates it' ?m" "static_Load sample_compiler ?m it' = Ret (Inr ps')"
    "request_verdict 0 sample_api ps' ''/'' \<noteq> request_verdict 0 sample_api ?ps ''/''"
    using static_order_matters_on_conflict [OF it l, of 0 sample_api "''/''"] by blast
  with it l show ?thesis by blast
qed

end
