(* ===== verification/EventLoops.thy ===== *)
theory EventLoops
  imports Events
begin

text \<open>
  The goroutines of the OpenReports subscriber (\<open>pkg/events/openreports.go\<close>) as program counters
  over one shared state: requests send events, the event loop takes them, counts, encodes and
  pushes them into the ring buffer, and reports are pushed by the event loop itself or, when there
  is an interval, by the flush worker at any time. \<open>Values\<close> of the ring buffer (\<open>ringbuf.go\<close>) and the
  reading of the counters are several steps, as nothing protects them.
\<close>

section \<open>Reading the ring buffer\<close>

text \<open>
  \<open>Values\<close>: first the slice is made for the present number of elements, then every round of the
  loop compares with the number of elements anew. The list holds what was copied so far.
\<close>

datatype values_pc = ValuesMake | ValuesLoop nat "report_result list"

definition index_message :: "nat \<Rightarrow> nat \<Rightarrow> string" where
  "index_message i n = ''index out of range ['' @ itoa (int i) @ ''] with length '' @ itoa (int n)"

fun values_next :: "report_result ringBuffer \<Rightarrow> values_pc \<Rightarrow> (values_pc + report_result list) outcome" where
  "values_next r ValuesMake = Ret (Inl (ValuesLoop (rb_count r) []))"
| "values_next r (ValuesLoop n out) =
     (if length out < rb_count r then
        (if length out < n
         then Ret (Inl (ValuesLoop n (out @ [rb_data r ! ((rb_start r + length out) mod rb_size r)])))
         else Panic (index_message (length out) n))
      else Ret (Inr (out @ replicate (n - length out) empty_result)))"

section \<open>Pushing a report\<close>

text \<open>
  \<open>pushReport\<close>: get the report; an existing one is given the results and then the counters, one after
  the other, while a new one reads the counters first and the results last.
\<close>

datatype push_pc =
    PushGet
  | UpdateValues report values_pc
  | UpdateError report
  | UpdatePass report
  | UpdateFail report
  | UpdateCall report
  | CreateError
  | CreatePass int64
  | CreateFail int64 int64
  | CreateValues int64 int64 int64 values_pc
  | CreateCall report
  | PushDone
  | PushPanic string

datatype report_call = CallCreate (called: report) | CallUpdate (called: report)

text \<open>The answer of the API to \<open>Get\<close> is an argument; the calls that change it are collected.\<close>

fun push_next :: "go_error + report \<Rightarrow> ('r, 'm) openreportsEventSubscriber \<Rightarrow> push_pc \<Rightarrow> push_pc \<times> report_call list" where
  "push_next got o' PushGet =
     (case got of
        Inl err \<Rightarrow> (if is_not_found err then CreateError else PushDone, [])
      | Inr rep \<Rightarrow> (UpdateValues rep ValuesMake, []))"
| "push_next got o' (UpdateValues rep pc) =
     (case values_next (results o') pc of
        Ret (Inl pc') \<Rightarrow> (UpdateValues rep pc', [])
      | Ret (Inr vals) \<Rightarrow> (UpdateError (rep\<lparr>rp_Results := vals\<rparr>), [])
      | Panic msg \<Rightarrow> (PushPanic msg, [])
      | Blocked \<Rightarrow> (UpdateValues rep pc, []))"
| "push_next got o' (UpdateError rep) = (UpdatePass (rep\<lparr>rp_Error := or_errored o'\<rparr>), [])"
| "push_next got o' (UpdatePass rep) = (UpdateFail (rep\<lparr>rp_Pass := or_allowed o'\<rparr>), [])"
| "push_next got o' (UpdateFail rep) = (UpdateCall (rep\<lparr>rp_Fail := or_denied o'\<rparr>), [])"
| "push_next got o' (UpdateCall rep) = (PushDone, [CallUpdate rep])"
| "push_next got o' CreateError = (CreatePass (or_errored o'), [])"
| "push_next got o' (CreatePass e) = (CreateFail e (or_allowed o'), [])"
| "push_next got o' (CreateFail e p) = (CreateValues e p (or_denied o') ValuesMake, [])"
| "push_next got o' (CreateValues e p f pc) =
     (case values_next (results o') pc of
        Ret (Inl pc') \<Rightarrow> (CreateValues e p f pc', [])
      | Ret (Inr vals) \<Rightarrow>
          (CreateCall \<lparr>rp_Name = or_reportName o', rp_Namespace = or_namespace o', rp_resourceVersion = [],
             rp_Error = e, rp_Pass = p, rp_Fail = f, rp_Results = vals\<rparr>, [])
      | Panic msg \<Rightarrow> (PushPanic msg, [])
      | Blocked \<Rightarrow> (CreateValues e p f pc, []))"
| "push_next got o' (CreateCall rep) = (PushDone, [CallCreate rep])"
| "push_next got o' PushDone = (PushDone, [])"
| "push_next got o' (PushPanic msg) = (PushPanic msg, [])"

section \<open>The goroutines\<close>

datatype ('r, 'm) loop_pc =
    LoopSelect
  | LoopEvent "('r, 'm) event"
  | LoopCounted "('r, 'm) event" string "go_error option"
  | LoopPush report_result
  | LoopAdvance
  | LoopReport push_pc
  | LoopPanic string
  | LoopExit

datatype flush_pc = FlushOff | FlushSelect | FlushReport push_pc | FlushExit

text \<open>\<open>re_taken\<close> and \<open>re_calls\<close> record the events counted and the calls made.\<close>

record ('r, 'm) reporting =
  re_sub :: "('r, 'm) openreportsEventSubscriber"
  re_loop :: "('r, 'm) loop_pc"
  re_flush :: flush_pc
  re_done :: bool
  re_taken :: "('r, 'm) event list"
  re_calls :: "report_call list"

definition reporting_start :: "('r, 'm) openreportsEventSubscriber \<Rightarrow> ('r, 'm) reporting" where
  "reporting_start o' = \<lparr>re_sub = o', re_loop = LoopSelect,
     re_flush = (if flushOnInterval o' then FlushSelect else FlushOff), re_done = False, re_taken = [], re_calls = []\<rparr>"

text \<open>A panic in any goroutine ends the process.\<close>

definition process_alive :: "('r, 'm) reporting \<Rightarrow> bool" where
  "process_alive s \<longleftrightarrow> (\<forall>msg. re_loop s \<noteq> LoopPanic msg \<and> re_loop s \<noteq> LoopReport (PushPanic msg)
     \<and> re_flush s \<noteq> FlushReport (PushPanic msg))"

inductive report_move :: "'r event_format \<Rightarrow> ('r, 'm) reporting \<Rightarrow> ('r, 'm) reporting \<Rightarrow> bool" for F s where
  send: "report_move F s (s\<lparr>re_sub := openreports_Push (re_sub s) ev\<rparr>)"
| cancel: "report_move F s (s\<lparr>re_done := True\<rparr>)"
| loop_exit: "re_loop s = LoopSelect \<Longrightarrow> re_done s \<Longrightarrow> report_move F s (s\<lparr>re_loop := LoopExit\<rparr>)"
| loop_take: "re_loop s = LoopSelect \<Longrightarrow> eventChan (re_sub s) = ev # rest \<Longrightarrow>
    report_move F s (s\<lparr>re_sub := (re_sub s)\<lparr>eventChan := rest\<rparr>, re_loop := LoopEvent ev\<rparr>)"
| loop_count: "re_loop s = LoopEvent ev \<Longrightarrow> MustGet (ev_res ev) = Ret (res, err) \<Longrightarrow>
    report_move F s (s\<lparr>re_sub := count_result res (re_sub s), re_loop := LoopCounted ev res err,
      re_taken := re_taken s @ [ev]\<rparr>)"
| loop_panics: "re_loop s = LoopEvent ev \<Longrightarrow> MustGet (ev_res ev) = Panic msg \<Longrightarrow>
    report_move F s (s\<lparr>re_loop := LoopPanic msg\<rparr>)"
| loop_encode_fails: "re_loop s = LoopCounted ev res err \<Longrightarrow> json_Marshal F (ev_req ev) = Inl e \<Longrightarrow>
    report_move F s (s\<lparr>re_loop := LoopSelect\<rparr>)"
| loop_encode: "re_loop s = LoopCounted ev res err \<Longrightarrow> json_Marshal F (ev_req ev) = Inr json \<Longrightarrow>
    report_move F s (s\<lparr>re_loop := LoopPush \<lparr>rr_Result = report_label res, rr_Seconds = t_unix (ev_t ev),
      rr_Nanos = t_nanos (ev_t ev), rr_Description = msgFormat F (t_rfc3339 (ev_t ev)) json (result_string res err)\<rparr>\<rparr>)"
| loop_write: "re_loop s = LoopPush r \<Longrightarrow>
    report_move F s (s\<lparr>re_sub := (re_sub s)\<lparr>results := ring_Push_write (results (re_sub s)) r\<rparr>, re_loop := LoopAdvance\<rparr>)"
| loop_advance: "re_loop s = LoopAdvance \<Longrightarrow>
    report_move F s (s\<lparr>re_sub := (re_sub s)\<lparr>results := ring_Push_advance (results (re_sub s))\<rparr>,
      re_loop := (if flushOnInterval (re_sub s) then LoopSelect else LoopReport PushGet)\<rparr>)"
| loop_report: "re_loop s = LoopReport pc \<Longrightarrow> push_next got (re_sub s) pc = (pc', calls) \<Longrightarrow>
    report_move F s (s\<lparr>re_loop := (if pc' = PushDone then LoopSelect else LoopReport pc'), re_calls := re_calls s @ calls\<rparr>)"
| flush_exit: "re_flush s = FlushSelect \<Longrightarrow> re_done s \<Longrightarrow> report_move F s (s\<lparr>re_flush := FlushExit\<rparr>)"
| flush_tick: "re_flush s = FlushSelect \<Longrightarrow> report_move F s (s\<lparr>re_flush := FlushReport PushGet\<rparr>)"
| flush_report: "re_flush s = FlushReport pc \<Longrightarrow> push_next got (re_sub s) pc = (pc', calls) \<Longrightarrow>
    report_move F s (s\<lparr>re_flush := (if pc' = PushDone then FlushSelect else FlushReport pc'), re_calls := re_calls s @ calls\<rparr>)"

definition report_step :: "'r event_format \<Rightarrow> ('r, 'm) reporting \<Rightarrow> ('r, 'm) reporting \<Rightarrow> bool" where
  "report_step F s s' \<longleftrightarrow> process_alive s \<and> report_move F s s'"

inductive_cases report_moveE: "report_move F s s'"

section \<open>Reading alone\<close>

text \<open>While nothing is pushed, \<open>Values\<close> returns the elements and a report is that of the moment.\<close>

fun values_ok :: "report_result ringBuffer \<Rightarrow> values_pc \<Rightarrow> bool" where
  "values_ok r ValuesMake = True"
| "values_ok r (ValuesLoop n out) = (n = rb_count r \<and> length out \<le> n \<and> out = take (length out) (ring_Values r))"

lemma values_next_ok:
  assumes "values_ok r pc"
  shows "case values_next r pc of Ret (Inl pc') \<Rightarrow> values_ok r pc' | Ret (Inr vals) \<Rightarrow> vals = ring_Values r | _ \<Rightarrow> False"
proof (cases pc)
  case (ValuesLoop n out)
  have len: "length (ring_Values r) = rb_count r" by (simp add: ring_Values_def)
  show ?thesis
  proof (cases "length out < rb_count r")
    case True
    with ValuesLoop assms have "out = take (length out) (ring_Values r)" by simp
    moreover have "ring_Values r ! length out = rb_data r ! ((rb_start r + length out) mod rb_size r)"
      using True by (simp add: ring_Values_def)
    ultimately show ?thesis
      using True ValuesLoop assms len by (simp add: take_Suc_conv_app_nth)
  next
    case False
    with ValuesLoop assms len show ?thesis by simp
  qed
qed simp

definition report_now :: "('r, 'm) openreportsEventSubscriber \<Rightarrow> report \<Rightarrow> bool" where
  "report_now o' rep \<longleftrightarrow> rp_Results rep = ring_Values (results o') \<and> rp_Error rep = or_errored o'
     \<and> rp_Pass rep = or_allowed o' \<and> rp_Fail rep = or_denied o'"

fun push_ok :: "('r, 'm) openreportsEventSubscriber \<Rightarrow> push_pc \<Rightarrow> bool" where
  "push_ok o' PushGet = True"
| "push_ok o' (UpdateValues rep pc) = values_ok (results o') pc"
| "push_ok o' (UpdateError rep) = (rp_Results rep = ring_Values (results o'))"
| "push_ok o' (UpdatePass rep) = (rp_Results rep = ring_Values (results o') \<and> rp_Error rep = or_errored o')"
| "push_ok o' (UpdateFail rep) = (rp_Results rep = ring_Values (results o') \<and> rp_Error rep = or_errored o'
     \<and> rp_Pass rep = or_allowed o')"
| "push_ok o' (UpdateCall rep) = report_now o' rep"
| "push_ok o' CreateError = True"
| "push_ok o' (CreatePass e) = (e = or_errored o')"
| "push_ok o' (CreateFail e p) = (e = or_errored o' \<and> p = or_allowed o')"
| "push_ok o' (CreateValues e p f pc) = (e = or_errored o' \<and> p = or_allowed o' \<and> f = or_denied o' \<and> values_ok (results o') pc)"
| "push_ok o' (CreateCall rep) = report_now o' rep"
| "push_ok o' PushDone = True"
| "push_ok o' (PushPanic msg) = False"

lemma push_next_ok:
  assumes "push_ok o' pc" and "push_next got o' pc = (pc', calls)"
  shows "push_ok o' pc' \<and> (\<forall>c \<in> set calls. report_now o' (called c))"
proof (cases pc)
  case (UpdateValues rep v)
  with assms values_next_ok [of "results o'" v] show ?thesis
    by (auto simp: report_now_def split: outcome.splits sum.splits)
next
  case (CreateValues e p f v)
  with assms values_next_ok [of "results o'" v] show ?thesis
    by (auto simp: report_now_def split: outcome.splits sum.splits)
qed (use assms in \<open>auto simp: report_now_def split: sum.splits if_splits\<close>)

text \<open>Events that arrive meanwhile do not matter.\<close>

lemma push_ok_cong:
  assumes "results o2 = results o1" and "or_errored o2 = or_errored o1" and "or_allowed o2 = or_allowed o1"
    and "or_denied o2 = or_denied o1"
  shows "push_ok o2 pc = push_ok o1 pc"
proof (cases pc)
  case (UpdateValues rep v)
  with assms show ?thesis by simp
qed (use assms in \<open>simp_all add: report_now_def\<close>)

section \<open>Without an interval\<close>

definition entries :: "'r event_format \<Rightarrow> ('r, 'm) event list \<Rightarrow> report_result list" where
  "entries F evs = List.map_filter (report_entry F) evs"

lemma entries_simps [simp]:
  "entries F [] = []"
  "entries F (evs @ [ev]) = entries F evs @ (case report_entry F ev of None \<Rightarrow> [] | Some e \<Rightarrow> [e])"
  by (simp_all add: entries_def List.map_filter_def split: option.splits)

definition class_count :: "string \<Rightarrow> ('r, 'm) event list \<Rightarrow> int64" where
  "class_count c evs = of_nat (length (filter (\<lambda>ev. event_class ev = c) evs))"

lemma class_count_simps [simp]:
  "class_count c [] = 0"
  "class_count c (evs @ [ev]) = class_count c evs + (if event_class ev = c then 1 else 0)"
  by (simp_all add: class_count_def)

text \<open>A report that is exact about some events.\<close>

definition report_exact :: "'r event_format \<Rightarrow> nat \<Rightarrow> ('r, 'm) event list \<Rightarrow> report \<Rightarrow> bool" where
  "report_exact F n evs rep \<longleftrightarrow> rp_Results rep = last_n n (entries F evs) \<and> rp_Pass rep = class_count RequestAllowed evs
     \<and> rp_Fail rep = class_count RequestDenied evs \<and> rp_Error rep = class_count RequestErrored evs"

definition counts_taken :: "('r, 'm) openreportsEventSubscriber \<Rightarrow> ('r, 'm) event list \<Rightarrow> bool" where
  "counts_taken o' evs \<longleftrightarrow> or_allowed o' = class_count RequestAllowed evs \<and> or_denied o' = class_count RequestDenied evs
     \<and> or_errored o' = class_count RequestErrored evs"

fun loop_ok :: "'r event_format \<Rightarrow> report_result ringBuffer \<Rightarrow> ('r, 'm) openreportsEventSubscriber \<Rightarrow> ('r, 'm) event list
    \<Rightarrow> ('r, 'm) loop_pc \<Rightarrow> bool" where
  "loop_ok F ring o' evs (LoopCounted ev res err) =
     (\<exists>es. evs = es @ [ev] \<and> MustGet (ev_res ev) = Ret (res, err) \<and> results o' = foldl ring_Push ring (entries F es))"
| "loop_ok F ring o' evs (LoopPush r) = (\<exists>es. entries F evs = es @ [r] \<and> results o' = foldl ring_Push ring es)"
| "loop_ok F ring o' evs LoopAdvance =
     (\<exists>es r. entries F evs = es @ [r] \<and> results o' = ring_Push_write (foldl ring_Push ring es) r)"
| "loop_ok F ring o' evs (LoopReport pc) = (results o' = foldl ring_Push ring (entries F evs) \<and> push_ok o' pc)"
| "loop_ok F ring o' evs _ = (results o' = foldl ring_Push ring (entries F evs))"

definition reporting_inv :: "'r event_format \<Rightarrow> report_result ringBuffer \<Rightarrow> nat \<Rightarrow> ('r, 'm) reporting \<Rightarrow> bool" where
  "reporting_inv F ring n s \<longleftrightarrow> \<not> flushOnInterval (re_sub s) \<and> re_flush s = FlushOff
     \<and> counts_taken (re_sub s) (re_taken s) \<and> loop_ok F ring (re_sub s) (re_taken s) (re_loop s)
     \<and> (\<forall>c \<in> set (re_calls s). \<exists>k \<le> length (re_taken s). report_exact F n (take k (re_taken s)) (called c))"

lemma openreports_Push_sel [simp]:
  "results (openreports_Push o' ev) = results o'" "or_allowed (openreports_Push o' ev) = or_allowed o'"
  "or_denied (openreports_Push o' ev) = or_denied o'" "or_errored (openreports_Push o' ev) = or_errored o'"
  "flushOnInterval (openreports_Push o' ev) = flushOnInterval o'"
  by (simp_all add: openreports_Push_def)

lemma flushOnInterval_count [simp]: "flushOnInterval (count_result c o') = flushOnInterval o'"
  by (simp add: count_result_def)

lemma loop_ok_cong:
  assumes "results o2 = results o1" and "or_errored o2 = or_errored o1" and "or_allowed o2 = or_allowed o1"
    and "or_denied o2 = or_denied o1"
  shows "loop_ok F ring o2 evs pc = loop_ok F ring o1 evs pc"
  using push_ok_cong [OF assms] assms(1) by (cases pc) simp_all

lemma exact_calls_mono:
  assumes "\<forall>c \<in> A. \<exists>k \<le> length evs. report_exact F n (take k evs) (called c)"
  shows "\<forall>c \<in> A. \<exists>k \<le> length (evs @ evs2). report_exact F n (take k (evs @ evs2)) (called c)"
proof
  fix c assume "c \<in> A"
  with assms obtain k where "k \<le> length evs" "report_exact F n (take k evs) (called c)" by blast
  then show "\<exists>k \<le> length (evs @ evs2). report_exact F n (take k (evs @ evs2)) (called c)"
    by (intro exI [of _ k]) simp
qed

lemma reporting_inv_start:
  assumes "NewOpenreportsSubscriber n False name ns = Ret o0"
  shows "reporting_inv F (results o0) (nat n) (reporting_start o0)"
  using assms
  by (auto simp: reporting_inv_def reporting_start_def NewOpenreportsSubscriber_def bind_outcome_Ret_iff counts_taken_def)

text \<open>The counters and the entries after an event was counted and encoded.\<close>

lemma counted_entry:
  assumes "MustGet (ev_res ev) = Ret (res, err)"
  shows "event_class ev = res"
    and "json_Marshal F (ev_req ev) = Inl e \<Longrightarrow> report_entry F ev = None"
    and "json_Marshal F (ev_req ev) = Inr json \<Longrightarrow> report_entry F ev = Some \<lparr>rr_Result = report_label res,
      rr_Seconds = t_unix (ev_t ev), rr_Nanos = t_nanos (ev_t ev),
      rr_Description = msgFormat F (t_rfc3339 (ev_t ev)) json (result_string res err)\<rparr>"
  using assms by (simp_all add: event_class_def report_entry_def)

lemma report_now_exact:
  assumes "NewRingBuffer empty_result n = Ret ring" and "results o' = foldl ring_Push ring (entries F evs)"
    and "counts_taken o' evs" and "report_now o' rep"
  shows "report_exact F (nat n) evs rep"
proof -
  have "ring_Values ring = []" "rb_size ring = nat n"
    using assms(1) by (auto simp: NewRingBuffer_def ring_Values_def split: if_splits)
  then have "ring_Values (foldl ring_Push ring es) = last_n (nat n) es" for es
    using ring.vals_pushes [OF ring_inv_new [OF assms(1)], of es] by simp
  with assms show ?thesis by (simp add: report_exact_def report_now_def counts_taken_def)
qed

lemma reporting_inv_step:
  assumes new: "NewRingBuffer empty_result n = Ret ring" and inv: "reporting_inv F ring (nat n) s" and "report_step F s s'"
  shows "reporting_inv F ring (nat n) s'"
proof -
  from inv have off: "\<not> flushOnInterval (re_sub s)" "re_flush s = FlushOff"
    and counts: "counts_taken (re_sub s) (re_taken s)" and ok: "loop_ok F ring (re_sub s) (re_taken s) (re_loop s)"
    and calls: "\<forall>c \<in> set (re_calls s). \<exists>k \<le> length (re_taken s). report_exact F (nat n) (take k (re_taken s)) (called c)"
    by (simp_all add: reporting_inv_def)
  from assms(3) have "report_move F s s'" by (simp add: report_step_def)
  then show ?thesis
  proof (cases rule: report_move.cases)
    case (send ev)
    with inv show ?thesis
      using loop_ok_cong [of "openreports_Push (re_sub s) ev" "re_sub s"] by (simp add: reporting_inv_def counts_taken_def)
  next
    case (loop_take ev rest)
    with inv show ?thesis by (simp add: reporting_inv_def counts_taken_def)
  next
    case (loop_count ev res err)
    from loop_count ok have r: "results (re_sub s) = foldl ring_Push ring (entries F (re_taken s))" by simp
    have "counts_taken (count_result res (re_sub s)) (re_taken s @ [ev])"
      using counts counted_entry(1) [OF loop_count(3)] by (simp add: counts_taken_def)
    with loop_count r off exact_calls_mono [OF calls, of "[ev]"] show ?thesis by (simp add: reporting_inv_def)
  next
    case (loop_encode_fails ev res err e)
    with inv show ?thesis by (auto simp: reporting_inv_def counted_entry)
  next
    case (loop_encode ev res err json)
    with inv show ?thesis by (auto simp: reporting_inv_def counted_entry)
  next
    case (loop_write r)
    from loop_write ok obtain es where "entries F (re_taken s) = es @ [r]" "results (re_sub s) = foldl ring_Push ring es" by auto
    with loop_write inv show ?thesis by (simp add: reporting_inv_def counts_taken_def)
  next
    case loop_advance
    from loop_advance ok obtain es r where "entries F (re_taken s) = es @ [r]"
      "results (re_sub s) = ring_Push_write (foldl ring_Push ring es) r" by auto
    with loop_advance inv show ?thesis by (simp add: reporting_inv_def counts_taken_def ring_Push_two_writes)
  next
    case (loop_report pc got pc' cs)
    with ok have r: "results (re_sub s) = foldl ring_Push ring (entries F (re_taken s))" and p: "push_ok (re_sub s) pc" by simp_all
    from push_next_ok [OF p loop_report(3)] have p': "push_ok (re_sub s) pc'"
      and now: "\<forall>c \<in> set cs. report_now (re_sub s) (called c)" by simp_all
    have "\<forall>c \<in> set cs. report_exact F (nat n) (take (length (re_taken s)) (re_taken s)) (called c)"
      using now report_now_exact [OF new r counts] by simp
    with calls have "\<forall>c \<in> set (re_calls s @ cs). \<exists>k \<le> length (re_taken s). report_exact F (nat n) (take k (re_taken s)) (called c)"
      by auto
    with loop_report r p' off counts show ?thesis by (simp add: reporting_inv_def)
  qed (use inv in \<open>simp_all add: reporting_inv_def\<close>)
qed

lemma reporting_inv_reachable:
  assumes "NewOpenreportsSubscriber n False name ns = Ret o0" and "(report_step F)\<^sup>*\<^sup>* (reporting_start o0) s"
  shows "reporting_inv F (results o0) (nat n) s"
proof -
  have new: "NewRingBuffer empty_result n = Ret (results o0)"
    using assms(1) by (auto simp: NewOpenreportsSubscriber_def bind_outcome_Ret_iff)
  from assms(2) show ?thesis
    by (induction rule: rtranclp_induct) (use reporting_inv_start [OF assms(1)] reporting_inv_step [OF new] in blast)+
qed

section \<open>With an interval\<close>

text \<open>Where a flush is while it copies the buffer.\<close>

fun flush_values :: "flush_pc \<Rightarrow> values_pc option" where
  "flush_values (FlushReport (UpdateValues rep v)) = Some v"
| "flush_values (FlushReport (CreateValues e p f v)) = Some v"
| "flush_values _ = None"

lemma values_next_panic:
  "values_next r v = Panic msg \<Longrightarrow> \<exists>n out. v = ValuesLoop n out \<and> n \<le> length out \<and> length out < rb_count r
     \<and> msg = index_message (length out) n"
  by (cases v) (auto split: if_splits)

lemma push_next_panic:
  assumes "push_next got o' pc = (PushPanic msg, calls)" and "pc \<noteq> PushPanic msg"
  shows "\<exists>n out. flush_values (FlushReport pc) = Some (ValuesLoop n out) \<and> n \<le> length out
    \<and> length out < rb_count (results o') \<and> msg = index_message (length out) n"
  using assms by (cases pc) (auto split: sum.splits outcome.splits if_splits dest: values_next_panic)

lemma ring_write_sel [simp]:
  "rb_count (ring_Push_write r v) = rb_count r" "rb_size (ring_Push_write r v) = rb_size r"
  by (simp_all add: ring_Push_write_def)

lemma ring_bounds_reachable:
  assumes "NewOpenreportsSubscriber n flush name ns = Ret o0" and "(report_step F)\<^sup>*\<^sup>* (reporting_start o0) s"
  shows "rb_size (results (re_sub s)) = nat n \<and> rb_count (results (re_sub s)) \<le> nat n"
  using assms(2)
proof (induction rule: rtranclp_induct)
  case base
  then show ?case
    using assms(1) by (auto simp: NewOpenreportsSubscriber_def NewRingBuffer_def bind_outcome_Ret_iff reporting_start_def
        split: if_splits)
next
  case (step s s')
  from step(2) have "report_move F s s'" by (simp add: report_step_def)
  then show ?case
    using step(3) by (cases rule: report_move.cases) (simp_all add: ring_Push_advance_def)
qed

text \<open>A step of a run.\<close>

lemma report_run_step:
  "(report_step F)\<^sup>*\<^sup>* s0 s \<Longrightarrow> process_alive s \<Longrightarrow> report_move F s s' \<Longrightarrow> (report_step F)\<^sup>*\<^sup>* s0 s'"
  by (rule rtranclp.rtrancl_into_rtrancl) (simp_all add: report_step_def)

definition reporting_at :: "('r, 'm) openreportsEventSubscriber \<Rightarrow> ('r, 'm) loop_pc \<Rightarrow> flush_pc \<Rightarrow> ('r, 'm) event list
    \<Rightarrow> report_call list \<Rightarrow> ('r, 'm) reporting" where
  "reporting_at sub loop flush taken calls = \<lparr>re_sub = sub, re_loop = loop, re_flush = flush, re_done = False,
     re_taken = taken, re_calls = calls\<rparr>"

lemma reporting_at_alive:
  "\<forall>msg. loop \<noteq> LoopPanic msg \<and> loop \<noteq> LoopReport (PushPanic msg) \<and> flush \<noteq> FlushReport (PushPanic msg) \<Longrightarrow>
   process_alive (reporting_at sub loop flush taken calls)"
  by (simp add: reporting_at_def process_alive_def)

text \<open>One event on its way into the buffer, whatever the flush worker does.\<close>

lemma event_pushed:
  fixes ev :: "('r, 'm) event" and sub :: "('r, 'm) openreportsEventSubscriber"
  assumes run: "(report_step F)\<^sup>*\<^sup>* s0 (reporting_at sub LoopSelect flush taken calls)"
    and "eventChan sub = []" and must: "MustGet (ev_res ev) = Ret (res, err)" and json: "json_Marshal F (ev_req ev) = Inr json"
    and flush: "\<forall>msg. flush \<noteq> FlushReport (PushPanic msg)"
  obtains r where "(report_step F)\<^sup>*\<^sup>* s0 (reporting_at ((count_result res (openreports_Push sub ev\<lparr>eventChan := []\<rparr>))
      \<lparr>results := ring_Push (results sub) r\<rparr>) (if flushOnInterval sub then LoopSelect else LoopReport PushGet) flush
      (taken @ [ev]) calls)"
proof -
  let ?st = "\<lambda>sub loop taken. reporting_at sub loop flush taken calls"
  let ?o1 = "openreports_Push sub ev" and ?t = "taken @ [ev]"
  let ?o2 = "?o1\<lparr>eventChan := []\<rparr>"
  let ?o3 = "count_result res ?o2"
  have alive: "process_alive (?st sub loop taken)" if "\<forall>msg. loop \<noteq> LoopPanic msg \<and> loop \<noteq> LoopReport (PushPanic msg)"
    for sub loop taken
    using that flush by (simp add: reporting_at_alive)
  obtain r where enc: "report_move F (?st ?o3 (LoopCounted ev res err) ?t) (?st ?o3 (LoopPush r) ?t)"
    using report_move.loop_encode [of "?st ?o3 (LoopCounted ev res err) ?t" ev res err F json] json
    by (simp add: reporting_at_def)
  let ?o4 = "?o3\<lparr>results := ring_Push_write (results ?o3) r\<rparr>"
  let ?o5 = "?o4\<lparr>results := ring_Push_advance (results ?o4)\<rparr>"
  have chan: "eventChan ?o1 = [ev]" using assms(2) by (simp add: openreports_Push_def try_send_def chan_capacity_def)
  note go = report_run_step [of F s0]
  have 1: "(report_step F)\<^sup>*\<^sup>* s0 (?st ?o1 LoopSelect taken)"
    using go [OF run alive] report_move.send [of F "?st sub LoopSelect taken" ev] by (simp add: reporting_at_def)
  have 2: "(report_step F)\<^sup>*\<^sup>* s0 (?st ?o2 (LoopEvent ev) taken)"
    using go [OF 1 alive] report_move.loop_take [of "?st ?o1 LoopSelect taken" ev "[]" F] chan by (simp add: reporting_at_def)
  have 3: "(report_step F)\<^sup>*\<^sup>* s0 (?st ?o3 (LoopCounted ev res err) ?t)"
    using go [OF 2 alive] report_move.loop_count [of "?st ?o2 (LoopEvent ev) taken" ev res err F] must
    by (simp add: reporting_at_def)
  have 4: "(report_step F)\<^sup>*\<^sup>* s0 (?st ?o3 (LoopPush r) ?t)"
    using go [OF 3 alive enc] by simp
  have 5: "(report_step F)\<^sup>*\<^sup>* s0 (?st ?o4 LoopAdvance ?t)"
    using go [OF 4 alive] report_move.loop_write [of "?st ?o3 (LoopPush r) ?t" r F] by (simp add: reporting_at_def)
  have "(report_step F)\<^sup>*\<^sup>* s0 (?st ?o5 (if flushOnInterval sub then LoopSelect else LoopReport PushGet) ?t)"
    using go [OF 5 alive] report_move.loop_advance [of "?st ?o4 LoopAdvance ?t" F] by (simp add: reporting_at_def)
  then show thesis by (intro that [of r]) (simp add: ring_Push_two_writes)
qed

lemma flush_can_panic:
  fixes ev :: "('r, 'm) event" and o0 :: "('r, 'm) openreportsEventSubscriber"
  assumes "NewOpenreportsSubscriber n True name ns = Ret o0"
    and must: "MustGet (ev_res ev) = Ret (res, err)" and json: "json_Marshal F (ev_req ev) = Inr json"
  shows "\<exists>s. (report_step F)\<^sup>*\<^sup>* (reporting_start o0) s \<and> re_flush s = FlushReport (PushPanic (index_message 0 0))"
proof -
  have ring: "rb_count (results o0) = 0" "0 < rb_size (results o0)" and o0: "flushOnInterval o0" "eventChan o0 = []"
    using assms(1) by (auto simp: NewOpenreportsSubscriber_def NewRingBuffer_def bind_outcome_Ret_iff split: if_splits)
  let ?rep = "newReport o0"
  let ?f = "FlushReport (UpdateValues ?rep (ValuesLoop 0 []))"
  let ?st = "\<lambda>flush. reporting_at o0 LoopSelect flush [] []"
  have alive: "process_alive (reporting_at sub LoopSelect flush taken [])"
    if "\<forall>msg. flush \<noteq> FlushReport (PushPanic msg)" for sub flush taken
    using that by (simp add: reporting_at_alive)
  note go = report_run_step [of F "reporting_start o0"]
  have 0: "(report_step F)\<^sup>*\<^sup>* (reporting_start o0) (?st FlushSelect)"
    using o0(1) by (simp add: reporting_start_def reporting_at_def)
  have 1: "(report_step F)\<^sup>*\<^sup>* (reporting_start o0) (?st (FlushReport PushGet))"
    using go [OF 0 alive] report_move.flush_tick [of "?st FlushSelect" F] by (simp add: reporting_at_def)
  have 2: "(report_step F)\<^sup>*\<^sup>* (reporting_start o0) (?st (FlushReport (UpdateValues ?rep ValuesMake)))"
    using go [OF 1 alive] report_move.flush_report [of "?st (FlushReport PushGet)" PushGet "Inr ?rep" _ _ F]
    by (simp add: reporting_at_def)
  have 3: "(report_step F)\<^sup>*\<^sup>* (reporting_start o0) (?st ?f)"
    using go [OF 2 alive] report_move.flush_report [of "?st (FlushReport (UpdateValues ?rep ValuesMake))"
      "UpdateValues ?rep ValuesMake" "Inr ?rep" _ _ F] ring
    by (simp add: reporting_at_def)
  obtain r where 4: "(report_step F)\<^sup>*\<^sup>* (reporting_start o0) (reporting_at
      ((count_result res (openreports_Push o0 ev\<lparr>eventChan := []\<rparr>))\<lparr>results := ring_Push (results o0) r\<rparr>) LoopSelect ?f [ev] [])"
    using event_pushed [OF 3 o0(2) must json] o0(1) by auto
  have count: "rb_count (ring_Push (results o0) r) = 1" using ring by (simp add: ring_Push_def)
  let ?s = "reporting_at ((count_result res (openreports_Push o0 ev\<lparr>eventChan := []\<rparr>))\<lparr>results := ring_Push (results o0) r\<rparr>)
    LoopSelect ?f [ev] []"
  have "report_move F ?s (?s\<lparr>re_flush := FlushReport (PushPanic (index_message 0 0))\<rparr>)"
    using report_move.flush_report [of ?s "UpdateValues ?rep (ValuesLoop 0 [])" "Inr ?rep" _ _ F] count
    by (simp add: reporting_at_def)
  then have "(report_step F)\<^sup>*\<^sup>* (reporting_start o0) (?s\<lparr>re_flush := FlushReport (PushPanic (index_message 0 0))\<rparr>)"
    using go [OF 4 alive] by simp
  then show ?thesis by (intro exI conjI) (assumption, simp)
qed

section \<open>Properties\<close>

text \<open>
  C20. Without an interval the reports are right whatever happens meanwhile: in every interleaving of
  requests, the event loop and the end of the context, each report sent to the API is exact about
  the events counted up to some moment, and no read of the buffer panics.
\<close>

theorem reports_exact_without_interval:
  assumes "NewOpenreportsSubscriber n False name ns = Ret o0" and "(report_step F)\<^sup>*\<^sup>* (reporting_start o0) s"
  shows "(\<forall>c \<in> set (re_calls s). \<exists>k \<le> length (re_taken s). report_exact F (nat n) (take k (re_taken s)) (called c))
    \<and> re_flush s = FlushOff \<and> (\<forall>msg. re_loop s \<noteq> LoopReport (PushPanic msg))"
  using reporting_inv_reachable [OF assms] by (cases "re_loop s") (auto simp: reporting_inv_def)

text \<open>One allowed request: the loop is about to make a report that lists it and counts it.\<close>

definition json_format :: "nat event_format" where
  "json_format = \<lparr>json_Marshal = (\<lambda>_. Inr ''{}''), msgFormat = (\<lambda>t j r. j)\<rparr>"

definition allowed_event :: "(nat, unit) event" where
  "allowed_event = \<lparr>ev_t = \<lparr>t_unix = 0, t_nanos = 0, t_rfc3339 = []\<rparr>, ev_req = 0,
     ev_res = NewResultAccessor (HttpResult \<lparr>resp_Ok = Some (), resp_Denied = None\<rparr>) None\<rparr>"

lemma allowed_event_allowed: "MustGet (ev_res allowed_event) = Ret (RequestAllowed, None)"
  "json_Marshal json_format (ev_req allowed_event) = Inr ''{}''"
  by (simp_all add: allowed_event_def json_format_def MustGet_def NewResultAccessor_def)

lemma loop_report_runs:
  assumes "(report_step F)\<^sup>*\<^sup>* s0 (reporting_at sub (LoopReport pc) FlushOff taken calls)"
    and "push_next got sub pc = (pc', calls')" and "\<forall>msg. pc \<noteq> PushPanic msg"
  shows "(report_step F)\<^sup>*\<^sup>* s0 (reporting_at sub (if pc' = PushDone then LoopSelect else LoopReport pc') FlushOff taken (calls @ calls'))"
  using report_run_step [OF assms(1) reporting_at_alive]
    report_move.loop_report [of "reporting_at sub (LoopReport pc) FlushOff taken calls" pc got pc' calls' F] assms(2,3)
  by (simp add: reporting_at_def)

theorem reports_exact_without_interval_witness:
  "\<exists>(o0 :: (nat, unit) openreportsEventSubscriber) s rep. NewOpenreportsSubscriber 3 False ''r'' ''ns'' = Ret o0
     \<and> (report_step json_format)\<^sup>*\<^sup>* (reporting_start o0) s \<and> re_calls s = [CallUpdate rep]
     \<and> (\<exists>k \<le> 1. report_exact json_format 3 (take k [allowed_event]) rep)"
proof -
  obtain o0 :: "(nat, unit) openreportsEventSubscriber" where o: "NewOpenreportsSubscriber 3 False ''r'' ''ns'' = Ret o0"
    by (simp add: NewOpenreportsSubscriber_def NewRingBuffer_def)
  then have o0: "eventChan o0 = []" "\<not> flushOnInterval o0" "rb_count (results o0) = 0" "rb_size (results o0) = 3"
    by (auto simp: NewOpenreportsSubscriber_def NewRingBuffer_def bind_outcome_Ret_iff)
  have "(report_step json_format)\<^sup>*\<^sup>* (reporting_start o0) (reporting_at o0 LoopSelect FlushOff [] [])"
    using o0(2) by (simp add: reporting_start_def reporting_at_def)
  from event_pushed [OF this o0(1) allowed_event_allowed] o0(2) obtain r where
    1: "(report_step json_format)\<^sup>*\<^sup>* (reporting_start o0) (reporting_at ((count_result RequestAllowed
      (openreports_Push o0 allowed_event\<lparr>eventChan := []\<rparr>))\<lparr>results := ring_Push (results o0) r\<rparr>) (LoopReport PushGet) FlushOff
      [allowed_event] [])" by auto
  define sub where "sub = (count_result RequestAllowed (openreports_Push o0 allowed_event\<lparr>eventChan := []\<rparr>))
    \<lparr>results := ring_Push (results o0) r\<rparr>"
  have c: "rb_count (results sub) = 1" using o0 by (simp add: sub_def ring_Push_def)
  let ?rep = "newReport o0" and ?v = "rb_data (results sub) ! (rb_start (results sub) mod rb_size (results sub))"
  let ?at = "\<lambda>pc calls. reporting_at sub (LoopReport pc) FlushOff [allowed_event] calls"
  let ?runs = "\<lambda>s. (report_step json_format)\<^sup>*\<^sup>* (reporting_start o0) s"
  have go: "?runs (?at pc' [])" if "?runs (?at pc [])" "push_next (Inr ?rep) sub pc = (pc', [])" "\<forall>msg. pc \<noteq> PushPanic msg" "pc' \<noteq> PushDone"
    for pc pc'
    using loop_report_runs [OF that(1-3)] that(4) by simp
  have 2: "?runs (?at (UpdateValues ?rep ValuesMake) [])" by (rule go [OF 1 [folded sub_def]]) simp_all
  have 3: "?runs (?at (UpdateValues ?rep (ValuesLoop 1 [])) [])" by (rule go [OF 2]) (simp_all add: c)
  have 4: "?runs (?at (UpdateValues ?rep (ValuesLoop 1 [?v])) [])" by (rule go [OF 3]) (simp_all add: c)
  let ?r1 = "?rep\<lparr>rp_Results := [?v]\<rparr>"
  have 5: "?runs (?at (UpdateError ?r1) [])" by (rule go [OF 4]) (simp_all add: c)
  let ?r2 = "?r1\<lparr>rp_Error := or_errored sub\<rparr>"
  have 6: "?runs (?at (UpdatePass ?r2) [])" by (rule go [OF 5]) simp_all
  let ?r3 = "?r2\<lparr>rp_Pass := or_allowed sub\<rparr>"
  have 7: "?runs (?at (UpdateFail ?r3) [])" by (rule go [OF 6]) simp_all
  let ?r4 = "?r3\<lparr>rp_Fail := or_denied sub\<rparr>"
  have 8: "?runs (?at (UpdateCall ?r4) [])" by (rule go [OF 7]) simp_all
  have 9: "?runs (reporting_at sub LoopSelect FlushOff [allowed_event] [CallUpdate ?r4])"
    using loop_report_runs [OF 8, of "Inr ?rep" PushDone "[CallUpdate ?r4]"] by simp
  have "\<exists>k \<le> 1. report_exact json_format 3 (take k [allowed_event]) ?r4"
    using reports_exact_without_interval [OF o 9] by (simp add: reporting_at_def)
  moreover have "re_calls (reporting_at sub LoopSelect FlushOff [allowed_event] [CallUpdate ?r4]) = [CallUpdate ?r4]"
    by (simp add: reporting_at_def)
  ultimately show ?thesis using o 9 by blast
qed

text \<open>
  C19. With an interval a flush can end the process: an event pushed after the flush made its slice
  and before it copied the elements makes the copy run past the slice. The panic needs a buffer
  that is not full when the flush starts to read it; a flush of a full buffer never panics.
\<close>

theorem interval_flush_panics_while_filling:
  fixes ev :: "('r, 'm) event" and o0 :: "('r, 'm) openreportsEventSubscriber"
  assumes "NewOpenreportsSubscriber n True name ns = Ret o0"
    and "MustGet (ev_res ev) = Ret (res, err)" and "json_Marshal F (ev_req ev) = Inr json"
  shows "(\<exists>s. (report_step F)\<^sup>*\<^sup>* (reporting_start o0) s \<and> re_flush s = FlushReport (PushPanic (index_message 0 0)))
    \<and> (\<forall>s s' msg. (report_step F)\<^sup>*\<^sup>* (reporting_start o0) s \<and> report_step F s s' \<and> re_flush s' = FlushReport (PushPanic msg)
        \<longrightarrow> (\<exists>m out. flush_values (re_flush s) = Some (ValuesLoop m out) \<and> m < rb_count (results (re_sub s))
              \<and> rb_count (results (re_sub s)) \<le> nat n))"
proof (intro conjI allI impI, goal_cases)
  case 1
  show ?case by (rule flush_can_panic [OF assms])
next
  case (2 s s' msg)
  then have alive: "process_alive s" and move: "report_move F s s'" and panic: "re_flush s' = FlushReport (PushPanic msg)"
    by (simp_all add: report_step_def)
  from alive have "re_flush s \<noteq> FlushReport (PushPanic msg)" by (simp add: process_alive_def)
  with move panic obtain pc got calls where pc: "re_flush s = FlushReport pc" "pc \<noteq> PushPanic msg"
    "push_next got (re_sub s) pc = (PushPanic msg, calls)"
    by (cases rule: report_move.cases) (auto split: if_splits)
  from push_next_panic [OF pc(3,2)] pc(1) ring_bounds_reachable [OF assms(1)] 2 show ?case
    by (metis order_le_less_trans)
qed

theorem interval_flush_panics_while_filling_witness:
  "\<exists>(o0 :: (nat, unit) openreportsEventSubscriber) s. NewOpenreportsSubscriber 3 True ''r'' ''ns'' = Ret o0
     \<and> (report_step json_format)\<^sup>*\<^sup>* (reporting_start o0) s \<and> re_flush s = FlushReport (PushPanic (index_message 0 0))"
proof -
  obtain o0 :: "(nat, unit) openreportsEventSubscriber" where o: "NewOpenreportsSubscriber 3 True ''r'' ''ns'' = Ret o0"
    by (simp add: NewOpenreportsSubscriber_def NewRingBuffer_def)
  from interval_flush_panics_while_filling [OF o allowed_event_allowed] o show ?thesis by blast
qed

end
