(* ===== verification/Admitted.thy ===== *)
theory Admitted
  imports Admission StoreCache
begin

text \<open>
  What the validation webhook (\<open>pkg/webhook/validation\<close>) promises to the in-cluster source
  (\<open>pkg/engine/sources/kube.go\<close>): it compiles policies without exceptions, and nothing validates
  exceptions, which the source compiles together with the policy.
\<close>

section \<open>Exceptions are compiled one by one\<close>

definition exception_compiles :: "('e, 'ast, 'in, 'v) cel_compiler \<Rightarrow> ValidatingPolicy \<Rightarrow> PolicyException \<Rightarrow> bool" where
  "exception_compiles C policy ex \<longleftrightarrow> (\<exists>cp. Compile C policy [ex] = Ret (cp, []))"

lemma Compile_exceptions_separately:
  assumes "Compile C policy [] = Ret (cp0, [])"
  shows "if \<forall>ex \<in> set exs. exception_compiles C policy ex then \<exists>cp. Compile C policy exs = Ret (cp, [])
    else Compile C policy exs = Panic nil_deref"
proof -
  from assms obtain env pr pr' mcs vars rs where front: "compile_front C policy = Inr (env, pr, pr', mcs, vars, rs)"
    by (rule Compile_ok_front)
  then have "exception_compiles C policy ex \<longleftrightarrow> (\<exists>progs. compile_exception_conds C env pr' (pe_matchConditions ex) = Inr progs)" for ex
    by (simp add: exception_compiles_def Compile_by_front)
  with front show ?thesis by (simp add: Compile_by_front)
qed

text \<open>The exceptions of the store that are compiled with a policy.\<close>

definition own_exceptions :: "string list \<Rightarrow> compositeStore \<Rightarrow> ValidatingPolicy \<Rightarrow> PolicyException list" where
  "own_exceptions it s policy =
     [ex \<leftarrow> List.map_filter (content_of s (vp_name policy)) it. pe_evaluationMode ex = vp_evaluationMode policy]"

lemma kube_compile_own:
  assumes "store_inv s" and "\<not> locked s" and "st_policies s (vp_name policy) = Some a"
  shows "kube_compile C it policy s = bind_outcome (Compile C policy (own_exceptions it s policy)) (\<lambda>res. Ret (s, Inr res))"
proof -
  from store_inv_policy [OF assms(1,3)] obtain p where p: "pol_heap s a = Some p" by blast
  have u: "Unlock (s\<lparr>locked := True\<rparr>) = s" using assms(2) by (simp add: Unlock_def)
  show ?thesis
    using assms(2,3) p by (simp add: kube_compile_def Lock_def Let_def u matching_exceptions_content [OF assms(3) p] own_exceptions_def)
qed

section \<open>Property\<close>

text \<open>
  C18. A policy that the webhook of its mode admitted never fails to compile in the store: with the
  exceptions that are linked to it, it compiles if each of them compiles with it, and otherwise the
  compilation panics. Nothing validates an exception, so one that does not compile ends every
  compilation of the policies it names.
\<close>

theorem admitted_policy_fails_only_on_exceptions:
  assumes "store_reachable C s" and "\<not> locked s" and "st_policies s (vp_name policy) \<noteq> None"
    and "ValidateCreate (vpolCompileFunc (vp_evaluationMode policy) C) policy = Ret ([], None)"
  shows "if \<forall>ex \<in> set (own_exceptions it s policy). exception_compiles C policy ex
    then \<exists>cp. kube_compile C it policy s = Ret (s, Inr (cp, []))
    else kube_compile C it policy s = Panic nil_deref"
proof -
  from assms(3) obtain a where a: "st_policies s (vp_name policy) = Some a" by blast
  from assms(4) obtain cp0 where "Compile C policy [] = Ret (cp0, [])" by (auto simp: validator_accepts_iff)
  from Compile_exceptions_separately [OF this, of "own_exceptions it s policy"]
    kube_compile_own [OF store_reachable_inv [OF assms(1)] assms(2) a, of C it]
  show ?thesis by (auto split: if_splits)
qed

theorem admitted_policy_fails_only_on_exceptions_witness:
  "\<exists>cp. kube_compile sample_compiler [''polex''] sample_vpol sample_store = Ret (sample_store, Inr (cp, []))"
proof -
  have v: "ValidateCreate (vpolCompileFunc (vp_evaluationMode sample_vpol) sample_compiler) sample_vpol = Ret ([], None)"
    unfolding validator_accepts_iff
    by (intro disjI2) (simp add: Compile_def compile_def sample_compile_defs Let_def http_ResponseType_def)
  have "own_exceptions [''polex''] sample_store sample_vpol = [sample_polex ''isAdmin'']"
    by (simp add: own_exceptions_def content_of_def linked_to_def sample_polex_def map_filter_def sample_store_eval sample_fields)
  then have "\<forall>ex \<in> set (own_exceptions [''polex''] sample_store sample_vpol). exception_compiles sample_compiler sample_vpol ex"
    using sample_Compile by (simp add: exception_compiles_def)
  then show ?thesis
    using admitted_policy_fails_only_on_exceptions [OF sample_store_reachable _ _ v, of "[''polex'']"]
    by (simp add: sample_store_eval sample_fields)
qed

end
