(* ===== verification/CommandRun.thy ===== *)
theory CommandRun
  imports Commands "HOL-Library.Multiset"
begin

text \<open>
  Running a serve command: the tasks it starts run in one group under one context
  (\<open>pkg/commands/serve\<close>), each an HTTP server, a gRPC server or the manager, inside the signal
  handling of \<open>pkg/signals\<close>. The group is described twice: by what it promises, with tasks that
  just end, and in detail, with the steps of the servers of theory ServerRun; the details refine
  the promise. Of the steps of a process some are taken by its environment (a signal, a kill, a
  server or manager that fails by itself); that a command ends is shown of its own steps alone.
\<close>

section \<open>What a group of tasks promises\<close>

text \<open>
  A task that ends cancels the common context, and the command returns when all tasks have ended,
  with the errors of the set-up and of the tasks. The state of a task is \<open>None\<close> while it runs and
  its errors once it has ended.
\<close>

record group_run =
  g_tasks :: "go_error list option list"
  g_cancelled :: bool
  g_returned :: "go_error list option"

definition group_start :: "go_error option \<Rightarrow> nat \<Rightarrow> group_run" where
  "group_start err n = \<lparr>g_tasks = replicate n None, g_cancelled = (err \<noteq> None), g_returned = None\<rparr>"

inductive group_step :: "(go_error list list \<Rightarrow> go_error list) \<Rightarrow> go_error option \<Rightarrow> group_run \<Rightarrow> group_run \<Rightarrow> bool"
  for order err where
  group_cancelled: "\<not> g_cancelled s \<Longrightarrow> group_step order err s (s\<lparr>g_cancelled := True\<rparr>)"
| group_task_ends: "i < length (g_tasks s) \<Longrightarrow> g_tasks s ! i = None \<Longrightarrow>
    group_step order err s (s\<lparr>g_tasks := (g_tasks s)[i := Some res], g_cancelled := True\<rparr>)"
| group_return: "g_returned s = None \<Longrightarrow> None \<notin> set (g_tasks s) \<Longrightarrow>
    group_step order err s (s\<lparr>g_returned := Some (Combine [err] @ order (map the (g_tasks s))), g_cancelled := True\<rparr>)"

inductive_cases group_stepE: "group_step order err s s'"

definition group_inv :: "(go_error list list \<Rightarrow> go_error list) \<Rightarrow> go_error option \<Rightarrow> group_run \<Rightarrow> bool" where
  "group_inv order err s \<longleftrightarrow>
     (\<forall>t \<in> set (g_tasks s). t \<noteq> None \<longrightarrow> g_cancelled s)
     \<and> (\<forall>errs. g_returned s = Some errs \<longrightarrow>
          None \<notin> set (g_tasks s) \<and> g_cancelled s \<and> errs = Combine [err] @ order (map the (g_tasks s)))"

lemma group_inv_start: "group_inv order err (group_start err n)"
  by (auto simp: group_inv_def group_start_def)

lemma group_inv_step:
  assumes "group_inv order err s" and "group_step order err s s'"
  shows "group_inv order err s'"
  using assms(2)
proof (cases rule: group_step.cases)
  case (group_task_ends i res)
  then have "None \<in> set (g_tasks s)" by (metis nth_mem)
  with assms(1) group_task_ends show ?thesis by (auto simp: group_inv_def)
qed (use assms(1) in \<open>auto simp: group_inv_def\<close>)

section \<open>Tasks\<close>

text \<open>A gRPC server with \<open>True\<close> accepts a check that never returns.\<close>

datatype task_kind = HttpServing string string | GrpcServing bool | Managing

text \<open>
  A task with the position of its error among the errors of the command and the error its server
  is constructed with (an expression that does not compile, an address that is taken), if any.
\<close>

record task_spec =
  t_kind :: task_kind
  t_rank :: nat
  t_error :: "go_error option"

text \<open>A task is not started yet, is running a server, could not start one, or has ended.\<close>

datatype task_state =
    TaskNew
  | TaskUp server_run
  | TaskFailed go_error
  | TaskDone server_run
  | ManagerDone "go_error option"

fun task_errs :: "task_state \<Rightarrow> go_error list option" where
  "task_errs (TaskFailed err) = Some [err]"
| "task_errs (TaskDone s) = (case r_main s of MainReturned errs \<Rightarrow> Some errs | _ \<Rightarrow> None)"
| "task_errs (ManagerDone err) = Some (Combine [err])"
| "task_errs _ = None"

definition task_ended :: "task_state \<Rightarrow> bool" where
  "task_ended t \<longleftrightarrow> task_errs t \<noteq> None"

fun serving :: "task_kind \<Rightarrow> server_run \<Rightarrow> server_run \<Rightarrow> bool" where
  "serving (HttpServing certFile keyFile) = RunHttp certFile keyFile"
| "serving (GrpcServing stuck) = RunGrpc stuck"
| "serving Managing = (\<lambda>s s'. False)"

text \<open>
  The steps of a task. The context of a server is a child of the one of the group: it is cancelled
  by the server itself or once the context of the group (\<open>cancelled\<close>) is. The manager ends with an
  error at any time and without one once its context is cancelled.
\<close>

inductive task_step :: "task_spec \<Rightarrow> bool \<Rightarrow> task_state \<Rightarrow> task_state \<Rightarrow> bool" for spec cancelled where
  task_fails: "t_kind spec \<noteq> Managing \<Longrightarrow> t_error spec = Some err \<Longrightarrow> task_step spec cancelled TaskNew (TaskFailed err)"
| task_starts: "t_kind spec \<noteq> Managing \<Longrightarrow> t_error spec = None \<Longrightarrow> task_step spec cancelled TaskNew (TaskUp server_start)"
| task_serves: "serving (t_kind spec) s s' \<Longrightarrow>
    (r_cancelled s' \<Longrightarrow> r_cancelled s \<or> r_main s = MainCancel \<or> cancelled) \<Longrightarrow>
    task_step spec cancelled (TaskUp s) (TaskUp s')"
| task_returns: "returned s \<Longrightarrow> task_step spec cancelled (TaskUp s) (TaskDone s)"
| manager_fails: "t_kind spec = Managing \<Longrightarrow> task_step spec cancelled TaskNew (ManagerDone (Some err))"
| manager_ends: "t_kind spec = Managing \<Longrightarrow> cancelled \<Longrightarrow> task_step spec cancelled TaskNew (ManagerDone None)"

inductive_cases task_stepE: "task_step spec cancelled t t'"

text \<open>The steps a task does not take by itself: its server or the manager fails although nobody told it to end.\<close>

fun spontaneous :: "bool \<Rightarrow> task_state \<Rightarrow> task_state \<Rightarrow> bool" where
  "spontaneous cancelled TaskNew (ManagerDone _) = (\<not> cancelled)"
| "spontaneous cancelled (TaskUp s) (TaskUp s') = fails_by_itself s s'"
| "spontaneous _ _ _ = False"

lemma spontaneous_refl [simp]: "\<not> spontaneous c t t"
  by (cases t) (simp_all add: fails_by_itself_def)

section \<open>Commands\<close>

record command_run =
  cr_tasks :: "task_state list"
  cr_cancelled :: bool
  cr_returned :: "go_error list option"

definition command_start :: "go_error option \<Rightarrow> nat \<Rightarrow> command_run" where
  "command_start err n = \<lparr>cr_tasks = replicate n TaskNew, cr_cancelled = (err \<noteq> None), cr_returned = None\<rparr>"

text \<open>\<open>multierr.Combine(err, probesErr, serverErr, mgrErr)\<close>: the errors in the order of the ranks.\<close>

definition rank_order :: "task_spec list \<Rightarrow> go_error list list \<Rightarrow> go_error list" where
  "rank_order specs rs = concat (map (\<lambda>k. concat [r. (t, r) \<leftarrow> zip specs rs, t_rank t = k]) [0, 1, 2])"

text \<open>\<open>parent\<close>: the context the command was given is cancelled.\<close>

inductive command_step :: "task_spec list \<Rightarrow> go_error option \<Rightarrow> bool \<Rightarrow> command_run \<Rightarrow> command_run \<Rightarrow> bool"
  for specs err parent where
  command_cancelled: "parent \<Longrightarrow> \<not> cr_cancelled s \<Longrightarrow> command_step specs err parent s (s\<lparr>cr_cancelled := True\<rparr>)"
| command_task: "i < length specs \<Longrightarrow> i < length (cr_tasks s) \<Longrightarrow>
    task_step (specs ! i) (cr_cancelled s) (cr_tasks s ! i) t \<Longrightarrow>
    command_step specs err parent s
      (s\<lparr>cr_tasks := (cr_tasks s)[i := t], cr_cancelled := (cr_cancelled s \<or> task_ended t)\<rparr>)"
| command_return: "cr_returned s = None \<Longrightarrow> \<forall>t \<in> set (cr_tasks s). task_ended t \<Longrightarrow>
    command_step specs err parent s
      (s\<lparr>cr_returned := Some (Combine [err] @ rank_order specs (map (the \<circ> task_errs) (cr_tasks s))),
         cr_cancelled := True\<rparr>)"

inductive_cases command_stepE: "command_step specs err parent s s'"

section \<open>The group is refined\<close>

definition group_of :: "command_run \<Rightarrow> group_run" where
  "group_of s = \<lparr>g_tasks = map task_errs (cr_tasks s), g_cancelled = cr_cancelled s, g_returned = cr_returned s\<rparr>"

lemma group_of_start: "group_of (command_start err n) = group_start err n"
  by (simp add: group_of_def command_start_def group_start_def)

lemma task_step_running: "task_step spec c t t' \<Longrightarrow> task_errs t = None"
  by (erule task_stepE) auto

lemma command_refines_group:
  assumes "command_step specs err parent s s'"
  shows "group_of s' = group_of s \<or> group_step (rank_order specs) err (group_of s) (group_of s')"
  using assms
proof (cases rule: command_step.cases)
  case command_cancelled
  then show ?thesis using group_step.group_cancelled [of "group_of s" "rank_order specs" err] by (simp add: group_of_def)
next
  case (command_task i t)
  note run = task_step_running [OF command_task(4)]
  have g: "group_of s' = (group_of s)\<lparr>g_tasks := (g_tasks (group_of s))[i := task_errs t],
      g_cancelled := cr_cancelled s \<or> task_ended t\<rparr>"
    using command_task by (simp add: group_of_def map_update)
  show ?thesis
  proof (cases "task_errs t")
    case None
    with run command_task g have "group_of s' = group_of s"
      by (simp add: group_of_def task_ended_def map_update [symmetric] list_update_same_conv)
    then show ?thesis ..
  next
    case (Some errs)
    with run command_task g group_task_ends [of i "group_of s" "rank_order specs" err errs] show ?thesis
      by (simp add: group_of_def task_ended_def)
  qed
next
  case command_return
  then have "None \<notin> set (g_tasks (group_of s))" by (auto simp: group_of_def task_ended_def)
  with command_return group_return [of "group_of s" "rank_order specs" err] show ?thesis
    by (simp add: group_of_def comp_def)
qed

section \<open>Invariant and progress\<close>

text \<open>A task stays in the states of its kind, and a server that is up or done keeps its invariant.\<close>

fun serving_inv :: "task_kind \<Rightarrow> server_run \<Rightarrow> bool" where
  "serving_inv (HttpServing certFile keyFile) s = http_inv certFile keyFile s"
| "serving_inv (GrpcServing stuck) s = grpc_inv stuck s"
| "serving_inv Managing s = False"

definition task_ok :: "task_spec \<Rightarrow> task_state \<Rightarrow> bool" where
  "task_ok spec t = (case t of
     TaskNew \<Rightarrow> True
   | TaskUp s \<Rightarrow> serving_inv (t_kind spec) s \<and> t_error spec = None
   | TaskFailed err \<Rightarrow> t_kind spec \<noteq> Managing \<and> t_error spec = Some err
   | TaskDone s \<Rightarrow> serving_inv (t_kind spec) s \<and> returned s \<and> t_error spec = None
   | ManagerDone err \<Rightarrow> t_kind spec = Managing)"

lemma serving_inv_start: "k \<noteq> Managing \<Longrightarrow> serving_inv k server_start"
  using http_server.inv_start grpc_inv_start by (cases k) simp_all

lemma serving_inv_step: "serving_inv k s \<Longrightarrow> serving k s s' \<Longrightarrow> serving_inv k s'"
  by (cases k) (auto intro: http_inv_step grpc_inv_step)

lemma serving_progress: "serving k s s' \<Longrightarrow> run_left s' < run_left s"
  by (cases k) (auto intro: http_progress grpc_progress)

lemma task_ok_step: "task_ok spec t \<Longrightarrow> task_step spec c t t' \<Longrightarrow> task_ok spec t'"
  by (erule task_stepE) (auto simp: task_ok_def serving_inv_start intro: serving_inv_step)

fun task_left :: "task_state \<Rightarrow> nat" where
  "task_left TaskNew = 9"
| "task_left (TaskUp s) = run_left s + 1"
| "task_left _ = 0"

lemma task_progress: "task_step spec c t t' \<Longrightarrow> task_left t' < task_left t"
  by (erule task_stepE) (auto simp: run_left_def server_start_def dest: serving_progress)

text \<open>
  Under a cancelled context a task that has not ended can go on by itself, unless a check it
  accepted never returns.
\<close>

lemma serving_no_deadlock:
  assumes "serving_inv k s" and "r_cancelled s" and "\<not> returned s" and "k \<noteq> GrpcServing True"
  shows "\<exists>s'. serving k s s' \<and> \<not> fails_by_itself s s'"
  using assms http_no_deadlock grpc_no_deadlock by (cases k) auto

lemma serving_cancel: "k \<noteq> Managing \<Longrightarrow> \<not> r_cancelled s \<Longrightarrow> serving k s (s\<lparr>r_cancelled := True\<rparr>)"
  by (cases k) (auto intro: http_cancelled grpc_cancelled)

lemma task_no_deadlock:
  assumes "task_ok spec t" and "\<not> task_ended t" and "t_kind spec \<noteq> GrpcServing True"
  shows "\<exists>t'. task_step spec True t t' \<and> \<not> spontaneous True t t'"
proof (cases t)
  case TaskNew
  show ?thesis
  proof (cases "t_kind spec = Managing")
    case True
    have "task_step spec True TaskNew (ManagerDone None)" using True by (intro manager_ends) simp_all
    moreover have "\<not> spontaneous True TaskNew (ManagerDone None)" by simp
    ultimately show ?thesis unfolding TaskNew by blast
  next
    case False
    have "\<exists>t'. task_step spec True TaskNew t' \<and> (\<exists>e. t' = TaskFailed e \<or> t' = TaskUp server_start)"
      using task_fails [OF False] task_starts [OF False] by (cases "t_error spec") blast+
    then show ?thesis unfolding TaskNew by fastforce
  qed
next
  case (TaskUp s)
  with assms(1) have inv: "serving_inv (t_kind spec) s" by (simp add: task_ok_def)
  then have k: "t_kind spec \<noteq> Managing" by (cases "t_kind spec") auto
  consider "returned s" | "\<not> returned s" "r_cancelled s" | "\<not> r_cancelled s" by blast
  then show ?thesis
  proof cases
    case 1
    then have "task_step spec True (TaskUp s) (TaskDone s)" by (rule task_returns)
    moreover have "\<not> spontaneous True (TaskUp s) (TaskDone s)" by simp
    ultimately show ?thesis unfolding TaskUp by blast
  next
    case 2
    with serving_no_deadlock [OF inv _ _ assms(3)] obtain s' where s': "serving (t_kind spec) s s'" "\<not> fails_by_itself s s'"
      by blast
    then have "task_step spec True (TaskUp s) (TaskUp s')" by (intro task_serves) simp_all
    moreover have "\<not> spontaneous True (TaskUp s) (TaskUp s')" using s'(2) by simp
    ultimately show ?thesis unfolding TaskUp by blast
  next
    case 3
    have "task_step spec True (TaskUp s) (TaskUp (s\<lparr>r_cancelled := True\<rparr>))"
      using serving_cancel [OF k 3] by (intro task_serves) simp_all
    moreover have "\<not> spontaneous True (TaskUp s) (TaskUp (s\<lparr>r_cancelled := True\<rparr>))" by (simp add: fails_by_itself_def)
    ultimately show ?thesis unfolding TaskUp by blast
  qed
qed (use assms in \<open>auto simp: task_ok_def task_ended_def returned_def split: main_pc.splits\<close>)

definition command_inv :: "task_spec list \<Rightarrow> go_error option \<Rightarrow> command_run \<Rightarrow> bool" where
  "command_inv specs err s \<longleftrightarrow> list_all2 task_ok specs (cr_tasks s) \<and> group_inv (rank_order specs) err (group_of s)
     \<and> (err \<noteq> None \<longrightarrow> cr_cancelled s)"

definition command_left :: "command_run \<Rightarrow> nat" where
  "command_left s = sum_list (map task_left (cr_tasks s)) + (if cr_cancelled s then 0 else 1)
     + (if cr_returned s = None then 1 else 0)"

lemma command_stays_cancelled: "command_step specs err parent s s' \<Longrightarrow> cr_cancelled s \<Longrightarrow> cr_cancelled s'"
  by (erule command_stepE) auto

lemma command_inv_start: "command_inv specs err (command_start err (length specs))"
  unfolding command_inv_def group_of_start
  by (simp add: group_inv_start) (simp add: command_start_def list_all2_conv_all_nth task_ok_def)

lemma command_inv_step:
  assumes "command_inv specs err s" and "command_step specs err parent s s'"
  shows "command_inv specs err s'"
proof -
  have "list_all2 task_ok specs (cr_tasks s')"
    using assms(2)
  proof (cases rule: command_step.cases)
    case (command_task i t)
    with assms(1) have "task_ok (specs ! i) (cr_tasks s ! i)" by (auto simp: command_inv_def list_all2_conv_all_nth)
    with command_task task_ok_step have "task_ok (specs ! i) t" by blast
    with command_task assms(1) show ?thesis
      by (auto simp: command_inv_def list_all2_conv_all_nth nth_list_update)
  qed (use assms(1) in \<open>simp_all add: command_inv_def\<close>)
  moreover have "group_inv (rank_order specs) err (group_of s')"
    using command_refines_group [OF assms(2)] assms(1) group_inv_step by (auto simp: command_inv_def)
  moreover have "err \<noteq> None \<longrightarrow> cr_cancelled s'"
    using assms command_stays_cancelled by (auto simp: command_inv_def)
  ultimately show ?thesis by (simp add: command_inv_def)
qed

lemma sum_list_update_less:
  fixes xs :: "nat list"
  shows "i < length xs \<Longrightarrow> y < xs ! i \<Longrightarrow> sum_list (xs[i := y]) < sum_list xs"
proof (induction xs arbitrary: i)
  case (Cons x xs)
  then show ?case by (cases i) simp_all
qed simp

lemma command_progress:
  assumes "command_step specs err parent s s'"
  shows "command_left s' < command_left s"
  using assms
proof (cases rule: command_step.cases)
  case (command_task i t)
  have "sum_list (map task_left (cr_tasks s')) < sum_list (map task_left (cr_tasks s))"
    using command_task task_progress [OF command_task(4)] by (simp add: map_update sum_list_update_less)
  with command_task show ?thesis by (simp add: command_left_def)
qed (simp_all add: command_left_def)

text \<open>Some task fails in this step although nobody told it to end.\<close>

definition spontaneous_task :: "command_run \<Rightarrow> command_run \<Rightarrow> bool" where
  "spontaneous_task s s' \<longleftrightarrow>
     (\<exists>i < length (cr_tasks s). spontaneous (cr_cancelled s) (cr_tasks s ! i) (cr_tasks s' ! i))"

lemma command_no_deadlock:
  assumes "command_inv specs err s" and "cr_cancelled s" and "cr_returned s = None"
    and "\<forall>spec \<in> set specs. t_kind spec \<noteq> GrpcServing True"
  shows "\<exists>s'. command_step specs err parent s s' \<and> \<not> spontaneous_task s s'"
proof (cases "\<forall>t \<in> set (cr_tasks s). task_ended t")
  case True
  let ?s = "s\<lparr>cr_returned := Some (Combine [err] @ rank_order specs (map (the \<circ> task_errs) (cr_tasks s))), cr_cancelled := True\<rparr>"
  have "command_step specs err parent s ?s" by (rule command_return [OF assms(3) True])
  moreover have "\<not> spontaneous_task s ?s" by (simp add: spontaneous_task_def)
  ultimately show ?thesis by blast
next
  case False
  then obtain i where i: "i < length (cr_tasks s)" "\<not> task_ended (cr_tasks s ! i)" by (auto simp: in_set_conv_nth)
  with assms(1) have "i < length specs" "task_ok (specs ! i) (cr_tasks s ! i)"
    by (auto simp: command_inv_def list_all2_conv_all_nth)
  moreover have "t_kind (specs ! i) \<noteq> GrpcServing True" using \<open>i < length specs\<close> assms(4) by simp
  ultimately obtain t where t: "task_step (specs ! i) (cr_cancelled s) (cr_tasks s ! i) t"
      "\<not> spontaneous (cr_cancelled s) (cr_tasks s ! i) t"
    using i task_no_deadlock [of "specs ! i" "cr_tasks s ! i"] assms(2) by auto
  let ?s = "s\<lparr>cr_tasks := (cr_tasks s)[i := t], cr_cancelled := (cr_cancelled s \<or> task_ended t)\<rparr>"
  have "command_step specs err parent s ?s" by (rule command_task [OF \<open>i < length specs\<close> i(1) t(1)])
  moreover have "\<not> spontaneous (cr_cancelled s) (cr_tasks s ! j) ((cr_tasks s)[i := t] ! j)" for j
    using t(2) i(1) by (cases "j = i") simp_all
  then have "\<not> spontaneous_task s ?s" by (simp add: spontaneous_task_def)
  ultimately show ?thesis by blast
qed

text \<open>What a task has done when it has ended: its server called serve and stop, and nothing runs.\<close>

fun task_clean :: "task_spec \<Rightarrow> task_state \<Rightarrow> bool" where
  "task_clean spec (TaskFailed err) \<longleftrightarrow> t_error spec = Some err"
| "task_clean spec (TaskDone s) \<longleftrightarrow> (\<exists>e. r_shutdown s = ShutDown e) \<and> r_cancelled s \<and>
     (case t_kind spec of
        HttpServing certFile keyFile \<Rightarrow> mset (r_calls s) = {#serve_call certFile keyFile, Shutdown#}
      | GrpcServing _ \<Rightarrow> mset (r_calls s) = {#Serve, GracefulStop#}
      | Managing \<Rightarrow> False)"
| "task_clean spec (ManagerDone err) \<longleftrightarrow> t_kind spec = Managing"
| "task_clean spec _ \<longleftrightarrow> False"

lemma task_ok_clean:
  assumes "task_ok spec t" and "task_ended t"
  shows "task_clean spec t"
proof (cases t)
  case (TaskDone s)
  with assms show ?thesis
    by (cases "t_kind spec")
      (auto simp: task_ok_def task_ended_def http_inv_def grpc_inv_def calls_of_def cancel_inv_def returned_def
        add_mset_commute split: main_pc.splits)
qed (use assms in \<open>auto simp: task_ok_def task_ended_def\<close>)

section \<open>The process\<close>

text \<open>
  \<open>signals.Do\<close> around the command: the context of the command is the one a signal cancels, and the
  callback returns what the command returns.
\<close>

record process =
  p_do :: "go_error list do_run"
  p_cmd :: command_run

definition process_start :: "go_error option \<Rightarrow> nat \<Rightarrow> process" where
  "process_start err n = \<lparr>p_do = do_start, p_cmd = command_start err n\<rparr>"

inductive process_step :: "task_spec list \<Rightarrow> go_error option \<Rightarrow> process \<Rightarrow> process \<Rightarrow> bool" for specs err where
  process_signals: "Do (p_do p) d \<Longrightarrow> (do_main (p_do p) = DoCallback \<Longrightarrow> do_main d = DoCallback) \<Longrightarrow>
    process_step specs err p (p\<lparr>p_do := d\<rparr>)"
| process_command: "\<not> do_killed (p_do p) \<Longrightarrow> do_main (p_do p) = DoCallback \<Longrightarrow>
    command_step specs err (do_cancelled (p_do p)) (p_cmd p) c \<Longrightarrow> process_step specs err p (p\<lparr>p_cmd := c\<rparr>)"
| process_callback: "\<not> do_killed (p_do p) \<Longrightarrow> do_main (p_do p) = DoCallback \<Longrightarrow> cr_returned (p_cmd p) = Some errs \<Longrightarrow>
    process_step specs err p (p\<lparr>p_do := (p_do p)\<lparr>do_main := DoStop errs\<rparr>\<rparr>)"

inductive_cases process_stepE: "process_step specs err p p'"

text \<open>
  The steps of the environment: a signal arrives, one kills the process, or a task fails although
  nobody told it to end. All others the process takes by itself.
\<close>

definition environment_step :: "process \<Rightarrow> process \<Rightarrow> bool" where
  "environment_step p p' \<longleftrightarrow>
     (\<not> do_cancelled (p_do p) \<and> p_do p' = (p_do p)\<lparr>do_cancelled := True\<rparr>)
     \<or> (\<not> do_killed (p_do p) \<and> do_killed (p_do p'))
     \<or> spontaneous_task (p_cmd p) (p_cmd p')"

definition own_step :: "task_spec list \<Rightarrow> go_error option \<Rightarrow> process \<Rightarrow> process \<Rightarrow> bool" where
  "own_step specs err p p' \<longleftrightarrow> process_step specs err p p' \<and> \<not> environment_step p p'"

lemma own_stepI:
  assumes "process_step specs err p p'" and "do_main (p_do p') \<noteq> do_main (p_do p) \<or> do_waiter (p_do p') \<noteq> do_waiter (p_do p)"
    and "do_killed (p_do p') = do_killed (p_do p)" and "p_cmd p' = p_cmd p"
  shows "own_step specs err p p'"
  using assms by (auto simp: own_step_def environment_step_def spontaneous_task_def)

lemma own_command_step:
  assumes "process_step specs err p (p\<lparr>p_cmd := c\<rparr>)" and "\<not> spontaneous_task (p_cmd p) c"
  shows "own_step specs err p (p\<lparr>p_cmd := c\<rparr>)"
proof -
  have "do_cancelled (p_do p)" if "p_do p = (p_do p)\<lparr>do_cancelled := True\<rparr>"
    using arg_cong [OF that, of do_cancelled] by simp
  with assms show ?thesis by (auto simp: own_step_def environment_step_def)
qed

text \<open>
  The tasks of the authorization servers and of the webhooks; \<open>start\<close> is the error of building a
  server, \<open>stuck\<close> says that an Envoy server accepts a check that never returns.
\<close>

fun task_spec_of :: "(('s, 'r, 'm) task \<Rightarrow> go_error option) \<Rightarrow> bool \<Rightarrow> ('s, 'r, 'm) task \<Rightarrow> task_spec" where
  "task_spec_of start stuck (ProbesTask addr) = \<lparr>t_kind = HttpServing [] [], t_rank = 0, t_error = None\<rparr>"
| "task_spec_of start stuck (HttpServerTask config source dyn evs) =
     \<lparr>t_kind = HttpServing (c_CertFile config) (c_KeyFile config), t_rank = 1,
      t_error = start (HttpServerTask config source dyn evs)\<rparr>"
| "task_spec_of start stuck (EnvoyServerTask network addr source dyn evs) =
     \<lparr>t_kind = GrpcServing stuck, t_rank = 1, t_error = start (EnvoyServerTask network addr source dyn evs)\<rparr>"
| "task_spec_of start stuck (ManagerTask addr) = \<lparr>t_kind = Managing, t_rank = 2, t_error = None\<rparr>"

lemma task_spec_rank: "t_rank (task_spec_of start stuck t) = task_rank t"
  by (cases t) simp_all

text \<open>Ordering by ranks loses no error.\<close>

lemma rank_order_mset:
  assumes "length specs = length rs" and "\<forall>t \<in> set specs. t_rank t \<le> 2"
  shows "mset (rank_order specs rs) = mset (concat rs)"
  using assms
proof (induction specs rs rule: list_induct2)
  case (Cons t specs r rs)
  then have "t_rank t = 0 \<or> t_rank t = 1 \<or> t_rank t = 2" by auto
  moreover have "mset (rank_order specs rs) = mset (concat rs)" using Cons by simp
  ultimately show ?case by (elim disjE) (simp_all add: rank_order_def)
qed (simp add: rank_order_def)

lemma task_ranks: "\<forall>spec \<in> set (map (task_spec_of start stuck) tasks). t_rank spec \<le> 2"
proof -
  have "t_rank (task_spec_of start stuck t) \<le> 2" for t by (cases t) simp_all
  then show ?thesis by simp
qed

text \<open>
  The command itself: set up, start the tasks under the handling of signals. \<open>start\<close> says which
  servers cannot be built.
\<close>

definition http_RunE :: "(('s, 'r, 'm) task \<Rightarrow> go_error option) \<Rightarrow> 's serve_env \<Rightarrow> http_flags
    \<Rightarrow> (task_spec list \<times> go_error option \<times> process) outcome" where
  "http_RunE start E f = bind_outcome (http_authz_setup E f) (\<lambda>(tasks, err).
     Ret (map (task_spec_of start False) tasks, err, process_start err (length tasks)))"

definition envoy_RunE :: "(('s, 'r, 'm) task \<Rightarrow> go_error option) \<Rightarrow> bool \<Rightarrow> 's serve_env \<Rightarrow> envoy_flags
    \<Rightarrow> (task_spec list \<times> go_error option \<times> process) outcome" where
  "envoy_RunE start stuck E f = bind_outcome (envoy_authz_setup E f) (\<lambda>(tasks, err).
     Ret (map (task_spec_of start stuck) tasks, err, process_start err (length tasks)))"

text \<open>Signals make progress too.\<close>

fun do_main_left :: "'r do_pc \<Rightarrow> nat" where
  "do_main_left DoCallback = 3"
| "do_main_left (DoStop _) = 2"
| "do_main_left (DoWait _) = 1"
| "do_main_left (DoReturned _) = 0"

fun waiter_left :: "waiter_pc \<Rightarrow> nat" where
  "waiter_left AwaitDone = 2"
| "waiter_left WaiterStop = 1"
| "waiter_left WaiterDone = 0"

definition do_left :: "'r do_run \<Rightarrow> nat" where
  "do_left s = do_main_left (do_main s) + waiter_left (do_waiter s) + (if do_cancelled s then 0 else 1)
     + (if do_killed s then 0 else 1)"

lemma do_progress: "Do s s' \<Longrightarrow> do_left s' < do_left s"
  by (erule DoE) (auto simp: do_left_def signal_stop_def)

definition process_left :: "process \<Rightarrow> nat" where
  "process_left p = do_left (p_do p) + command_left (p_cmd p)"

lemma process_progress: "process_step specs err p p' \<Longrightarrow> process_left p' < process_left p"
proof (erule process_stepE)
  fix errs assume "p' = p\<lparr>p_do := (p_do p)\<lparr>do_main := DoStop errs\<rparr>\<rparr>" "do_main (p_do p) = DoCallback"
  then show ?thesis by (simp add: process_left_def do_left_def)
qed (auto simp: process_left_def dest: do_progress command_progress)

definition process_inv :: "task_spec list \<Rightarrow> go_error option \<Rightarrow> process \<Rightarrow> bool" where
  "process_inv specs err p \<longleftrightarrow> do_inv (p_do p) \<and> command_inv specs err (p_cmd p)
     \<and> (case do_main (p_do p) of
          DoCallback \<Rightarrow> True
        | DoStop errs \<Rightarrow> cr_returned (p_cmd p) = Some errs
        | DoWait errs \<Rightarrow> cr_returned (p_cmd p) = Some errs
        | DoReturned errs \<Rightarrow> cr_returned (p_cmd p) = Some errs)"

lemma do_inv_start: "do_inv do_start"
  by (simp add: do_inv_def do_start_def)

lemma process_inv_start: "process_inv specs err (process_start err (length specs))"
  by (simp add: process_inv_def process_start_def command_inv_start do_inv_start) (simp add: do_start_def)

lemma do_main_kept:
  assumes "Do d d'" and "do_main d = DoCallback \<Longrightarrow> do_main d' = DoCallback"
  shows "do_main d' = do_main d \<or> (\<exists>e. do_main d = DoStop e \<and> do_main d' = DoWait e)
    \<or> (\<exists>e. do_main d = DoWait e \<and> do_main d' = DoReturned e)"
  using assms by (elim DoE) (auto simp: signal_stop_def)

lemma process_inv_step:
  assumes "process_inv specs err p" and "process_step specs err p p'"
  shows "process_inv specs err p'"
  using assms(2)
proof (cases rule: process_step.cases)
  case (process_signals d)
  have "do_inv d" using assms(1) process_signals do_inv_step by (auto simp: process_inv_def)
  moreover have "do_main d = do_main (p_do p) \<or> (\<exists>e. do_main (p_do p) = DoStop e \<and> do_main d = DoWait e)
      \<or> (\<exists>e. do_main (p_do p) = DoWait e \<and> do_main d = DoReturned e)"
    by (rule do_main_kept) (use process_signals in auto)
  ultimately show ?thesis
    using assms(1) process_signals(1) by (auto simp: process_inv_def split: do_pc.splits)
next
  case (process_command c)
  with assms(1) command_inv_step show ?thesis by (auto simp: process_inv_def)
next
  case (process_callback errs)
  have "do_inv ((p_do p)\<lparr>do_main := DoStop errs\<rparr>)"
    using do_inv_step [OF _ do_callback [OF process_callback(2,3)]] assms(1) by (simp add: process_inv_def)
  with assms(1) process_callback show ?thesis by (simp add: process_inv_def)
qed

definition process_returned :: "process \<Rightarrow> bool" where
  "process_returned p \<longleftrightarrow> (case do_main (p_do p) of DoReturned _ \<Rightarrow> True | _ \<Rightarrow> False)"

text \<open>The process was told to end, or one of its tasks has ended.\<close>

definition ending :: "process \<Rightarrow> bool" where
  "ending p \<longleftrightarrow> do_cancelled (p_do p) \<or> cr_cancelled (p_cmd p)"

lemma process_no_deadlock:
  assumes inv: "process_inv specs err p" and alive: "\<not> do_killed (p_do p)" and "\<not> process_returned p"
    and "ending p" and live: "\<forall>spec \<in> set specs. t_kind spec \<noteq> GrpcServing True"
  shows "\<exists>p'. own_step specs err p p'"
proof (cases "do_main (p_do p)")
  case DoCallback
  have c: "command_inv specs err (p_cmd p)" using inv by (simp add: process_inv_def)
  consider errs where "cr_returned (p_cmd p) = Some errs" | "cr_returned (p_cmd p) = None" "cr_cancelled (p_cmd p)"
    | "\<not> cr_cancelled (p_cmd p)" by blast
  then show ?thesis
  proof cases
    case 1
    from own_stepI [OF process_callback [OF alive DoCallback 1]] DoCallback show ?thesis by auto
  next
    case 2
    from command_no_deadlock [OF c 2(2,1) live] obtain c'
      where "command_step specs err (do_cancelled (p_do p)) (p_cmd p) c'" "\<not> spontaneous_task (p_cmd p) c'" by blast
    with own_command_step [OF process_command [OF alive DoCallback]] show ?thesis by blast
  next
    case 3
    let ?c = "(p_cmd p)\<lparr>cr_cancelled := True\<rparr>"
    have "command_step specs err (do_cancelled (p_do p)) (p_cmd p) ?c"
      using 3 assms(4) by (intro command_cancelled) (simp_all add: ending_def)
    moreover have "\<not> spontaneous_task (p_cmd p) ?c" by (simp add: spontaneous_task_def)
    ultimately show ?thesis using own_command_step [OF process_command [OF alive DoCallback]] by blast
  qed
next
  case (DoStop errs)
  let ?p = "p\<lparr>p_do := (signal_stop (p_do p))\<lparr>do_main := DoWait errs\<rparr>\<rparr>"
  have "process_step specs err p ?p"
    using do_stop [OF alive DoStop] DoStop by (intro process_signals) simp_all
  from own_stepI [OF this] DoStop show ?thesis by (auto simp: signal_stop_def)
next
  case (DoWait errs)
  then have c: "do_cancelled (p_do p)" using inv by (simp add: process_inv_def do_inv_def)
  have own: "\<exists>p'. own_step specs err p p'" if "Do (p_do p) d" "do_killed d = do_killed (p_do p)"
      "do_main d \<noteq> do_main (p_do p) \<or> do_waiter d \<noteq> do_waiter (p_do p)" for d
  proof -
    have "process_step specs err p (p\<lparr>p_do := d\<rparr>)" using that(1) DoWait by (intro process_signals) simp_all
    from own_stepI [OF this] that(2,3) show ?thesis by auto
  qed
  show ?thesis
  proof (cases "do_waiter (p_do p)")
    case AwaitDone
    from own [OF do_wake [OF alive AwaitDone c]] AwaitDone show ?thesis by simp
  next
    case WaiterStop
    from own [OF do_restore [OF alive WaiterStop]] WaiterStop show ?thesis by (simp add: signal_stop_def)
  next
    case WaiterDone
    from own [OF do_return [OF alive DoWait WaiterDone]] DoWait show ?thesis by simp
  qed
qed (use assms(3) in \<open>simp add: process_returned_def\<close>)

lemma Do_stays_cancelled: "Do d d' \<Longrightarrow> do_cancelled d \<Longrightarrow> do_cancelled d'"
  by (erule DoE) (auto simp: signal_stop_def)

lemma ending_step: "process_step specs err p p' \<Longrightarrow> ending p \<Longrightarrow> ending p'"
  by (erule process_stepE) (auto simp: ending_def dest: Do_stays_cancelled command_stays_cancelled)

text \<open>So the process returns by its own steps.\<close>

lemma process_returns:
  assumes "process_inv specs err p" and "\<not> do_killed (p_do p)" and "ending p"
    and "\<forall>spec \<in> set specs. t_kind spec \<noteq> GrpcServing True"
  shows "\<exists>p'. (own_step specs err)\<^sup>*\<^sup>* p p' \<and> process_returned p'"
  using assms(1-3)
proof (induction "process_left p" arbitrary: p rule: less_induct)
  case less
  show ?case
  proof (cases "process_returned p")
    case False
    obtain q where q: "own_step specs err p q"
      using process_no_deadlock [OF less.prems(1,2) False less.prems(3) assms(4)] by blast
    then have step: "process_step specs err p q" and "\<not> environment_step p q" by (simp_all add: own_step_def)
    then have "\<not> do_killed (p_do q)" using less.prems(2) by (auto simp: environment_step_def)
    with less.hyps [OF process_progress [OF step] process_inv_step [OF less.prems(1) step]] ending_step [OF step less.prems(3)]
    obtain r where "(own_step specs err)\<^sup>*\<^sup>* q r" "process_returned r" by blast
    with q show ?thesis by (meson converse_rtranclp_into_rtranclp)
  qed blast
qed

section \<open>A check that never returns\<close>

text \<open>
  A gRPC server that serves a check that never returns keeps its command from returning, whatever
  signals arrive: the graceful stop waits for it without limit.
\<close>

definition serves_stuck_check :: "task_spec \<Rightarrow> task_state \<Rightarrow> bool" where
  "serves_stuck_check spec t \<longleftrightarrow> t_kind spec = GrpcServing True \<and> (\<exists>s. t = TaskUp s \<and> serves_stuck s)"

lemma stuck_task_stays:
  assumes "task_ok spec t" and "serves_stuck_check spec t" and "task_step spec c t t'"
  shows "serves_stuck_check spec t'"
proof -
  obtain s where s: "t = TaskUp s" "serves_stuck s" "t_kind spec = GrpcServing True"
    using assms(2) by (auto simp: serves_stuck_check_def)
  with assms(1) stuck_server_never_returns have "\<not> returned s" by (auto simp: task_ok_def)
  with assms(3) s show ?thesis
    by (elim task_stepE) (auto simp: serves_stuck_check_def intro: stuck_server_stays)
qed

definition stuck_process :: "task_spec list \<Rightarrow> process \<Rightarrow> bool" where
  "stuck_process specs p \<longleftrightarrow> (\<exists>i < length specs. i < length (cr_tasks (p_cmd p))
     \<and> serves_stuck_check (specs ! i) (cr_tasks (p_cmd p) ! i))"

lemma stuck_process_step:
  assumes "process_inv specs err p" and "stuck_process specs p" and "process_step specs err p p'"
  shows "stuck_process specs p'"
proof -
  obtain i where i: "i < length specs" "i < length (cr_tasks (p_cmd p))" "serves_stuck_check (specs ! i) (cr_tasks (p_cmd p) ! i)"
    using assms(2) by (auto simp: stuck_process_def)
  have ok: "task_ok (specs ! i) (cr_tasks (p_cmd p) ! i)"
    using assms(1) i(1,2) by (auto simp: process_inv_def command_inv_def list_all2_conv_all_nth)
  have "i < length (cr_tasks c) \<and> serves_stuck_check (specs ! i) (cr_tasks c ! i)"
    if "command_step specs err parent (p_cmd p) c" for c parent
    using that
  proof (cases rule: command_step.cases)
    case (command_task j t)
    then show ?thesis using i stuck_task_stays [OF ok i(3)] by (cases "j = i") auto
  qed (use i in auto)
  with assms(3) i show ?thesis by (elim process_stepE) (auto simp: stuck_process_def)
qed

lemma stuck_process_running:
  assumes "process_inv specs err p" and "stuck_process specs p"
  shows "\<not> process_returned p"
proof
  assume "process_returned p"
  with assms(1) have "cr_returned (p_cmd p) \<noteq> None"
    by (auto simp: process_returned_def process_inv_def split: do_pc.splits)
  with assms(1) have "None \<notin> set (map task_errs (cr_tasks (p_cmd p)))"
    by (auto simp: process_inv_def command_inv_def group_inv_def group_of_def)
  moreover from assms(2) obtain i s where "i < length (cr_tasks (p_cmd p))" "cr_tasks (p_cmd p) ! i = TaskUp s"
    by (auto simp: stuck_process_def serves_stuck_check_def)
  then have "TaskUp s \<in> set (cr_tasks (p_cmd p))" by (metis nth_mem)
  then have "None \<in> set (map task_errs (cr_tasks (p_cmd p)))" by (force simp: image_iff)
  ultimately show False by blast
qed

lemma stuck_process_never_returns:
  assumes "(process_step specs err)\<^sup>*\<^sup>* p p'" and "process_inv specs err p" and "stuck_process specs p"
  shows "\<not> process_returned p'"
proof -
  from assms have "process_inv specs err p' \<and> stuck_process specs p'"
    by (induction rule: rtranclp_induct) (auto intro: process_inv_step stuck_process_step)
  then show ?thesis using stuck_process_running by blast
qed

section \<open>Runs\<close>

lemma process_runs:
  assumes "(process_step specs err ^^ n) (process_start err (length specs)) p"
  shows "process_inv specs err p" and "n + process_left p \<le> 9 * length specs + 9"
proof -
  have "process_inv specs err p \<and> n + process_left p \<le> 9 * length specs + 9"
    using assms
  proof (induction n arbitrary: p)
    case 0
    then have p: "p = process_start err (length specs)" by simp
    have "process_left (process_start err (length specs)) \<le> 9 * length specs + 9"
      by (simp add: process_start_def process_left_def do_left_def command_left_def do_start_def command_start_def
          sum_list_replicate)
    then show ?case unfolding p by (simp add: process_inv_start)
  next
    case (Suc n)
    then obtain q where "(process_step specs err ^^ n) (process_start err (length specs)) q" "process_step specs err q p"
      by auto
    with Suc.IH [of q] process_progress [of specs err q p] process_inv_step [of specs err q p] show ?case by simp
  qed
  then show "process_inv specs err p" "n + process_left p \<le> 9 * length specs + 9" by auto
qed

section \<open>Property\<close>

text \<open>What holds of every run of a process, whatever its tasks are.\<close>

lemma process_ends_cleanly:
  assumes "(process_step specs err ^^ n) (process_start err (length specs)) p"
  shows "n \<le> 9 * length specs + 9"
    and "do_killed (p_do p) \<Longrightarrow> do_cancelled (p_do p)"
    and "do_main (p_do p) = DoReturned errs \<Longrightarrow>
      do_waiter (p_do p) = WaiterDone \<and> \<not> do_notify (p_do p) \<and> list_all2 task_clean specs (cr_tasks (p_cmd p))
      \<and> errs = Combine [err] @ rank_order specs (map (the \<circ> task_errs) (cr_tasks (p_cmd p)))"
proof -
  note inv = process_runs(1) [OF assms]
  then have d: "do_inv (p_do p)" and c: "command_inv specs err (p_cmd p)" by (simp_all add: process_inv_def)
  show "n \<le> 9 * length specs + 9" using process_runs(2) [OF assms] by simp
  show "do_killed (p_do p) \<Longrightarrow> do_cancelled (p_do p)" using d by (auto simp: do_inv_def)
  assume r: "do_main (p_do p) = DoReturned errs"
  with inv have "cr_returned (p_cmd p) = Some errs" by (simp add: process_inv_def)
  with c have g: "None \<notin> set (map task_errs (cr_tasks (p_cmd p)))"
    and e: "errs = Combine [err] @ rank_order specs (map the (map task_errs (cr_tasks (p_cmd p))))"
    by (simp_all add: command_inv_def group_inv_def group_of_def)
  have "list_all2 task_ok specs (cr_tasks (p_cmd p))" using c by (simp add: command_inv_def)
  then have "list_all2 task_clean specs (cr_tasks (p_cmd p))"
  proof (rule list.rel_mono_strong)
    fix spec t assume "t \<in> set (cr_tasks (p_cmd p))" "task_ok spec t"
    moreover from this g have "task_ended t" by (force simp: task_ended_def)
    ultimately show "task_clean spec t" by (blast intro: task_ok_clean)
  qed
  with d r e show "do_waiter (p_do p) = WaiterDone \<and> \<not> do_notify (p_do p) \<and> list_all2 task_clean specs (cr_tasks (p_cmd p))
      \<and> errs = Combine [err] @ rank_order specs (map (the \<circ> task_errs) (cr_tasks (p_cmd p)))"
    by (simp add: do_inv_def comp_def)
qed

text \<open>A signal, the end of a task and a failed set-up all make a process end.\<close>

lemma process_ending:
  assumes "process_inv specs err p"
    and "do_cancelled (p_do p) \<or> err \<noteq> None \<or> (\<exists>t \<in> set (cr_tasks (p_cmd p)). task_ended t)"
  shows "ending p"
proof -
  have "cr_cancelled (p_cmd p)" if "t \<in> set (cr_tasks (p_cmd p))" "task_ended t" for t
    using assms(1) that by (auto simp: process_inv_def command_inv_def group_inv_def group_of_def task_ended_def)
  with assms show ?thesis by (auto simp: ending_def process_inv_def command_inv_def)
qed

lemma process_returns_by_itself:
  assumes "(process_step specs err ^^ n) (process_start err (length specs)) p"
    and "do_cancelled (p_do p) \<or> err \<noteq> None \<or> (\<exists>t \<in> set (cr_tasks (p_cmd p)). task_ended t)" and "\<not> do_killed (p_do p)"
    and "\<forall>spec \<in> set specs. t_kind spec \<noteq> GrpcServing True"
  shows "\<not> process_returned p \<Longrightarrow> \<exists>p'. own_step specs err p p'"
    and "\<exists>p'. (own_step specs err)\<^sup>*\<^sup>* p p' \<and> process_returned p'"
  using process_no_deadlock [OF process_runs(1) [OF assms(1)] assms(3) _ _ assms(4)]
    process_returns [OF process_runs(1) [OF assms(1)] assms(3) _ assms(4)]
    process_ending [OF process_runs(1) [OF assms(1)] assms(2)] by blast+

lemma authz_setup_at_most_three:
  fixes tasks :: "('s, 'r, 'm) task list"
  assumes "authz_setup M server E f = Ret (tasks, err)"
  shows "length tasks \<le> 3"
proof -
  have "err = None \<or> tasks = [] \<or> tasks = [ManagerTask (metricsAddress f)]"
    using authz_setup_ret [OF assms] by auto
  then show ?thesis using authz_setup_ret [OF assms] by (auto simp: expected_manager_def)
qed

lemma RunE_setup:
  "http_RunE start E f = Ret (specs, err, p0) \<Longrightarrow> \<exists>tasks. http_authz_setup E f = Ret (tasks, err)
     \<and> specs = map (task_spec_of start False) tasks \<and> p0 = process_start err (length specs) \<and> length specs \<le> 3"
  "envoy_RunE start stuck E g = Ret (specs, err, p0) \<Longrightarrow> \<exists>tasks. envoy_authz_setup E g = Ret (tasks, err)
     \<and> specs = map (task_spec_of start stuck) tasks \<and> p0 = process_start err (length specs) \<and> length specs \<le> 3"
  using authz_setup_at_most_three
  by (fastforce simp: http_RunE_def envoy_RunE_def http_authz_setup_def envoy_authz_setup_def bind_outcome_Ret_iff
      split: prod.splits)+

lemma task_kinds_live: "\<forall>spec \<in> set (map (task_spec_of start False) tasks). t_kind spec \<noteq> GrpcServing True"
proof -
  have "t_kind (task_spec_of start False t) \<noteq> GrpcServing True" for t by (cases t) simp_all
  then show ?thesis by simp
qed


text \<open>A process that serves, told nothing, takes no step by itself: the promise is about its ending.\<close>

lemma serving_process_waits:
  assumes "p = \<lparr>p_do = do_start, p_cmd = \<lparr>cr_tasks = [TaskUp (server_start\<lparr>r_main := MainServing, r_calls := calls\<rparr>)],
      cr_cancelled = False, cr_returned = None\<rparr>\<rparr>" and "t_kind spec = HttpServing c k"
  shows "\<not> own_step [spec] err p p'"
proof
  assume "own_step [spec] err p p'"
  then have step: "process_step [spec] err p p'" and own: "\<not> environment_step p p'" by (simp_all add: own_step_def)
  from step show False
  proof (cases rule: process_step.cases)
    case (process_signals d)
    from process_signals(2) have "d = (p_do p)\<lparr>do_cancelled := True\<rparr>"
      by (cases rule: Do.cases) (use assms(1) process_signals(3) in \<open>auto simp: do_start_def\<close>)
    with own process_signals(1) assms(1) show False by (simp add: environment_step_def do_start_def)
  next
    case (process_command cmd)
    from process_command(4) show False
    proof (cases rule: command_step.cases)
      case (command_task i t)
      then have i: "i = 0" and "task_step spec False (cr_tasks (p_cmd p) ! 0) t" using assms(1) by simp_all
      then have "spontaneous False (cr_tasks (p_cmd p) ! 0) t"
        using assms by (elim task_stepE) (auto simp: server_start_def returned_def fails_by_itself_def elim: RunHttpE)
      with own process_command(1) command_task(1) i assms(1) show False
        by (simp add: environment_step_def spontaneous_task_def)
    qed (use assms(1) in \<open>simp_all add: do_start_def task_ended_def\<close>)
  qed (use assms(1) in \<open>simp_all add: do_start_def\<close>)
qed

text \<open>Serving a check that never returns is reached in two steps.\<close>

lemma stuck_process_reached:
  assumes "t_kind spec = GrpcServing True" and "t_error spec = None"
  shows "\<exists>p. (process_step [spec] None ^^ 2) (process_start None 1) p \<and> stuck_process [spec] p"
proof -
  let ?cmd = "\<lambda>t. \<lparr>cr_tasks = [t], cr_cancelled = False, cr_returned = None\<rparr>"
  let ?p = "\<lambda>t. \<lparr>p_do = do_start, p_cmd = ?cmd t\<rparr>"
  let ?s = "server_start\<lparr>r_main := MainServing, r_calls := [Serve]\<rparr>"
  have step: "process_step [spec] None (?p t) (?p t')" if "task_step spec False t t'" "\<not> task_ended t'" for t t'
    using process_command [of "?p t" "[spec]" None "?cmd t'"] command_task [of 0 "[spec]" "?cmd t" t' None False] that
    by (simp add: do_start_def)
  have "task_step spec False TaskNew (TaskUp server_start)" using assms by (intro task_starts) simp_all
  then have 1: "process_step [spec] None (?p TaskNew) (?p (TaskUp server_start))" by (rule step) (simp add: task_ended_def)
  have "RunGrpc True server_start ?s" using grpc_serve [of server_start True] by (simp add: server_start_def)
  then have "task_step spec False (TaskUp server_start) (TaskUp ?s)"
    using assms(1) by (intro task_serves) (simp_all add: server_start_def)
  then have 2: "process_step [spec] None (?p (TaskUp server_start)) (?p (TaskUp ?s))" by (rule step) (simp add: task_ended_def)
  have "process_start None 1 = ?p TaskNew" by (simp add: process_start_def command_start_def)
  with 1 2 have "(process_step [spec] None ^^ Suc (Suc 0)) (process_start None 1) (?p (TaskUp ?s))"
    by (simp only: relpowp.simps) (blast intro: relcomppI)
  moreover have "stuck_process [spec] (?p (TaskUp ?s))"
    using assms(1) by (simp add: stuck_process_def serves_stuck_check_def serves_stuck_def)
  ultimately show ?thesis by (auto simp: numeral_2_eq_2)
qed

text \<open>A server that cannot be built ends its command in seven steps.\<close>

lemma failed_command_steps:
  assumes "t_kind spec \<noteq> Managing" and "t_rank spec = 1" and "t_error spec = Some e"
  shows "(process_step [spec] None ^^ 7) (process_start None 1)
    \<lparr>p_do = \<lparr>do_main = DoReturned [e], do_waiter = WaiterDone, do_notify = False, do_cancelled = True, do_killed = False\<rparr>,
     p_cmd = \<lparr>cr_tasks = [TaskFailed e], cr_cancelled = True, cr_returned = Some [e]\<rparr>\<rparr>"
proof -
  let ?step = "process_step [spec] None"
  let ?d = "\<lambda>m w b. \<lparr>do_main = m, do_waiter = w, do_notify = \<not> b, do_cancelled = b, do_killed = False\<rparr>"
  let ?c1 = "\<lparr>cr_tasks = [TaskFailed e], cr_cancelled = True, cr_returned = None\<rparr>"
  let ?c2 = "\<lparr>cr_tasks = [TaskFailed e], cr_cancelled = True, cr_returned = Some [e]\<rparr>"
  have d0: "(do_start :: go_error list do_run) = ?d DoCallback AwaitDone False" by (simp add: do_start_def)
  have c: "command_step [spec] None False (command_start None 1) ?c1"
    using command_task [of 0 "[spec]" "command_start None 1" "TaskFailed e" None False] task_fails [OF assms(1,3)]
    by (simp add: command_start_def task_ended_def)
  have r: "command_step [spec] None False ?c1 ?c2"
    using command_return [of ?c1 "[spec]" None False] assms(2)
    by (simp add: task_ended_def rank_order_def Combine_def)
  have 1: "?step (process_start None 1) \<lparr>p_do = ?d DoCallback AwaitDone False, p_cmd = ?c1\<rparr>"
    using process_command [of "process_start None 1" "[spec]" None ?c1] c by (simp add: process_start_def d0)
  have 2: "?step \<lparr>p_do = ?d DoCallback AwaitDone False, p_cmd = ?c1\<rparr> \<lparr>p_do = ?d DoCallback AwaitDone False, p_cmd = ?c2\<rparr>"
    using process_command [of "\<lparr>p_do = ?d DoCallback AwaitDone False, p_cmd = ?c1\<rparr>" "[spec]" None ?c2] r by simp
  have 3: "?step \<lparr>p_do = ?d DoCallback AwaitDone False, p_cmd = ?c2\<rparr> \<lparr>p_do = ?d (DoStop [e]) AwaitDone False, p_cmd = ?c2\<rparr>"
    using process_callback [of "\<lparr>p_do = ?d DoCallback AwaitDone False, p_cmd = ?c2\<rparr>" "[e]" "[spec]" None] by simp
  have sig: "?step \<lparr>p_do = d, p_cmd = ?c2\<rparr> \<lparr>p_do = d', p_cmd = ?c2\<rparr>" if "Do d d'" "do_main d \<noteq> DoCallback" for d d'
    using process_signals [of "\<lparr>p_do = d, p_cmd = ?c2\<rparr>" d' "[spec]" None] that by simp
  have 4: "?step \<lparr>p_do = ?d (DoStop [e]) AwaitDone False, p_cmd = ?c2\<rparr> \<lparr>p_do = ?d (DoWait [e]) AwaitDone True, p_cmd = ?c2\<rparr>"
    using sig do_stop [of "?d (DoStop [e]) AwaitDone False" "[e]"] by (simp add: signal_stop_def)
  have 5: "?step \<lparr>p_do = ?d (DoWait [e]) AwaitDone True, p_cmd = ?c2\<rparr> \<lparr>p_do = ?d (DoWait [e]) WaiterStop True, p_cmd = ?c2\<rparr>"
    using sig do_wake [of "?d (DoWait [e]) AwaitDone True"] by simp
  have 6: "?step \<lparr>p_do = ?d (DoWait [e]) WaiterStop True, p_cmd = ?c2\<rparr> \<lparr>p_do = ?d (DoWait [e]) WaiterDone True, p_cmd = ?c2\<rparr>"
    using sig do_restore [of "?d (DoWait [e]) WaiterStop True"] by (simp add: signal_stop_def)
  have 7: "?step \<lparr>p_do = ?d (DoWait [e]) WaiterDone True, p_cmd = ?c2\<rparr> \<lparr>p_do = ?d (DoReturned [e]) WaiterDone True, p_cmd = ?c2\<rparr>"
    using sig do_return [of "?d (DoWait [e]) WaiterDone True" "[e]"] by simp
  note more = relpowp_Suc_I [where P = ?step]
  have "(?step ^^ Suc (Suc (Suc (Suc (Suc (Suc (Suc 0))))))) (process_start None 1)
      \<lparr>p_do = ?d (DoReturned [e]) WaiterDone True, p_cmd = ?c2\<rparr>"
    by (rule more [OF more [OF more [OF more [OF more [OF more [OF more [OF relpowp_0_I 1] 2] 3] 4] 5] 6] 7])
  then show ?thesis by (simp add: eval_nat_numeral)
qed

text \<open>
  Its own steps end it from where the task failed, and what it returned once it has.
\<close>

lemma failed_command_first_step:
  assumes "t_kind spec \<noteq> Managing" and "t_error spec = Some e"
  shows "\<exists>p. (process_step [spec] None ^^ 1) (process_start None 1) p \<and> \<not> do_killed (p_do p)
    \<and> (\<exists>t \<in> set (cr_tasks (p_cmd p)). task_ended t)"
proof -
  let ?c = "\<lparr>cr_tasks = [TaskFailed e], cr_cancelled = True, cr_returned = None\<rparr>"
  have "command_step [spec] None False (command_start None 1) ?c"
    using command_task [of 0 "[spec]" "command_start None 1" "TaskFailed e" None False] task_fails [OF assms]
    by (simp add: command_start_def task_ended_def)
  then have "process_step [spec] None (process_start None 1) \<lparr>p_do = do_start, p_cmd = ?c\<rparr>"
    using process_command [of "process_start None 1" "[spec]" None ?c] by (simp add: process_start_def do_start_def)
  moreover have "\<not> do_killed (p_do \<lparr>p_do = do_start, p_cmd = ?c\<rparr>)"
    "\<exists>t \<in> set (cr_tasks (p_cmd \<lparr>p_do = do_start, p_cmd = ?c\<rparr>)). task_ended t"
    by (simp_all add: do_start_def task_ended_def)
  ultimately show ?thesis unfolding relpowp_1 by blast
qed

text \<open>The Envoy command without a cluster serves one gRPC server.\<close>

lemma served_envoy_command:
  "\<exists>specs. envoy_RunE (\<lambda>_ :: (nat, unit, unit) task. None) True sample_env
       (envoy_default_flags\<lparr>kubePolicySource := False\<rparr>) = Ret (specs, None, process_start None 1)
     \<and> (\<exists>spec. specs = [spec] \<and> t_kind spec = GrpcServing True \<and> t_error spec = None)"
proof -
  have "\<exists>network addr source dyn evs. envoy_authz_setup sample_env (envoy_default_flags\<lparr>kubePolicySource := False\<rparr>)
      = Ret ([EnvoyServerTask network addr source dyn evs :: (nat, unit, unit) task], None)"
    by (simp add: envoy_authz_setup_def authz_setup_def cluster_setup_def cluster_sources_def
        check_err_def openreports_handlers_def RegistryOpts_def sample_env_def envoy_default_flags_def Let_def; blast)
  then obtain network addr source dyn evs where "envoy_authz_setup sample_env (envoy_default_flags\<lparr>kubePolicySource := False\<rparr>)
      = Ret ([EnvoyServerTask network addr source dyn evs :: (nat, unit, unit) task], None)" by blast
  then show ?thesis by (simp add: envoy_RunE_def)
qed


end
