(* ===== verification/CertManager.thy ===== *)
theory CertManager
  imports Prelude
begin

text \<open>
  Certificates of the webhooks (\<open>pkg/certmanager\<close>): waiting for the secrets of the certificate
  controller and writing them to a temporary directory, and patching the CA bundle of webhook
  configurations. Time is in milliseconds; the clock, the Kubernetes API and the file system are
  parameters, indexed by the iteration in which they are asked. Waiting for the informers blocks until
  they have synchronised or the context is done, and removing a directory may leave files behind. Log messages are left out.
\<close>

section \<open>Secrets\<close>

type_synonym secret_data = "string \<rightharpoonup> string"

definition TLSCertKey :: string where "TLSCertKey = ''tls.crt''"
definition TLSPrivateKeyKey :: string where "TLSPrivateKeyKey = ''tls.key''"

definition data_of :: "secret_data \<Rightarrow> string \<Rightarrow> string" where
  "data_of s key = (case s key of Some v \<Rightarrow> v | None \<Rightarrow> [])"

text \<open>
  The temporary directories with their files. \<open>MkdirTemp\<close> gives a new directory or fails;
  \<open>WriteFile\<close> fails or stores the contents; \<open>left_over\<close> is what \<open>os.RemoveAll\<close> leaves of a directory,
  nothing unless it fails.
\<close>

type_synonym temp_dirs = "string \<rightharpoonup> (string \<rightharpoonup> string)"

text \<open>The configuration the certificate package names secrets from.\<close>

record cert_config =
  cc_ServiceName :: string
  cc_Namespace :: string

record cert_env =
  NewForConfig :: "go_error option"
  caches_synced :: bool
  ctx_cancelled :: bool
  GenerateTLSPairSecretName :: "cert_config \<Rightarrow> string"
  GenerateRootCASecretName :: "cert_config \<Rightarrow> string"
  start_time :: int
  Now :: "nat \<Rightarrow> int"
  ctx_Err :: "nat \<Rightarrow> go_error option"
  Get_tls :: "nat \<Rightarrow> string \<Rightarrow> go_error + secret_data option"
  Get_ca :: "nat \<Rightarrow> string \<Rightarrow> go_error + secret_data"
  MkdirTemp :: "string \<Rightarrow> go_error + string"
  WriteFile :: "string \<Rightarrow> go_error option"
  left_over :: "string \<Rightarrow> (string \<rightharpoonup> string) option"

definition webhookCertWaitInterval :: int where "webhookCertWaitInterval = 500"
definition webhookCertWaitTimeout :: int where "webhookCertWaitTimeout = 60000"

section \<open>Bootstrapping the certificates\<close>

text \<open>
  What runs in the background: informers of a namespace that resynchronise every so often, and the
  controller that renews the certificates with clients of a namespace. \<open>Setup\<close> gives what it
  started, in order, and never fails; but it waits until the caches of the informers are synchronised
  or its context is done, and when neither ever happens it does not return (None).
\<close>

datatype background =
    InformersStarted string int
  | InformersAwaited bool
  | ControllerStarted string cert_config

definition informer_resync :: int where "informer_resync = 12 * 60 * 60 * 1000"

definition Setup :: "cert_env \<Rightarrow> string \<Rightarrow> string \<Rightarrow> (background list \<times> go_error option) option" where
  "Setup E namespace serviceName =
     (let tlsConfig = \<lparr>cc_ServiceName = serviceName, cc_Namespace = namespace\<rparr>
      in if \<not> caches_synced E \<and> \<not> ctx_cancelled E then None
         else Some ([InformersStarted namespace informer_resync, InformersAwaited (caches_synced E),
                     ControllerStarted namespace tlsConfig], None))"

definition GetTLSPairSecretName :: "cert_env \<Rightarrow> string \<Rightarrow> string \<Rightarrow> string" where
  "GetTLSPairSecretName E serviceName namespace =
     GenerateTLSPairSecretName E \<lparr>cc_ServiceName = serviceName, cc_Namespace = namespace\<rparr>"

definition GetRootCASecretName :: "cert_env \<Rightarrow> string \<Rightarrow> string \<Rightarrow> string" where
  "GetRootCASecretName E serviceName namespace =
     GenerateRootCASecretName E \<lparr>cc_ServiceName = serviceName, cc_Namespace = namespace\<rparr>"

definition write_file :: "string \<Rightarrow> string \<Rightarrow> string \<Rightarrow> temp_dirs \<Rightarrow> temp_dirs" where
  "write_file dir name contents fs = fs(dir := map_option (\<lambda>files. files(name \<mapsto> contents)) (fs dir))"

definition RemoveAll :: "cert_env \<Rightarrow> string \<Rightarrow> temp_dirs \<Rightarrow> temp_dirs" where
  "RemoveAll E dir fs = fs(dir := left_over E dir)"

definition tls_ready :: "go_error + secret_data option \<Rightarrow> secret_data option" where
  "tls_ready res =
     (case res of
        Inr (Some s) \<Rightarrow> if data_of s TLSCertKey \<noteq> [] \<and> data_of s TLSPrivateKeyKey \<noteq> [] then Some s else None
      | _ \<Rightarrow> None)"

definition ca_bundle :: "secret_data \<Rightarrow> string" where
  "ca_bundle s =
     (let caBundle = data_of s TLSCertKey
      in if length caBundle = 0 then data_of s ''rootCA.crt'' else caBundle)"

definition no_ca_error :: "string \<Rightarrow> string \<Rightarrow> go_error" where
  "no_ca_error namespace caSecretName =
     Errorf (''CA secret '' @ namespace @ ''/'' @ caSecretName @ '' has no tls.crt or rootCA.crt'')"

definition write_certs :: "cert_env \<Rightarrow> string \<Rightarrow> string \<Rightarrow> nat \<Rightarrow> secret_data \<Rightarrow> temp_dirs
    \<Rightarrow> (go_error + string \<times> string) \<times> temp_dirs" where
  "write_certs E namespace caSecretName i tlsSecret fs =
     (case MkdirTemp E ''kyverno-authz-webhook-certs-'' of
        Inl err \<Rightarrow> (Inl err, fs)
      | Inr certDir \<Rightarrow>
          (let fs = fs(certDir \<mapsto> Map.empty)
           in case WriteFile E (certDir @ ''/tls.crt'') of
                Some err \<Rightarrow> (Inl err, RemoveAll E certDir fs)
              | None \<Rightarrow>
          (let fs = write_file certDir ''tls.crt'' (data_of tlsSecret TLSCertKey) fs
           in case WriteFile E (certDir @ ''/tls.key'') of
                Some err \<Rightarrow> (Inl err, RemoveAll E certDir fs)
              | None \<Rightarrow>
          (let fs = write_file certDir ''tls.key'' (data_of tlsSecret TLSPrivateKeyKey) fs
           in case Get_ca E i caSecretName of
                Inl err \<Rightarrow> (Inl err, RemoveAll E certDir fs)
              | Inr caSecret \<Rightarrow>
                  (let caBundle = ca_bundle caSecret
                   in if length caBundle = 0 then (Inl (no_ca_error namespace caSecretName), RemoveAll E certDir fs)
                      else (Inr (certDir, caBundle), fs))))))"

definition timeout_error :: "string \<Rightarrow> string \<Rightarrow> go_error" where
  "timeout_error namespace tlsSecretName =
     Errorf (''timed out waiting for webhook TLS secret '' @ namespace @ ''/'' @ tlsSecretName)"

fun wait_loop :: "nat \<Rightarrow> cert_env \<Rightarrow> string \<Rightarrow> string \<Rightarrow> string \<Rightarrow> nat \<Rightarrow> temp_dirs
    \<Rightarrow> ((go_error + string \<times> string) \<times> temp_dirs) option" where
  "wait_loop 0 E namespace tlsSecretName caSecretName i fs = None"
| "wait_loop (Suc fuel) E namespace tlsSecretName caSecretName i fs =
     (if \<not> Now E i < start_time E + webhookCertWaitTimeout
      then Some (Inl (timeout_error namespace tlsSecretName), fs)
      else (case ctx_Err E i of
              Some err \<Rightarrow> Some (Inl err, fs)
            | None \<Rightarrow>
                (case tls_ready (Get_tls E i tlsSecretName) of
                   Some tlsSecret \<Rightarrow> Some (write_certs E namespace caSecretName i tlsSecret fs)
                 | None \<Rightarrow> wait_loop fuel E namespace tlsSecretName caSecretName (Suc i) fs)))"

text \<open>None at every fuel: the bootstrap does not return.\<close>

definition BootstrapWebhookCerts :: "nat \<Rightarrow> cert_env \<Rightarrow> string \<Rightarrow> string \<Rightarrow> temp_dirs
    \<Rightarrow> ((go_error + string \<times> string) \<times> temp_dirs) option" where
  "BootstrapWebhookCerts fuel E namespace serviceName fs =
     (case NewForConfig E of
        Some err \<Rightarrow> Some (Inl err, fs)
      | None \<Rightarrow>
          (case Setup E namespace serviceName of
             None \<Rightarrow> None
           | Some (_, Some err) \<Rightarrow> Some (Inl err, fs)
           | Some (_, None) \<Rightarrow>
               wait_loop fuel E namespace (GetTLSPairSecretName E serviceName namespace)
                 (GetRootCASecretName E serviceName namespace) 0 fs))"

section \<open>Patching webhook configurations\<close>

record 'o webhook =
  wh_CABundle :: string
  wh_other :: 'o

record ('o, 'c) webhook_config =
  wc_Webhooks :: "'o webhook list"
  wc_other :: 'c

text \<open>The API of one kind of configuration: reading one by name, and the error of an update.\<close>

record ('o, 'c) webhook_client =
  Get_config :: "string \<Rightarrow> go_error + ('o, 'c) webhook_config"
  Update_config :: "('o, 'c) webhook_config \<Rightarrow> go_error option"

definition CABundlePatch :: "'o webhook list \<Rightarrow> string \<Rightarrow> 'o webhook list" where
  "CABundlePatch webhooks caBundle = map (\<lambda>wh. wh\<lparr>wh_CABundle := caBundle\<rparr>) webhooks"

text \<open>The error of the call and the configuration sent to the API, if any.\<close>

definition PatchValidatingWebhookConfigCA :: "('o, 'c) webhook_client \<Rightarrow> string \<Rightarrow> string
    \<Rightarrow> go_error option \<times> ('o, 'c) webhook_config option" where
  "PatchValidatingWebhookConfigCA K vwcName caBundle =
     (if vwcName = [] \<or> length caBundle = 0 then (None, None)
      else (case Get_config K vwcName of
              Inl err \<Rightarrow> if is_not_found err then (None, None) else (Some err, None)
            | Inr config \<Rightarrow>
                (let config = config\<lparr>wc_Webhooks := map (\<lambda>wh. wh\<lparr>wh_CABundle := caBundle\<rparr>) (wc_Webhooks config)\<rparr>
                 in (Update_config K config, Some config))))"

definition PatchMutatingWebhookConfigCA :: "('o, 'c) webhook_client \<Rightarrow> string \<Rightarrow> string
    \<Rightarrow> go_error option \<times> ('o, 'c) webhook_config option" where
  "PatchMutatingWebhookConfigCA K mwcName caBundle =
     (if mwcName = [] \<or> length caBundle = 0 then (None, None)
      else (case Get_config K mwcName of
              Inl err \<Rightarrow> if is_not_found err then (None, None) else (Some err, None)
            | Inr config \<Rightarrow>
                (let config = config\<lparr>wc_Webhooks := map (\<lambda>wh. wh\<lparr>wh_CABundle := caBundle\<rparr>) (wc_Webhooks config)\<rparr>
                 in (Update_config K config, Some config))))"

section \<open>Lemmas\<close>

text \<open>
  The secrets that are waited for are those of the controller that was started, in the namespace
  its informers watch.
\<close>

lemma Setup_awaited_secrets:
  assumes "Setup E namespace serviceName = Some (started, err)"
  shows "err = None"
    and "\<exists>c. started = [InformersStarted namespace informer_resync, InformersAwaited (caches_synced E), ControllerStarted namespace c]
    \<and> GetTLSPairSecretName E serviceName namespace = GenerateTLSPairSecretName E c
    \<and> GetRootCASecretName E serviceName namespace = GenerateRootCASecretName E c"
  using assms by (auto simp: Setup_def GetTLSPairSecretName_def GetRootCASecretName_def Let_def split: if_splits)

text \<open>
  Every patch that is sent sets the bundle of all webhooks and nothing else; a missing
  configuration is not an error.
\<close>

lemma patch_sets_bundle:
  assumes "PatchValidatingWebhookConfigCA K name ca = (err, Some config) \<or> PatchMutatingWebhookConfigCA K name ca = (err, Some config)"
  obtains old where "Get_config K name = Inr old" "wc_other config = wc_other old"
    "wc_Webhooks config = CABundlePatch (wc_Webhooks old) ca" "\<forall>wh \<in> set (wc_Webhooks config). wh_CABundle wh = ca"
    "map wh_other (wc_Webhooks config) = map wh_other (wc_Webhooks old)" "ca \<noteq> []"
  using assms
  by (auto simp: PatchValidatingWebhookConfigCA_def PatchMutatingWebhookConfigCA_def CABundlePatch_def Let_def
      split: if_splits sum.splits)

lemma write_certs_error:
  assumes "write_certs E ns ca i s fs = (Inl err, fs')"
    and "\<forall>dir. MkdirTemp E ''kyverno-authz-webhook-certs-'' = Inr dir \<longrightarrow> fs dir = None"
  shows "fs' = fs \<or> (\<exists>dir. MkdirTemp E ''kyverno-authz-webhook-certs-'' = Inr dir \<and> left_over E dir \<noteq> None
    \<and> fs' = fs(dir := left_over E dir))"
proof (cases "MkdirTemp E ''kyverno-authz-webhook-certs-''")
  case (Inl e)
  with assms(1) show ?thesis by (simp add: write_certs_def)
next
  case (Inr dir)
  with assms(1) have "fs' = fs(dir := left_over E dir)"
    by (auto simp: write_certs_def Let_def RemoveAll_def write_file_def split: sum.splits option.splits if_splits)
  moreover have "fs dir = None" using assms(2) Inr by blast
  ultimately show ?thesis using Inr by (cases "left_over E dir") (auto simp: fun_upd_idem_iff)
qed

lemma write_certs_ok:
  assumes "write_certs E ns ca i s fs = (Inr (dir, bundle), fs')"
  shows "(\<exists>c. Get_ca E i ca = Inr c \<and> bundle = ca_bundle c) \<and> bundle \<noteq> [] \<and> fs' dir = Some [''tls.crt'' \<mapsto> data_of s TLSCertKey, ''tls.key'' \<mapsto> data_of s TLSPrivateKeyKey]
    \<and> (\<forall>d. d \<noteq> dir \<longrightarrow> fs' d = fs d)"
  using assms
  by (auto simp: write_certs_def Let_def write_file_def split: sum.splits option.splits if_splits)

text \<open>A clock that advances by the sleep of every iteration ends the loop.\<close>

definition clock_advances :: "cert_env \<Rightarrow> bool" where
  "clock_advances E \<longleftrightarrow> start_time E \<le> Now E 0 \<and> (\<forall>i. Now E i + webhookCertWaitInterval \<le> Now E (Suc i))"

lemma clock_lower_bound: "clock_advances E \<Longrightarrow> start_time E + int i * 500 \<le> Now E i"
proof (induction i)
  case (Suc i)
  then have "Now E i + 500 \<le> Now E (Suc i)" by (simp add: clock_advances_def webhookCertWaitInterval_def)
  with Suc show ?case by simp
qed (simp add: clock_advances_def)

lemma wait_loop_ends:
  assumes "clock_advances E" and "0 < fuel" and "121 \<le> fuel + i"
  shows "\<exists>r. wait_loop fuel E ns tls ca i fs = Some r"
  using assms(2,3)
proof (induction fuel arbitrary: i)
  case (Suc fuel)
  show ?case
  proof (cases "Now E i < start_time E + webhookCertWaitTimeout")
    case True
    with clock_lower_bound [OF assms(1), of i] Suc.prems have "0 < fuel" by (simp add: webhookCertWaitTimeout_def)
    with Suc show ?thesis by (auto split: option.split)
  qed simp
qed simp

lemma wait_loop_more_fuel:
  "wait_loop fuel E ns tls ca i fs = Some r \<Longrightarrow> fuel \<le> fuel' \<Longrightarrow> wait_loop fuel' E ns tls ca i fs = Some r"
proof (induction fuel arbitrary: i fuel')
  case (Suc fuel)
  then obtain f where "fuel' = Suc f" "fuel \<le> f" by (cases fuel') auto
  with Suc show ?case by (auto split: if_splits option.splits)
qed simp

lemma wait_loop_result:
  assumes "wait_loop fuel E ns tls ca i fs = Some r"
  shows "(\<exists>err. r = (Inl err, fs)) \<or> (\<exists>j s. tls_ready (Get_tls E j tls) = Some s \<and> r = write_certs E ns ca j s fs)"
  using assms
  by (induction fuel arbitrary: i) (auto split: if_splits option.splits)

section \<open>Properties\<close>

text \<open>
  Some files and a bundle are those of the secrets of a service as they could be read in some round:
  the certificate and the key of its TLS secret, and the certificate of its CA secret or, where
  that is empty, the \<open>rootCA.crt\<close> of that secret; none of them is empty.
\<close>

definition certs_of_secrets :: "cert_env \<Rightarrow> string \<Rightarrow> string \<Rightarrow> (string \<rightharpoonup> string) option \<Rightarrow> string \<Rightarrow> bool" where
  "certs_of_secrets E namespace serviceName files pem \<longleftrightarrow>
     (\<exists>i tls ca crt key.
        Get_tls E i (GetTLSPairSecretName E serviceName namespace) = Inr (Some tls)
        \<and> tls ''tls.crt'' = Some crt \<and> tls ''tls.key'' = Some key \<and> crt \<noteq> [] \<and> key \<noteq> []
        \<and> files = Some [''tls.crt'' \<mapsto> crt, ''tls.key'' \<mapsto> key]
        \<and> Get_ca E i (GetRootCASecretName E serviceName namespace) = Inr ca \<and> pem \<noteq> []
        \<and> pem = (if data_of ca ''tls.crt'' \<noteq> [] then data_of ca ''tls.crt'' else data_of ca ''rootCA.crt''))"

text \<open>
  C37. Bootstrapping certificates ends and cleans up. Once its informers have synchronised (or its
  context is done; else it does not return at all), it is over, whatever the cluster answers, after at
  most 121 rounds of a clock that advances by the sleeping time. A failure leaves the temporary
  directories as they were, except for what could not be removed of the new one. A success comes from
  a round in which the secrets of the service could be read: the new directory holds exactly the
  certificate of the TLS secret as \<open>tls.crt\<close> and its private key as \<open>tls.key\<close>, neither of them empty,
  and the bundle is the certificate of the CA secret, or its \<open>rootCA.crt\<close> where that is empty.
\<close>

theorem bootstrap_ends_and_cleans_up:
  assumes "clock_advances E" and "\<forall>prefix dir. MkdirTemp E prefix = Inr dir \<longrightarrow> fs dir = None"
  shows "if NewForConfig E = None \<and> \<not> caches_synced E \<and> \<not> ctx_cancelled E
    then \<forall>fuel. BootstrapWebhookCerts fuel E namespace serviceName fs = None
    else \<exists>res fs'. (\<forall>fuel \<ge> 121. BootstrapWebhookCerts fuel E namespace serviceName fs = Some (res, fs'))
    \<and> (case res of
         Inl err \<Rightarrow> fs' = fs \<or> (\<exists>dir. MkdirTemp E ''kyverno-authz-webhook-certs-'' = Inr dir \<and> left_over E dir \<noteq> None
           \<and> fs' = fs(dir := left_over E dir))
       | Inr (dir, bundle) \<Rightarrow> (\<forall>d. d \<noteq> dir \<longrightarrow> fs' d = fs d)
           \<and> certs_of_secrets E namespace serviceName (fs' dir) bundle)"
proof (cases "NewForConfig E")
  case (Some err)
  have c: "(NewForConfig E = None \<and> \<not> caches_synced E \<and> \<not> ctx_cancelled E) = False" by (simp add: Some)
  have all: "\<forall>fuel \<ge> 121. BootstrapWebhookCerts fuel E namespace serviceName fs = Some (Inl err, fs)"
    by (simp add: BootstrapWebhookCerts_def Some)
  show ?thesis unfolding c if_False
    by (rule exI [of _ "Inl err"], rule exI [of _ fs], rule conjI, rule all, unfold sum.case, rule disjI1, rule refl)
next
  case None
  show ?thesis
  proof (cases "\<not> caches_synced E \<and> \<not> ctx_cancelled E")
    case True
    with None show ?thesis by (simp add: BootstrapWebhookCerts_def Setup_def)
  next
    case False
    let ?tls = "GetTLSPairSecretName E serviceName namespace" and ?ca = "GetRootCASecretName E serviceName namespace"
    let ?loop = "\<lambda>fuel. wait_loop fuel E namespace ?tls ?ca 0 fs"
    have boot: "BootstrapWebhookCerts fuel E namespace serviceName fs = ?loop fuel" for fuel
      using None False by (auto simp: BootstrapWebhookCerts_def Setup_def Let_def)
    obtain res fs' where r: "?loop 121 = Some (res, fs')"
      using wait_loop_ends [OF assms(1), of 121 0] by fastforce
    then have all: "\<forall>fuel \<ge> 121. BootstrapWebhookCerts fuel E namespace serviceName fs = Some (res, fs')"
      by (simp only: boot) (blast intro: wait_loop_more_fuel)
    have c: "(NewForConfig E = None \<and> \<not> caches_synced E \<and> \<not> ctx_cancelled E) = False" using False by blast
    show ?thesis
    proof (cases res)
      case (Inl err)
      have failed: "fs' = fs \<or> (\<exists>dir. MkdirTemp E ''kyverno-authz-webhook-certs-'' = Inr dir \<and> left_over E dir \<noteq> None
           \<and> fs' = fs(dir := left_over E dir))"
        using wait_loop_result [OF r] Inl assms(2) write_certs_error [of E namespace ?ca _ _ fs err fs']
        by fastforce
      show ?thesis unfolding c if_False
        by (rule exI [of _ res], rule exI [of _ fs'], rule conjI, rule all, unfold Inl sum.case, rule failed)
    next
      case (Inr x)
      obtain dir pem where x: "x = (dir, pem)" by (cases x)
      from wait_loop_result [OF r] Inr x obtain i tls where s: "tls_ready (Get_tls E i ?tls) = Some tls"
        and w: "write_certs E namespace ?ca i tls fs = (Inr (dir, pem), fs')" by auto
      obtain crt key where tls: "Get_tls E i ?tls = Inr (Some tls)" "tls ''tls.crt'' = Some crt" "tls ''tls.key'' = Some key"
          "crt \<noteq> []" "key \<noteq> []"
        using s by (auto simp: tls_ready_def data_of_def TLSCertKey_def TLSPrivateKeyKey_def
            split: sum.splits option.splits if_splits)
      from write_certs_ok [OF w] obtain ca where ca: "Get_ca E i ?ca = Inr ca" "pem = ca_bundle ca" "pem \<noteq> []"
        and files: "fs' dir = Some [''tls.crt'' \<mapsto> crt, ''tls.key'' \<mapsto> key]" "\<forall>d. d \<noteq> dir \<longrightarrow> fs' d = fs d"
        using tls(2,3) by (auto simp: data_of_def TLSCertKey_def TLSPrivateKeyKey_def)
      have "pem = (if data_of ca ''tls.crt'' \<noteq> [] then data_of ca ''tls.crt'' else data_of ca ''rootCA.crt'')"
        using ca(2) by (simp add: ca_bundle_def TLSCertKey_def Let_def)
      with tls ca(1,3) files(1) have "certs_of_secrets E namespace serviceName (fs' dir) pem"
        unfolding certs_of_secrets_def by blast
      with files(2) have post: "(\<forall>d. d \<noteq> dir \<longrightarrow> fs' d = fs d) \<and> certs_of_secrets E namespace serviceName (fs' dir) pem"
        by blast
      show ?thesis unfolding c if_False
        by (rule exI [of _ res], rule exI [of _ fs'], rule conjI, rule all, unfold Inr x sum.case prod.case, rule post)
    qed
  qed
qed

text \<open>A cluster whose secret appears in the third round, and one where it never does.\<close>

definition sample_cert_env :: "nat \<Rightarrow> cert_env" where
  "sample_cert_env ready =
    \<lparr>NewForConfig = None, caches_synced = True, ctx_cancelled = False,
     GenerateTLSPairSecretName = (\<lambda>c. cc_ServiceName c @ ''-tls''),
     GenerateRootCASecretName = (\<lambda>c. cc_ServiceName c @ ''-ca''),
     start_time = 0, Now = (\<lambda>i. int i * 500), ctx_Err = (\<lambda>_. None),
     Get_tls = (\<lambda>i _. if i < ready then Inl (ApiNotFound ''not found'') else Inr (Some [''tls.crt'' \<mapsto> ''C'', ''tls.key'' \<mapsto> ''K''])),
     Get_ca = (\<lambda>_ _. Inr [''rootCA.crt'' \<mapsto> ''R'']), MkdirTemp = (\<lambda>p. Inr (p @ ''1'')), WriteFile = (\<lambda>_. None),
     left_over = (\<lambda>_. None)\<rparr>"

theorem bootstrap_ends_and_cleans_up_witness:
  "\<exists>dir fs'. BootstrapWebhookCerts 500 (sample_cert_env 2) ''kyverno'' ''svc'' Map.empty = Some (Inr (dir, ''R''), fs')
     \<and> fs' dir = Some [''tls.crt'' \<mapsto> ''C'', ''tls.key'' \<mapsto> ''K'']"
proof -
  let ?E = "sample_cert_env 2"
  have "clock_advances ?E" and empty: "\<forall>prefix dir. MkdirTemp ?E prefix = Inr dir \<longrightarrow> Map.empty dir = None"
    by (simp_all add: clock_advances_def sample_cert_env_def webhookCertWaitInterval_def)
  note ends = bootstrap_ends_and_cleans_up [OF this, of "''kyverno''" "''svc''"]
  have sync: "(NewForConfig ?E = None \<and> \<not> caches_synced ?E \<and> \<not> ctx_cancelled ?E) = False" by (simp add: sample_cert_env_def)
  have ran: "BootstrapWebhookCerts 500 ?E ''kyverno'' ''svc'' Map.empty
      = Some (write_certs ?E ''kyverno'' ''svc-ca'' 2 [''tls.crt'' \<mapsto> ''C'', ''tls.key'' \<mapsto> ''K''] Map.empty)"
    by (simp add: BootstrapWebhookCerts_def Setup_def sample_cert_env_def GetTLSPairSecretName_def GetRootCASecretName_def
        eval_nat_numeral webhookCertWaitTimeout_def tls_ready_def data_of_def TLSCertKey_def TLSPrivateKeyKey_def)
  obtain dir fs' where w: "write_certs ?E ''kyverno'' ''svc-ca'' 2 [''tls.crt'' \<mapsto> ''C'', ''tls.key'' \<mapsto> ''K''] Map.empty
      = (Inr (dir, ''R''), fs')"
    by (simp add: write_certs_def sample_cert_env_def ca_bundle_def data_of_def TLSCertKey_def Let_def)
  have "\<exists>res gs. (\<forall>fuel \<ge> 121. BootstrapWebhookCerts fuel ?E ''kyverno'' ''svc'' Map.empty = Some (res, gs))
      \<and> (\<forall>dir pem. res = Inr (dir, pem) \<longrightarrow> certs_of_secrets ?E ''kyverno'' ''svc'' (gs dir) pem)"
    using ends unfolding sync if_False
    apply (elim exE conjE)
    apply (intro exI conjI)
    apply assumption
    apply (simp split: sum.splits prod.splits)
    done
  then obtain res gs where all: "\<forall>fuel \<ge> 121. BootstrapWebhookCerts fuel ?E ''kyverno'' ''svc'' Map.empty = Some (res, gs)"
    and post: "\<forall>dir pem. res = Inr (dir, pem) \<longrightarrow> certs_of_secrets ?E ''kyverno'' ''svc'' (gs dir) pem" by blast
  have "BootstrapWebhookCerts 500 ?E ''kyverno'' ''svc'' Map.empty = Some (res, gs)" using all by (rule allE [of _ 500]) simp
  with ran w have "res = Inr (dir, ''R'')" "gs = fs'" by simp_all
  with post have "certs_of_secrets ?E ''kyverno'' ''svc'' (fs' dir) ''R''" by simp
  then obtain i tls crt key where k: "Get_tls ?E i (GetTLSPairSecretName ?E ''svc'' ''kyverno'') = Inr (Some tls)"
    "tls ''tls.crt'' = Some crt" "tls ''tls.key'' = Some key" "fs' dir = Some [''tls.crt'' \<mapsto> crt, ''tls.key'' \<mapsto> key]"
    unfolding certs_of_secrets_def by blast
  have "tls = [''tls.crt'' \<mapsto> ''C'', ''tls.key'' \<mapsto> ''K'']"
    using k(1) by (auto simp: sample_cert_env_def split: if_splits)
  with k(2-4) have "fs' dir = Some [''tls.crt'' \<mapsto> ''C'', ''tls.key'' \<mapsto> ''K'']" by simp
  with ran w show ?thesis by simp
qed

end
