(* ===== verification/WebhookCommands.thy ===== *)
theory WebhookCommands
  imports Admission CertManager Registry
begin

text \<open>
  The webhook commands (\<open>pkg/commands/serve/*/validation-webhook\<close>,
  \<open>pkg/commands/serve/sidecar-injector\<close>): how they obtain their certificates, patch the
  configuration of the webhook and what they start. The result of waiting for the certificates is
  that of \<open>BootstrapWebhookCerts\<close> when it returns; log messages are left out.
\<close>

section \<open>The validation webhooks\<close>

record webhook_flags =
  wf_probesAddress :: string
  wf_metricsAddress :: string
  internalCertManagement :: bool
  webhookNamespace :: string
  webhookServiceName :: string
  webhookConfigurationName :: string

definition webhook_default_flags :: webhook_flags where
  "webhook_default_flags = \<lparr>wf_probesAddress = '':9080'', wf_metricsAddress = '':9082'', internalCertManagement = True,
     webhookNamespace = ''kyverno'', webhookServiceName = ''kyverno-authz-server-validation'', webhookConfigurationName = []\<rparr>"

text \<open>
  What the environment answers; \<open>we_certs\<close> is what waiting for the certificates of a namespace and
  service returned.
\<close>

record ('o, 'c) webhook_env =
  we_ClientConfig :: "go_error option"
  we_certs :: "string \<Rightarrow> string \<Rightarrow> go_error + string \<times> string"
  we_clientset :: "go_error option"
  we_client :: "('o, 'c) webhook_client"
  we_dynamic :: "go_error option"
  we_install :: "go_error option"
  we_NewManager :: "string \<Rightarrow> go_error option"
  we_Complete :: "go_error option"

text \<open>The tasks: the manager with its certificate directory and address, and the probes.\<close>

datatype webhook_task = WebhookManager string string | WebhookProbes string

definition certs_error :: "go_error \<Rightarrow> go_error" where
  "certs_error err = Errorf (''failed to bootstrap webhook certs: '' @ error_text err)"

definition default_cert_dir :: string where
  "default_cert_dir = ''/tmp/k8s-webhook-server/serving-certs''"

text \<open>
  The directory of the certificates and the configuration sent to the API, if any; an error of
  the patch is only logged.
\<close>

definition webhook_certs :: "('o, 'c) webhook_env \<Rightarrow> webhook_flags
    \<Rightarrow> go_error + string \<times> ('o, 'c) webhook_config option" where
  "webhook_certs E f =
     (if internalCertManagement f then
        (case we_certs E (webhookNamespace f) (webhookServiceName f) of
           Inl err \<Rightarrow> Inl (certs_error err)
         | Inr (certDir, caBundle) \<Rightarrow>
             (case we_clientset E of
                Some err \<Rightarrow> Inl err
              | None \<Rightarrow> Inr (certDir, snd (PatchValidatingWebhookConfigCA (we_client E) (webhookConfigurationName f) caBundle))))
      else Inr (default_cert_dir, None))"

text \<open>\<open>dyn\<close>: the Envoy command needs a dynamic client for its compiler, the HTTP command none.\<close>

definition webhook_setup :: "bool \<Rightarrow> ('o, 'c) webhook_env \<Rightarrow> webhook_flags
    \<Rightarrow> webhook_task list \<times> go_error option \<times> ('o, 'c) webhook_config option" where
  "webhook_setup dyn E f =
     (case we_ClientConfig E of
        Some err \<Rightarrow> ([], Some err, None)
      | None \<Rightarrow>
     (case webhook_certs E f of
        Inl err \<Rightarrow> ([], Some err, None)
      | Inr (certDir, patched) \<Rightarrow>
     (case (if dyn then we_dynamic E else None) of
        Some err \<Rightarrow> ([], Some err, patched)
      | None \<Rightarrow>
     (case we_install E of
        Some err \<Rightarrow> ([], Some err, patched)
      | None \<Rightarrow>
     (case we_NewManager E certDir of
        Some err \<Rightarrow> ([], Some (Errorf (''failed to construct manager: '' @ error_text err)), patched)
      | None \<Rightarrow>
     (case we_Complete E of
        Some err \<Rightarrow> ([], Some (Errorf (''failed to create webhook: '' @ error_text err)), patched)
      | None \<Rightarrow>
          ([WebhookManager certDir (wf_metricsAddress f), WebhookProbes (wf_probesAddress f)], None, patched)))))))"

definition envoy_webhook_setup :: "('o, 'c) webhook_env \<Rightarrow> webhook_flags
    \<Rightarrow> webhook_task list \<times> go_error option \<times> ('o, 'c) webhook_config option" where
  "envoy_webhook_setup E f = webhook_setup True E f"

definition http_webhook_setup :: "('o, 'c) webhook_env \<Rightarrow> webhook_flags
    \<Rightarrow> webhook_task list \<times> go_error option \<times> ('o, 'c) webhook_config option" where
  "http_webhook_setup E f = webhook_setup False E f"

section \<open>The sidecar injector\<close>

record injector_flags =
  if_address :: string
  if_certFile :: string
  if_keyFile :: string
  if_configFile :: string
  if_internalCertManagement :: bool
  if_webhookNamespace :: string
  if_webhookServiceName :: string
  if_webhookConfigurationName :: string

definition injector_default_flags :: injector_flags where
  "injector_default_flags = \<lparr>if_address = '':9443'', if_certFile = [], if_keyFile = [], if_configFile = [],
     if_internalCertManagement = True, if_webhookNamespace = ''kyverno'', if_webhookServiceName = ''kyverno-sidecar-injector'',
     if_webhookConfigurationName = []\<rparr>"

text \<open>The server that is run: its address, its certificate files and the sidecar.\<close>

record ('c, 'v, 'r) injector_server =
  is_Addr :: string
  is_certFile :: string
  is_keyFile :: string
  is_sidecar :: "('c, 'v, 'r) Sidecar option"

definition injector_certs :: "('o, 'c) webhook_env \<Rightarrow> injector_flags
    \<Rightarrow> go_error + (string \<times> string) \<times> ('o, 'c) webhook_config option" where
  "injector_certs E f =
     (if if_internalCertManagement f \<and> if_certFile f = [] \<and> if_keyFile f = [] then
        (case we_ClientConfig E of
           Some err \<Rightarrow> Inl err
         | None \<Rightarrow>
             (case we_certs E (if_webhookNamespace f) (if_webhookServiceName f) of
                Inl err \<Rightarrow> Inl err
              | Inr (certDir, caBundle) \<Rightarrow>
                  (case we_clientset E of
                     Some err \<Rightarrow> Inl err
                   | None \<Rightarrow> Inr ((certDir @ ''/tls.crt'', certDir @ ''/tls.key''),
                       snd (PatchMutatingWebhookConfigCA (we_client E) (if_webhookConfigurationName f) caBundle)))))
      else Inr ((if_certFile f, if_keyFile f), None))"

definition injector_setup :: "('o, 'c) webhook_env \<Rightarrow> (string \<Rightarrow> go_error + ('a, 'v, 'r) Sidecar option) \<Rightarrow> injector_flags
    \<Rightarrow> go_error + ('a, 'v, 'r) injector_server" where
  "injector_setup E load f =
     (case injector_certs E f of
        Inl err \<Rightarrow> Inl err
      | Inr ((certFile, keyFile), patched) \<Rightarrow>
          (case load (if_configFile f) of
             Inl err \<Rightarrow> Inl err
           | Inr sidecar \<Rightarrow> Inr \<lparr>is_Addr = if_address f, is_certFile = certFile, is_keyFile = keyFile, is_sidecar = sidecar\<rparr>))"

section \<open>Lemmas\<close>

text \<open>
  A validation webhook starts with both tasks or with an error and none; with internal
  certificates its manager reads them from the directory they were written to, and every webhook
  of the configuration it patched carries their bundle.
\<close>

lemma webhook_setup_all_or_nothing:
  "(tasks, err, patched) = webhook_setup dyn E f \<Longrightarrow>
     (err = None \<longleftrightarrow> tasks \<noteq> []) \<and> (err = None \<longrightarrow> (\<exists>certDir.
        tasks = [WebhookManager certDir (wf_metricsAddress f), WebhookProbes (wf_probesAddress f)]
        \<and> (internalCertManagement f \<longrightarrow> (\<exists>ca. we_certs E (webhookNamespace f) (webhookServiceName f) = Inr (certDir, ca)))
        \<and> (\<not> internalCertManagement f \<longrightarrow> certDir = default_cert_dir)))"
  by (auto simp: webhook_setup_def webhook_certs_def split: option.splits sum.splits if_splits)

lemma webhook_patch_bundle:
  assumes "webhook_certs E f = Inr (certDir, Some config)"
  shows "\<exists>ca. we_certs E (webhookNamespace f) (webhookServiceName f) = Inr (certDir, ca)
    \<and> (\<forall>wh \<in> set (wc_Webhooks config). wh_CABundle wh = ca)"
proof -
  from assms obtain ca where ca: "we_certs E (webhookNamespace f) (webhookServiceName f) = Inr (certDir, ca)"
    "snd (PatchValidatingWebhookConfigCA (we_client E) (webhookConfigurationName f) ca) = Some config"
    by (auto simp: webhook_certs_def split: if_splits sum.splits option.splits)
  then obtain err where "PatchValidatingWebhookConfigCA (we_client E) (webhookConfigurationName f) ca = (err, Some config)"
    by (metis prod.collapse)
  then have "\<forall>wh \<in> set (wc_Webhooks config). wh_CABundle wh = ca"
    using patch_sets_bundle [of "we_client E" "webhookConfigurationName f" ca err config] by blast
  with ca show ?thesis by blast
qed

text \<open>The injector serves TLS exactly when it ends up with both files.\<close>

lemma injector_serves_tls:
  assumes "injector_setup E load f = Inr s"
    and "if_internalCertManagement f \<and> if_certFile f = [] \<and> if_keyFile f = []"
  shows "\<exists>dir. serve_call (is_certFile s) (is_keyFile s) = ListenAndServeTLS (dir @ ''/tls.crt'') (dir @ ''/tls.key'')"
  using assms
  by (auto simp: injector_setup_def injector_certs_def serve_call_def split: option.splits sum.splits)

lemma injector_without_key_serves_plain:
  assumes "injector_setup E load f = Inr s" and "if_certFile f \<noteq> []" and "if_keyFile f = []"
  shows "serve_call (is_certFile s) (is_keyFile s) = ListenAndServe"
  using assms
  by (auto simp: injector_setup_def injector_certs_def serve_call_def split: option.splits sum.splits)

end
