(* ===== verification/Wiring.thy ===== *)
theory Wiring
  imports CommandRun WebhookCommands Servers CompositeStore StaticSource Events
begin

text \<open>
  How the parts are put together where that is more than a call: the in-cluster source with its
  handlers (\<open>NewKube\<close> of \<open>pkg/engine/sources/kube.go\<close>), the loader of embedded definitions that is
  made once (\<open>pkg/data\<close>, \<open>defaultLoader\<close> of \<open>pkg/engine/sources/fs.go\<close>), the composite of event
  handlers (\<open>pkg/events\<close>), the server of the sidecar injector (\<open>pkg/webhook/mutation\<close>) and the
  runs of the webhook commands, which are processes of theory CommandRun.
\<close>

section \<open>The in-cluster source\<close>

text \<open>
  \<open>register\<close> is what registering a controller under a name with the manager returns. The source
  holds the store, the functions the two watchers call, and the key and compile functions of its
  cache.
\<close>

record ('in, 'v) kube_source =
  ks_store :: compositeStore
  ks_handlers :: "(string \<times> string) list"
  ks_key :: "ValidatingPolicy \<Rightarrow> compositeStore \<Rightarrow> (compositeStore \<times> (go_error + string)) outcome"
  ks_compile :: "string list \<Rightarrow> ValidatingPolicy \<Rightarrow> compositeStore
    \<Rightarrow> (compositeStore \<times> (go_error + ('in, 'v) compiledPolicy \<times> field_error list)) outcome"

definition NewKubeSource :: "(string \<Rightarrow> go_error option) \<Rightarrow> ('e, 'ast, 'in, 'v) cel_compiler \<Rightarrow> string
    \<Rightarrow> go_error + ('in, 'v) kube_source" where
  "NewKubeSource register C name =
     (let compositeStore = newCompositeStore
      in case register (name @ ''-vpol'') of
           Some err \<Rightarrow> Inl err
         | None \<Rightarrow>
             (case register (name @ ''-polex'') of
                Some err \<Rightarrow> Inl err
              | None \<Rightarrow> Inr \<lparr>ks_store = compositeStore,
                  ks_handlers = [(name @ ''-vpol'', ''handlePolicy''), (name @ ''-polex'', ''handlePolex'')],
                  ks_key = keyFunc, ks_compile = kube_compile C\<rparr>))"

text \<open>A source starts with an empty, unlocked store, from which every state of it is reachable.\<close>

lemma NewKubeSource_store:
  "NewKubeSource register C name = Inr src \<Longrightarrow> store_reachable C (ks_store src) \<and> \<not> locked (ks_store src)
     \<and> length (ks_handlers src) = 2"
proof -
  assume "NewKubeSource register C name = Inr src"
  then have "ks_store src = newCompositeStore" "length (ks_handlers src) = 2"
    by (auto simp: NewKubeSource_def Let_def split: option.splits)
  then show ?thesis using store_start [of C] by (simp add: newCompositeStore_def)
qed

section \<open>Values computed once\<close>

text \<open>
  \<open>sync.OnceValues\<close>: the first call computes the values, error included, and later calls return
  them. The state is what was computed.
\<close>

definition OnceValues :: "'r \<Rightarrow> 'r option \<Rightarrow> 'r \<times> 'r option" where
  "OnceValues now cell = (case cell of None \<Rightarrow> (now, Some now) | Some r \<Rightarrow> (r, Some r))"

definition crdsFolder :: string where "crdsFolder = ''crds''"

text \<open>The embedded files and taking the sub-tree of a directory.\<close>

definition sub_fs :: "('f \<Rightarrow> string \<Rightarrow> go_error + 'f) \<Rightarrow> 'f \<Rightarrow> string \<Rightarrow> go_error + 'f" where
  "sub_fs fs_Sub f dir = fs_Sub f dir"

definition crds :: "('f \<Rightarrow> string \<Rightarrow> go_error + 'f) \<Rightarrow> 'f \<Rightarrow> go_error + 'f" where
  "crds fs_Sub crdsFs = sub_fs fs_Sub crdsFs crdsFolder"

definition Crds :: "('f \<Rightarrow> string \<Rightarrow> go_error + 'f) \<Rightarrow> 'f \<Rightarrow> (go_error + 'f) option \<Rightarrow> (go_error + 'f) \<times> (go_error + 'f) option" where
  "Crds fs_Sub crdsFs = OnceValues (crds fs_Sub crdsFs)"

definition defaultLoader :: "('f \<Rightarrow> go_error + 'l) \<Rightarrow> (go_error + 'f) option \<Rightarrow> go_error + 'f \<Rightarrow> go_error + 'l" where
  "defaultLoader new_loader given data_Crds =
     (let fs = (case given of None \<Rightarrow> data_Crds | Some fs \<Rightarrow> fs)
      in case fs of Inl err \<Rightarrow> Inl err | Inr crdsFs \<Rightarrow> new_loader crdsFs)"

text \<open>The two cells: the loader's and, below it, the one of the embedded files.\<close>

definition DefaultLoader :: "('f \<Rightarrow> go_error + 'l) \<Rightarrow> ('f \<Rightarrow> string \<Rightarrow> go_error + 'f) \<Rightarrow> 'f
    \<Rightarrow> (go_error + 'l) option \<times> (go_error + 'f) option
    \<Rightarrow> (go_error + 'l) \<times> (go_error + 'l) option \<times> (go_error + 'f) option" where
  "DefaultLoader new_loader fs_Sub crdsFs cells =
     (case cells of (loader, files) \<Rightarrow>
        (case loader of
           Some l \<Rightarrow> (l, Some l, files)
         | None \<Rightarrow>
             (let (data_Crds, files) = Crds fs_Sub crdsFs files;
                  l = defaultLoader new_loader None data_Crds
              in (l, Some l, files))))"

text \<open>
  A loader that could not be made once is never made, and the result does not depend on how often
  it was asked for: with it every document of every file is skipped.
\<close>

lemma DefaultLoader_stable:
  assumes "DefaultLoader new_loader fs_Sub crdsFs cells = (l, cells')"
  shows "DefaultLoader new_loader' fs_Sub' crdsFs' cells' = (l, cells')"
  using assms by (auto simp: DefaultLoader_def Let_def split: prod.splits option.splits)

lemma LoadPolicies_without_loader:
  assumes "make_loader A = Some err"
  shows "LoadPolicies A walk ReadFile = ([], [])"
proof -
  have step: "walk_fn A ReadFile call acc = acc" for call acc
    using assms by (simp add: walk_fn_def split: option.split sum.split)
  have "fold (walk_fn A ReadFile) calls acc = acc" for calls acc
    by (induction calls arbitrary: acc) (simp_all add: step)
  then show ?thesis by (simp add: LoadPolicies_def)
qed

section \<open>Event handlers\<close>

record writerEventSubscriber =
  ws_msgFormat :: string

definition NewWriterEventSubscriber :: "string \<Rightarrow> writerEventSubscriber" where
  "NewWriterEventSubscriber format = \<lparr>ws_msgFormat = format\<rparr>"

record ('e, 's) CompositeEventSubscriber =
  ces_inner :: "('e \<Rightarrow> 's \<Rightarrow> 's outcome) list"

definition NewCompositeSubscriber :: "('e \<Rightarrow> 's \<Rightarrow> 's outcome) list \<Rightarrow> ('e, 's) CompositeEventSubscriber" where
  "NewCompositeSubscriber subs = \<lparr>ces_inner = subs\<rparr>"

text \<open>Every subscriber gets the event, in the order given, unless one before it panics.\<close>

lemma composite_Push_append:
  "composite_Push (xs @ ys) ev s = bind_outcome (composite_Push xs ev s) (composite_Push ys ev)"
proof (induction xs arbitrary: s)
  case (Cons sub xs)
  have "composite_Push (xs @ ys) ev = (\<lambda>s. bind_outcome (composite_Push xs ev s) (composite_Push ys ev))"
    using Cons by blast
  then show ?case by (simp add: bind_outcome_assoc)
qed simp

lemma composite_panics:
  assumes "composite_Push (ces_inner (NewCompositeSubscriber xs)) ev s = Panic msg"
  shows "composite_Push (ces_inner (NewCompositeSubscriber (xs @ ys))) ev s = Panic msg"
  using assms by (simp add: NewCompositeSubscriber_def composite_Push_append)

section \<open>The server of the sidecar injector\<close>

text \<open>Timeouts are in nanoseconds, as \<open>time.Duration\<close> counts them.\<close>

record 'h injector_http_server =
  ih_Addr :: string
  ih_Handler :: 'h
  ih_TLSConfig :: tls_config
  ih_ReadTimeout :: int64
  ih_WriteTimeout :: int64
  ih_ReadHeaderTimeout :: int64
  ih_IdleTimeout :: int64

definition time_Second :: int64 where "time_Second = 1000000000"
definition time_Minute :: int64 where "time_Minute = 60 * time_Second"

definition NewSidecarInjectorServer :: "string \<Rightarrow> 'h \<Rightarrow> 'h injector_http_server" where
  "NewSidecarInjectorServer addr mux =
     \<lparr>ih_Addr = addr, ih_Handler = mux, ih_TLSConfig = server_tls_config,
      ih_ReadTimeout = 30 * time_Second, ih_WriteTimeout = 30 * time_Second, ih_ReadHeaderTimeout = 30 * time_Second,
      ih_IdleTimeout = 5 * time_Minute\<rparr>"

text \<open>No product of durations overflows: every timeout is positive, so none is switched off.\<close>

lemma injector_timeouts_positive:
  "0 < sint (ih_ReadTimeout (NewSidecarInjectorServer addr mux))"
  "0 < sint (ih_WriteTimeout (NewSidecarInjectorServer addr mux))"
  "0 < sint (ih_ReadHeaderTimeout (NewSidecarInjectorServer addr mux))"
  "sint (ih_IdleTimeout (NewSidecarInjectorServer addr mux)) = 300 * 10 ^ 9"
  by (simp_all add: NewSidecarInjectorServer_def time_Second_def time_Minute_def)

section \<open>The webhook commands\<close>

fun webhook_spec_of :: "webhook_task \<Rightarrow> task_spec" where
  "webhook_spec_of (WebhookManager certDir addr) = \<lparr>t_kind = Managing, t_rank = 2, t_error = None\<rparr>"
| "webhook_spec_of (WebhookProbes addr) = \<lparr>t_kind = HttpServing [] [], t_rank = 0, t_error = None\<rparr>"

definition webhook_process :: "webhook_task list \<times> go_error option \<times> 'p \<Rightarrow> task_spec list \<times> go_error option \<times> process" where
  "webhook_process res =
     (case res of (tasks, err, patched) \<Rightarrow> (map webhook_spec_of tasks, err, process_start err (length tasks)))"

definition http_webhook_RunE :: "('o, 'c) webhook_env \<Rightarrow> webhook_flags \<Rightarrow> task_spec list \<times> go_error option \<times> process" where
  "http_webhook_RunE E f = webhook_process (http_webhook_setup E f)"

text \<open>The Envoy webhook has flags with the same defaults.\<close>

definition envoy_webhook_default_flags :: webhook_flags where
  "envoy_webhook_default_flags = \<lparr>wf_probesAddress = '':9080'', wf_metricsAddress = '':9082'', internalCertManagement = True,
     webhookNamespace = ''kyverno'', webhookServiceName = ''kyverno-authz-server-validation'', webhookConfigurationName = []\<rparr>"

definition envoy_webhook_RunE :: "('o, 'c) webhook_env \<Rightarrow> webhook_flags \<Rightarrow> task_spec list \<times> go_error option \<times> process" where
  "envoy_webhook_RunE E f = webhook_process (envoy_webhook_setup E f)"

text \<open>The injector runs its server alone: a group of one task, or none when the set-up failed.\<close>

definition injector_RunE :: "('o, 'c) webhook_env \<Rightarrow> (string \<Rightarrow> go_error + ('a, 'v, 'r) Sidecar option) \<Rightarrow> injector_flags
    \<Rightarrow> task_spec list \<times> go_error option \<times> process" where
  "injector_RunE E load f =
     (case injector_setup E load f of
        Inl err \<Rightarrow> ([], Some err, process_start (Some err) 0)
      | Inr s \<Rightarrow> ([\<lparr>t_kind = HttpServing (is_certFile s) (is_keyFile s), t_rank = 0, t_error = None\<rparr>], None, process_start None 1))"

text \<open>
  Each of these commands ends: at most 27 steps, and what it returns are the errors of its set-up
  and of its tasks, all of which have ended cleanly.
\<close>

lemma webhook_process_start:
  "webhook_process (webhook_setup dyn E f) = (specs, err, p0) \<Longrightarrow> p0 = process_start err (length specs) \<and> length specs \<le> 2"
  by (auto simp: webhook_process_def webhook_setup_def webhook_certs_def split: option.splits sum.splits if_splits)

lemma webhook_commands_end:
  assumes "(specs, err, p0) = http_webhook_RunE E f \<or> (specs, err, p0) = envoy_webhook_RunE E f
      \<or> (specs, err, p0) = injector_RunE E load g"
    and "(process_step specs err ^^ n) p0 p"
  shows "n \<le> 27" and "do_main (p_do p) = DoReturned errs \<Longrightarrow> list_all2 task_clean specs (cr_tasks (p_cmd p))
    \<and> errs = Combine [err] @ rank_order specs (map (the \<circ> task_errs) (cr_tasks (p_cmd p)))"
proof -
  have "p0 = process_start err (length specs) \<and> length specs \<le> 2"
    using assms(1) webhook_process_start [of False E f specs err p0] webhook_process_start [of True E f specs err p0]
    by (auto simp: http_webhook_RunE_def envoy_webhook_RunE_def http_webhook_setup_def envoy_webhook_setup_def
        injector_RunE_def split: sum.splits)
  then have p0: "p0 = process_start err (length specs)" "length specs \<le> 2" by auto
  note ends = process_ends_cleanly [OF assms(2) [unfolded p0(1)]]
  show "n \<le> 27" using ends(1) p0(2) by simp
  show "list_all2 task_clean specs (cr_tasks (p_cmd p))
      \<and> errs = Combine [err] @ rank_order specs (map (the \<circ> task_errs) (cr_tasks (p_cmd p)))"
    if "do_main (p_do p) = DoReturned errs"
    using ends(3) [OF that] by blast
qed

section \<open>Names of the commands\<close>

record command_info =
  ci_Use :: string
  ci_Short :: string

definition http_authz_info :: command_info where
  "http_authz_info = \<lparr>ci_Use = ''authz-server'', ci_Short = ''Start the Kyverno Authz Server''\<rparr>"
definition envoy_authz_info :: command_info where
  "envoy_authz_info = \<lparr>ci_Use = ''authz-server'', ci_Short = ''Start the Kyverno Authz Server''\<rparr>"
definition http_webhook_info :: command_info where
  "http_webhook_info = \<lparr>ci_Use = ''validation-webhook'', ci_Short = ''Start the validation webhook''\<rparr>"
definition envoy_webhook_info :: command_info where
  "envoy_webhook_info = \<lparr>ci_Use = ''validation-webhook'', ci_Short = ''Start the validation webhook''\<rparr>"
definition injector_info :: command_info where
  "injector_info = \<lparr>ci_Use = ''sidecar-injector'',
     ci_Short = ''Start the Kubernetes mutating webhook injecting Kyverno Authz Server sidecars into pod containers''\<rparr>"

end
