(* ===== verification/Spec2Isabelle.thy ===== *)
theory Spec2Isabelle
  imports HttpLib EnvoyLib AuthzHttp AuthzEnvoy Admission TokenLib Servers Libraries Cluster DocGen Interleaving
    StoreCache MetricsRegistry Verdicts EventLoops Admitted Wiring
begin

text \<open>
  A verification library for the Kyverno authorization server.

  \<^bold>\<open>The program.\<close> Policies (\<open>ValidatingPolicy\<close>, with \<open>PolicyException\<close>) are written in CEL. They are read from
  the cluster or from files, compiled, and put to every request an HTTP server or an Envoy gRPC server is
  asked about; the answer is sent, counted in metrics and handed to event subscribers. Webhooks validate
  policies and inject the server as a sidecar. The calls go
  \<open>commands\<close> to \<open>NewServer\<close> to (engine of the SDK over a source) to \<open>Evaluate\<close> to the CEL programs, which call back
  into the CEL libraries of the repository.

  \<^bold>\<open>Theories and sources.\<close> Definitions keep the names of the code, with a prefix where a name clashes.

  \<^item> Prelude: results of Go calls (return, panic, block), errors, iteration order of maps, decimal printing.
    Strconv: integer and float parsing at their widths.
  \<^item> Cel, Env, CelLib, Libraries: values and conversions (\<open>pkg/cel/utils\<close>, \<open>variables.go\<close>), environments
    (\<open>pkg/cel/env.go\<close>), overloads with their bindings, and what each \<open>pkg/cel/libs/**/lib.go\<close> registers.
  \<^item> Policy, Compiler: \<open>pkg/engine/compiler/policy.go\<close> and \<open>compiler.go\<close>.
  \<^item> CompositeStore, StoreCache, Interleaving: the in-cluster source (\<open>pkg/engine/sources/composite_source.go\<close>,
    \<open>kube.go\<close>), first as atomic operations over a heap, then with compiled policies kept under their cache keys, then
    as interleaved threads.
  \<^item> StaticSource: policies from files (\<open>sources/fs.go\<close>, \<open>pkg/utils/sources.go\<close>, \<open>map.go\<close>). Verdicts: what a list of
    compiled policies says of a request, and when its order matters. Registry: OCI
    registries (\<open>pkg/utils/ocifs\<close>). Cluster: resource and image lookups (\<open>pkg/engine/variables\<close>, \<open>crd.go\<close>).
  \<^item> HttpLib, EnvoyLib, Mcp, TokenLib: the CEL libraries \<open>authz/http\<close>, \<open>httpserver\<close>, \<open>authz/envoy\<close>, \<open>mcp\<close>, \<open>jwt\<close>, \<open>jwk\<close>, \<open>json\<close>
    with \<open>pkg/cel/impl\<close>; Envoy messages live in a heap because the library changes them in place.
  \<^item> Metrics, MetricsRegistry, RingBuffer, Events, EventLoops: \<open>pkg/metrics\<close> (the counters and
    what a request asks of their vectors; the registration of the vectors, and when recording panics), \<open>pkg/events\<close> (its operations; the goroutines of a subscriber).
  \<^item> Dispatch, AuthzHttp, AuthzEnvoy, Servers: \<open>pkg/authz/http\<close> and \<open>pkg/authz/envoy\<close>, from one evaluation to a request
    to the server that is built from a configuration.
  \<^item> ServerRun: \<open>pkg/server/http.go\<close>, \<open>grpc.go\<close>, \<open>pkg/signals\<close>, probes. Admission: webhook handlers, sidecar,
    validator. Admitted: what the validator promises to the in-cluster source. CertManager: \<open>pkg/certmanager\<close>.
  \<^item> Commands, WebhookCommands: the set-up of the commands in \<open>pkg/commands\<close>. CommandRun: how they run, as a group of
    tasks below a signal handler. CommandLine, DocGen: \<open>main.go\<close>, \<open>pkg/version\<close>, the documentation generator.
  \<^item> Wiring: the in-cluster source with its handlers, values computed once (\<open>pkg/data\<close>), the composite of event
    handlers, the injector's server, and the runs of the webhook commands.

  \<^bold>\<open>How it is modelled.\<close> Fallible code returns a sum with the error on the left, or a pair where the code returns both;
  an optional pointer is an option and dereferencing nil is the outcome \<open>Panic\<close>; waiting for a mutex that is
  held is \<open>Blocked\<close>. Integers are 64-bit words. A loop over a map takes the order in which its keys come as a
  list, and statements quantify over it. Goroutines are program counters of one state and their
  interleavings are runs of an inductive step relation.

  \<^bold>\<open>What is shown.\<close> The first three properties join the components: a server built over policies answers with their
  verdict, which is defined without loops, and a policy in a file that denies makes the server deny. The next ones are about one policy (verdict, match
  conditions, exceptions, termination of variables) and its compilation. The store has an
  invariant of its pointers and links, kept by every operation, laws for each event, and for its concurrency
  mutual exclusion and the two ways in which it fails; keeping a compiled policy under its key is the same as
  compiling it again, and an admitted policy fails to compile only with an exception. Verdicts are a monoid, and the order of files matters exactly on a conflict. The request handlers fail closed and agree with their
  metrics and events. Recording a request panics exactly on labels that are not UTF-8, and the HTTP handler then answers
  nothing: the statements about its answers speak of requests whose labels are UTF-8, or say what happens otherwise. The libraries never panic on well-typed arguments; the ring buffer refines a log, the reports made from it are exact in every
  interleaving without a flush interval, and with one a flush can read it torn or panic. The set-up of a command succeeds
  exactly when the calls it depends on do. A command refines a group of tasks. Of its steps some are its environment's (signals, failures
  nobody asked for); once told to end it returns by its own steps alone, leaves nothing running and returns all errors,
  except that an Envoy server which serves a check that never ends keeps it from returning. The wait for certificates ends
  once the informers have synchronised. The contracts that several definitions share are locales
  interpreted on the model: guarded operations of the store, objects stamped with a counter, modes of decision, builders of messages,
  typed getters, dropping channels, the bounded log, graceful servers.

  \<^bold>\<open>Bounds.\<close> Variables are evaluated lazily with a depth; the number of variables is enough, because the compiler orders
  them. The counter of a policy has 64 bits, so keys are compared over fewer than that many events. Event channels hold 50 events. Floats have 53 bits. A run of a server has at most seven steps, a
  command with its at most three tasks and its signals 36, the wait for certificates at most 121 rounds: it sleeps half a second and gives up after a minute.

  \<^bold>\<open>Parameters.\<close> Code outside the repository is an argument of the definitions that use it: CEL (checking,
  planning and running expressions), the engine, cache and libraries of the SDK, Kubernetes clients, registry
  clients, the metrics client, the token and MCP packages, JSON and YAML. What is relied on is a named hypothesis
  (\<open>dispatch_law\<close>, \<open>multierr_law\<close>, \<open>default_expression_law\<close>, \<open>evaluates_policies\<close>; \<open>vector_law\<close> and \<open>registry_law\<close> of the
  metrics client; \<open>struct_law\<close> of protobuf structs, which refuse text that is not UTF-8; those of the other libraries). What
  the environment may do is an argument or a step too: informers that never synchronise, a directory that cannot be
  removed, a check that never ends. Each
  theorem with hypotheses is followed by an instance in which they hold.

  \<^bold>\<open>Not modelled.\<close> Log messages and elapsed times; help texts and argument parsing (cobra), and what cobra writes for
  a command; the interfaces of \<open>pkg/engine\<close>, which hold no code; the binding of the Kubernetes flags. The
  cache of the SDK between the store and the engine is outside the repository: shown is what holds of any cache that uses the keys and the
  compile function of the repository, not when it reads them.

  \<^bold>\<open>Next.\<close> The input expression and its types; the goroutines of the Kubernetes events subscriber; the compile
  function of the source inside the engine's evaluation, to state what a request sees of a panic there.
\<close>

section \<open>From the policies to the answer\<close>

text \<open>A handler serves policies when it is the sequential engine over their evaluations.\<close>

definition serves_policies :: "nat \<Rightarrow> ('v, 'r) val_api \<Rightarrow> ('in, 'v) compiledPolicy list \<Rightarrow> ('r evaluation \<Rightarrow> bool)
    \<Rightarrow> ('r evaluation \<Rightarrow> bool) \<Rightarrow> ('in \<Rightarrow> 'r evaluation) \<Rightarrow> bool" where
  "serves_policies fuel V ps brk dec handle \<longleftrightarrow>
     (\<exists>evaluate. first_dispatch_engine handle evaluate brk dec ps
        \<and> (\<forall>p \<in> set ps. \<forall>r out. Evaluate fuel V p r = Ret out \<longrightarrow> evaluate p r = out))"

context decision_mode
begin

lemma find_request_verdict:
  assumes "\<forall>p \<in> set ps. evaluate p r = apply_failure_policy (failurePolicy p) (policy_verdict fuel V p r)"
  shows "(case find (\<lambda>p. decisive (evaluate p r)) ps of Some p \<Rightarrow> evaluate p r | None \<Rightarrow> (None, None))
    = apply_failure_policy Fail (request_verdict fuel V ps r)"
  using assms
proof (induction ps)
  case (Cons p ps)
  then show ?case
    by (auto simp: apply_failure_policy_def decisive_iff split: verdict.splits option.splits)
qed (simp add: apply_failure_policy_def)

lemma serves_policies_verdict:
  assumes "serves_policies fuel V ps breaker decisive handle"
    and "multierr_law V" and "\<forall>p \<in> set ps. no_nil_values fuel V p r"
  shows "handle r = apply_failure_policy Fail (request_verdict fuel V ps r)"
proof -
  obtain evaluate where e: "first_dispatch_engine handle evaluate breaker decisive ps"
    "\<forall>p \<in> set ps. \<forall>r out. Evaluate fuel V p r = Ret out \<longrightarrow> evaluate p r = out"
    using assms(1) unfolding serves_policies_def by blast
  have "\<forall>p \<in> set ps. evaluate p r = apply_failure_policy (failurePolicy p) (policy_verdict fuel V p r)"
  proof
    fix p
    assume "p \<in> set ps"
    with assms(3) have "no_nil_values fuel V p r" by blast
    from e(2) \<open>p \<in> set ps\<close> Evaluate_verdict [OF assms(2) this]
    show "evaluate p r = apply_failure_policy (failurePolicy p) (policy_verdict fuel V p r)" by metis
  qed
  with find_request_verdict [of ps evaluate r fuel V] engine_first [OF e(1), of r] show ?thesis by simp
qed

end

lemma http_read_cong:
  assumes "inputProgram A = inputProgram B" and "nestedRequest A = nestedRequest B"
    and "ReadRequest A = ReadRequest B" and "newRequest A = newRequest B"
  shows "http_read A = http_read B"
proof -
  have "run_input A = run_input B" by (rule ext) (simp add: run_input_def assms(1))
  with assms show ?thesis by (intro ext) (simp add: http_read_def split: sum.split)
qed

text \<open>Sample policies over responses as values: one rule, or one that always fails.\<close>

definition response_api :: "('o option, 'o) val_api" where
  "response_api = \<lparr>native_bool = (\<lambda>_. Inl (Errorf ''unsupported conversion'')),
     go_value = (\<lambda>v. case v of None \<Rightarrow> AnyNil | Some x \<Rightarrow> AnyOut (Some x)),
     is_null_value = (\<lambda>v. v = None), wrap_err = (\<lambda>_. None), combine = sample_combine, out_type_name = ''response''\<rparr>"

definition rule_policy :: "failure_policy \<Rightarrow> ('in \<Rightarrow> 'o option \<times> go_error option) \<Rightarrow> ('in, 'o option) compiledPolicy" where
  "rule_policy fp rule = \<lparr>cp_name = ''p'', failurePolicy = fp, matchConditions = [], variables = Map.empty,
     rules = [\<lambda>data. case rule (act_object data) of (v, err) \<Rightarrow> (Some v, err)], exceptions = []\<rparr>"

definition policies_handle :: "('in, 'o option) compiledPolicy list \<Rightarrow> ('o evaluation \<Rightarrow> bool) \<Rightarrow> ('o evaluation \<Rightarrow> bool)
    \<Rightarrow> 'in \<Rightarrow> 'o evaluation" where
  "policies_handle ps brk dec r =
     (case find dec (sequential (\<lambda>p. case Evaluate 0 response_api p r of Ret out \<Rightarrow> out | _ \<Rightarrow> (None, None)) brk ps) of
        Some out \<Rightarrow> out | None \<Rightarrow> (None, None))"

lemma policies_handle_serves: "serves_policies 0 response_api ps brk dec (policies_handle ps brk dec)"
  unfolding serves_policies_def
  by (rule exI [of _ "\<lambda>p r. case Evaluate 0 response_api p r of Ret out \<Rightarrow> out | _ \<Rightarrow> (None, None)"])
    (simp add: first_dispatch_engine_def policies_handle_def)

lemma response_api_law: "multierr_law response_api"
proof -
  have "sample_combine errs = None \<longleftrightarrow> errs = []" for errs
    by (cases errs rule: sample_combine.cases) auto
  then show ?thesis by (simp add: multierr_law_def response_api_def)
qed

lemma rule_policy_no_nil: "no_nil_values fuel V (rule_policy fp rule) r"
  by (simp add: no_nil_values_def rule_policy_def)

lemma rule_policy_verdict:
  "policy_verdict fuel response_api (rule_policy fp rule) r =
     (case rule r of (_, Some e) \<Rightarrow> Errored e | (None, None) \<Rightarrow> Skipped | (Some x, None) \<Rightarrow> Decided (Some x))"
  by (auto simp: policy_verdict_def rule_policy_def rule_verdict_def response_api_def rule_data_def setupVariables_def
      split: prod.splits option.splits)

text \<open>
  From the policies to the HTTP answer: under the default output expression a readable
  request that can be recorded is answered with what the policies say of it, 403 with the reason of
  the first denial, 500 with the text of the first error of a policy that fails closed, and 200
  otherwise.
\<close>

lemma http_answer_is_verdict:
  assumes "serves_policies fuel V ps http_breaker http_decisive handle"
    and "multierr_law V" and "\<forall>p \<in> set ps. no_nil_values fuel V p q"
    and "\<forall>m. fst (engine A q m) = handle q" and "http_read A r = Inr q"
    and "outputProgram A = default_output no_field" and "w_Status w = None" and "w_Body w = []"
    and "\<forall>x. request_verdict fuel V ps q = Decided (Some x) \<longrightarrow> (resp_Ok x = None) \<noteq> (resp_Denied x = None)"
    and "ServeHTTP A it r w = (w', panic)" and "vector_law (metric_vectors A)" and "labels_valid q"
  shows "panic = None \<and>
    (case request_verdict fuel V ps q of
       Errored e \<Rightarrow> final_status w' = 500 \<and> w_Body w' = error_text e
     | Decided (Some x) \<Rightarrow>
         (case resp_Denied x of
            Some d \<Rightarrow> final_status w' = 403 \<and> w_Body w' = Reason d
          | None \<Rightarrow> final_status w' = 200 \<and> w_Body w' = [])
     | _ \<Rightarrow> final_status w' = 200 \<and> w_Body w' = [])"
proof -
  obtain result error m where e: "engine A q (w_metrics w) = ((result, error), m)" by (metis surj_pair)
  then have v: "(result, error) = apply_failure_policy Fail (request_verdict fuel V ps q)"
    using http_mode.serves_policies_verdict [OF assms(1-3)] assms(4) by (metis fst_conv)
  show ?thesis
  proof (cases "request_verdict fuel V ps q")
    case Skipped
    with v have "result = None" "error = None" by (simp_all add: apply_failure_policy_def)
    with e assms Skipped show ?thesis
      by (auto simp: ServeHTTP_def Let_def http_result_def default_output_def writeResponse_def WriteHeader_def
          statusMin_def statusMax_def final_status_def deferred_records_valid)
  next
    case (Errored x)
    with v have "error = Some x" by (simp add: apply_failure_policy_def)
    with e assms(5,7,8,10) Errored serve_engine_error(1) [OF assms(5) _ assms(11,12)] show ?thesis
      by (auto simp: final_status_def writeErrResp_fresh)
  next
    case (Decided res)
    with v have "result = res" "error = None" by (simp_all add: apply_failure_policy_def)
    with e assms Decided show ?thesis
      by (cases res)
        (auto simp: ServeHTTP_def Let_def http_result_def default_output_def writeResponse_def WriteHeader_def Write_def
          statusMin_def statusMax_def final_status_def bodyAllowedForStatus_def deferred_records_valid split: option.splits)
  qed
qed

definition sample_http_policies :: "((nat, unit) CheckRequest, CheckResponse option) compiledPolicy list" where
  "sample_http_policies =
     [rule_policy Ignore (\<lambda>_. (None, Some (Errorf ''ignored''))),
      rule_policy Fail (\<lambda>q. (if attr_Path (Attributes q) = ''/deny'' then Some (sample_response False) else None, None))]"

text \<open>
  From the policies to the Envoy answer: the check returns the response of the policies'
  verdict, its error when a policy that fails closed errs first, and the empty, allowing
  response when no policy speaks to the request.
\<close>

lemma envoy_answer_is_verdict:
  assumes "serves_policies fuel V ps envoy_breaker envoy_decisive handle"
    and "multierr_law V" and "\<forall>p \<in> set ps. no_nil_values fuel V p r"
    and "\<forall>m. fst (s_engine S r m) = handle r"
    and "Check S r w = ((response, err), w')"
  shows "(response, err) =
    (case request_verdict fuel V ps r of
       Errored e \<Rightarrow> (empty_response, Some e)
     | Decided (Some x) \<Rightarrow> (x, None)
     | _ \<Rightarrow> (empty_response, None))"
proof -
  obtain result error m where e: "s_engine S r (e_metrics w) = ((result, error), m)" by (metis surj_pair)
  then have "(result, error) = apply_failure_policy Fail (request_verdict fuel V ps r)"
    using envoy_mode.serves_policies_verdict [OF assms(1-3)] assms(4) by (metis fst_conv)
  moreover have "(response, err) = (case result of Some x \<Rightarrow> (x, None) | None \<Rightarrow> (empty_response, error))"
    using assms(5) e by (auto simp: Check_def envoy_check_def Let_def split: option.splits if_splits prod.splits)
  ultimately show ?thesis
    by (auto simp: apply_failure_policy_def split: verdict.splits option.splits)
qed

section \<open>The servers\<close>

text \<open>
  What the evaluator of the engine knows of the policies: it answers what \<open>Evaluate\<close> returns.
\<close>

definition evaluates_policies :: "nat \<Rightarrow> ('v, 'r) val_api \<Rightarrow> ('in, 'v) compiledPolicy list
    \<Rightarrow> (('in, 'v) compiledPolicy \<Rightarrow> 'in \<Rightarrow> 'r evaluation) \<Rightarrow> bool" where
  "evaluates_policies fuel V ps evaluate \<longleftrightarrow>
     (\<forall>p \<in> set ps. \<forall>r out. Evaluate fuel V p r = Ret out \<longrightarrow> evaluate p r = out)"

lemma http_engine_serves:
  "dispatch_law core \<Longrightarrow> evaluates_policies fuel V ps evaluate \<Longrightarrow>
   serves_policies fuel V ps http_breaker http_decisive (\<lambda>r. fst (http_engine core named evaluate ps r m))"
  unfolding serves_policies_def evaluates_policies_def http_engine_def
  using dispatch_law_first by blast

lemma envoy_engine_serves:
  "dispatch_law core \<Longrightarrow> evaluates_policies fuel V ps evaluate \<Longrightarrow>
   serves_policies fuel V ps envoy_breaker envoy_decisive (\<lambda>r. fst (envoy_engine core named evaluate ps r m))"
  unfolding serves_policies_def evaluates_policies_def envoy_engine_def
  using dispatch_law_first by blast

text \<open>The CEL library gives the default output expression its meaning.\<close>

definition default_expression_law :: "('e, 'ast, 'id, 'x) server_cel \<Rightarrow> go_error \<Rightarrow> bool" where
  "default_expression_law L no_field \<longleftrightarrow>
     (\<forall>base prog. output_program L base default_output_expression = Inr prog \<longrightarrow> prog = default_output no_field)"

text \<open>The policies evaluated for a request with their outcomes: all up to the first response.\<close>

definition evaluated :: "('p \<Rightarrow> 'i \<Rightarrow> 'r evaluation) \<Rightarrow> ('r evaluation \<Rightarrow> bool) \<Rightarrow> 'p list \<Rightarrow> 'i \<Rightarrow> ('p \<times> 'r evaluation) list" where
  "evaluated evaluate brk ps r = zip ps (sequential (\<lambda>p. evaluate p r) brk ps)"

text \<open>
  What a server built over policies answers, and what it counts.
\<close>

lemma http_server_verdict:
  assumes "NewHttpServer L R (http_engine core named evaluate ps) config = Inr s"
    and "dispatch_law core" and "evaluates_policies fuel V ps evaluate"
    and "c_OutputExpression config = []" and "default_expression_law L no_field"
    and "multierr_law V" and "\<forall>p \<in> set ps. no_nil_values fuel V p q"
    and "\<forall>x. request_verdict fuel V ps q = Decided (Some x) \<longrightarrow> (resp_Ok x = None) \<noteq> (resp_Denied x = None)"
    and "http_read (hs_handler s) r = Inr q" and "w_Status w = None" and "w_Body w = []"
    and "vector_law (rr_vectors R)" and "ServeHTTP (hs_handler s) it r w = (w', panic)"
  shows "(if \<forall>l \<in> set (http_labels q). utf8_valid l
     then panic = None \<and>
       (case request_verdict fuel V ps q of
          Errored e \<Rightarrow> final_status w' = 500 \<and> w_Body w' = error_text e
        | Decided (Some x) \<Rightarrow>
            (case resp_Denied x of
               Some d \<Rightarrow> final_status w' = 403 \<and> w_Body w' = Reason d
             | None \<Rightarrow> final_status w' = 200 \<and> w_Body w' = [])
        | _ \<Rightarrow> final_status w' = 200 \<and> w_Body w' = [])
     else panic \<noteq> None)
    \<and> authzDecisionsTotal (w_metrics w') =
        authzDecisionsTotal (record_policies named http_classify (evaluated evaluate http_breaker ps q) (w_metrics w))"
proof -
  obtain base where "output_program L base (c_OutputExpression config) = Inr (outputProgram (hs_handler s))"
    and e: "engine (hs_handler s) = http_engine core named evaluate ps"
    and P: "metric_vectors (hs_handler s) = rr_vectors R"
    using NewHttpServer_ok [OF assms(1)] by metis
  with assms(4,5) output_program_default [of L base]
  have out: "outputProgram (hs_handler s) = default_output no_field"
    by (simp add: default_expression_law_def)
  have same: "\<forall>m. fst (engine (hs_handler s) q m) = fst (http_engine core named evaluate ps q (w_metrics w))"
    using dispatch_law_metrics_irrelevant [OF assms(2)] by (simp add: e http_engine_def)
  have law: "vector_law (metric_vectors (hs_handler s))" using assms(12) P by simp
  have counted: "authzDecisionsTotal (w_metrics w') =
      authzDecisionsTotal (record_policies named http_classify (evaluated evaluate http_breaker ps q) (w_metrics w))"
    using serve_policy_counters [OF assms(13,9)]
    by (simp add: e http_engine_def dispatch_law_records [OF assms(2)] evaluated_def)
  show ?thesis
  proof (cases "labels_valid q")
    case True
    with http_answer_is_verdict [OF http_engine_serves [OF assms(2,3)] assms(6,7) same assms(9) out assms(10,11,8,13) law True]
      counted show ?thesis unfolding labels_valid_def by simp
  next
    case False
    with serve_panics [OF assms(13,10) law] assms(9) have "panic \<noteq> None" by blast
    with False counted show ?thesis unfolding labels_valid_def by auto
  qed
qed

text \<open>
  C1. From the policies to the HTTP answer: a server built without an output expression (so with the
  default one) over a set of policies whose deciding response is either ok or denied, not both and
  not neither, answers a readable request with what the policies say of it: 403 with the reason of
  the first denial, 500 with the text of the first error of a policy that fails closed, and 200
  otherwise, also when no policy speaks to the request. This holds of requests whose method, host,
  path and scheme are valid UTF-8; for any other one the handler panics and the client gets no
  answer. In both cases the counters of policies grow by exactly the policies evaluated for it.
\<close>

theorem http_server_answers_verdict:
  assumes "NewHttpServer L R (http_engine core named evaluate ps) config = Inr s"
    and "dispatch_law core" and "evaluates_policies fuel V ps evaluate"
    and "c_OutputExpression config = []" and "default_expression_law L no_field"
    and "multierr_law V" and "\<forall>p \<in> set ps. no_nil_values fuel V p q"
    and "\<forall>x. request_verdict fuel V ps q = Decided (Some x) \<longrightarrow> (resp_Ok x = None) \<noteq> (resp_Denied x = None)"
    and "http_read (hs_handler s) r = Inr q" and "w_Status w = None" and "w_Body w = []"
    and "vector_law (rr_vectors R)" and "ServeHTTP (hs_handler s) it r w = (w', panic)"
  shows "(if \<forall>l \<in> set (http_labels q). utf8_valid l
     then panic = None \<and>
       (case request_verdict fuel V ps q of
          Errored e \<Rightarrow> final_status w' = 500 \<and> w_Body w' = error_text e
        | Decided (Some x) \<Rightarrow>
            (case resp_Denied x of
               Some d \<Rightarrow> final_status w' = 403 \<and> w_Body w' = Reason d
             | None \<Rightarrow> final_status w' = 200 \<and> w_Body w' = [])
        | _ \<Rightarrow> final_status w' = 200 \<and> w_Body w' = [])
     else panic \<noteq> None)
    \<and> authzDecisionsTotal (w_metrics w') =
        authzDecisionsTotal (record_policies named http_classify (evaluated evaluate http_breaker ps q) (w_metrics w))"
  by (rule http_server_verdict [OF assms])

definition sample_server_cel :: "(env_option list, string, nat, unit) server_cel" where
  "sample_server_cel = \<lparr>cel_NewEnv = Inr, cel_Extend = (\<lambda>e opts. Inr (e @ opts)), image_loader_error = None,
     srv_Compile = (\<lambda>e expr. Inr expr), srv_input_Program = (\<lambda>e ast. Inr (\<lambda>q. Inr ValNil)),
     srv_output_Program = (\<lambda>e ast. Inr (default_output (Errorf ''no such key'')))\<rparr>"

definition sample_reader :: "(nat, unit) request_reader" where
  "sample_reader = \<lparr>rr_ReadRequest = (\<lambda>_. Inl (Errorf ''malformed HTTP request'')), rr_newRequest = NewRequest Inr 0 sample_package,
     rr_vectors = sample_vectors\<rparr>"

lemma sample_reader_vectors: "vector_law (rr_vectors sample_reader)"
  by (simp add: sample_reader_def sample_vectors_law)

definition sample_config :: http_config where
  "sample_config = \<lparr>c_Address = '':9081'', c_NestedRequest = False, c_InputExpression = [], c_OutputExpression = [],
     c_CertFile = [], c_KeyFile = []\<rparr>"

definition sample_evaluate_policy :: "('in, 'o option) compiledPolicy \<Rightarrow> 'in \<Rightarrow> 'o evaluation" where
  "sample_evaluate_policy p r = (case Evaluate 0 response_api p r of Ret out \<Rightarrow> out | _ \<Rightarrow> (None, None))"

lemma sample_evaluates: "evaluates_policies 0 response_api ps sample_evaluate_policy"
  by (simp add: evaluates_policies_def sample_evaluate_policy_def)

lemma sample_default_expression: "default_expression_law sample_server_cel (Errorf ''no such key'')"
  by (simp add: default_expression_law_def output_program_def sample_server_cel_def)

lemma sample_server:
  obtains s where "NewHttpServer sample_server_cel sample_reader eng sample_config = Inr s"
    and "http_read (hs_handler s) = http_read sample_authorizer"
proof -
  obtain s where s: "NewHttpServer sample_server_cel sample_reader eng sample_config = Inr s"
    by (simp add: NewHttpServer_def NewAuthorizer_def NewEnv_def NewBaseEnv_def sample_server_cel_def cel_lib.truncate_def
        input_program_def output_program_def sample_config_def)
  then have "http_read (hs_handler s) = http_read sample_authorizer"
    by (elim NewHttpServer_ok, intro http_read_cong)
      (simp_all add: sample_authorizer_def input_program_def sample_config_def sample_reader_def)
  with s show thesis by (rule that)
qed

theorem http_server_answers_verdict_witness:
  "\<exists>s w' panic.
     NewHttpServer sample_server_cel sample_reader
       (http_engine sample_core (\<lambda>p. Some (cp_name p)) sample_evaluate_policy sample_http_policies) sample_config = Inr s
     \<and> ServeHTTP (hs_handler s) [] (sample_request_to ''/deny'') fresh_world = (w', panic)
     \<and> final_status w' = 403 \<and> w_Body w' = ''no''"
proof -
  let ?ps = sample_http_policies
  let ?named = "\<lambda>p. Some (cp_name p)"
  obtain s where s: "NewHttpServer sample_server_cel sample_reader (http_engine sample_core ?named sample_evaluate_policy ?ps)
      sample_config = Inr s" and read: "http_read (hs_handler s) = http_read sample_authorizer"
    by (rule sample_server)
  obtain w' panic where w: "ServeHTTP (hs_handler s) [] (sample_request_to ''/deny'') fresh_world = (w', panic)" by fastforce
  obtain q where q: "http_read sample_authorizer (sample_request_to ''/deny'') = Inr q" "attr_Path (Attributes q) = ''/deny''"
    using sample_http_read by blast
  have v: "request_verdict 0 response_api ?ps q = Decided (Some (sample_response False))"
    by (simp add: sample_http_policies_def rule_policy_verdict q(2)) (simp add: rule_policy_def Ignore_def Fail_def)
  have nil: "\<forall>p \<in> set ?ps. no_nil_values 0 response_api p q"
    by (simp add: sample_http_policies_def rule_policy_no_nil)
  have valid: "(\<forall>l \<in> set (http_labels q). utf8_valid l) = True"
    using sample_labels_valid [OF q(1)] by (simp add: labels_valid_def utf8_valid_ascii)
  have "final_status w' = 403 \<and> w_Body w' = ''no''"
    using http_server_answers_verdict [OF s sample_core_law sample_evaluates _ sample_default_expression response_api_law nil _ _ _ _
        sample_reader_vectors w] v q(1) read
    unfolding valid by (simp add: sample_config_def fresh_world_def sample_response_def)
  with s w show ?thesis by blast
qed

section \<open>From the files to the answer\<close>

text \<open>
  The sources of the configured URLs, each loaded once in some order of its map. The composite
  source of the SDK is the list of their policies in the order of the URLs.
\<close>

definition loaded_sources :: "('e, 'ast, 'in, 'v) cel_compiler \<Rightarrow> (policy_ptr \<rightharpoonup> PolicyException list) list
    \<Rightarrow> (policy_ptr list \<times> ('in, 'v) compiledPolicy list) list \<Rightarrow> bool" where
  "loaded_sources C providers loads \<longleftrightarrow>
     list_all2 (\<lambda>m (it, ps). iterates it m \<and> static_Load C m it = Ret (Inr ps)) providers loads"

lemma list_all2_left: "list_all2 P xs ys \<Longrightarrow> x \<in> set xs \<Longrightarrow> \<exists>y \<in> set ys. P x y"
  by (induction rule: list_all2_induct) auto

lemma file_policy_served:
  assumes "GetExternalSources A Lookup urls = Inr providers" and "loaded_sources C providers loads"
    and "url \<in> set urls" and "Lookup url = Inr (walk, ReadFile)" and "LoadPolicies A walk ReadFile = (policies, exs)"
    and "policy \<in> set policies"
    and "Compile C policy (match_exceptions policy exs) = Ret (cp, [])"
  shows "cp \<in> set (concat (map snd loads))"
proof -
  let ?m = "newStatic (enumerate 0 policies) exs"
  from list_all2_left [OF assms(1) [unfolded GetExternalSources_ok] assms(3)] have "?m \<in> set providers"
    by (auto simp: assms(4,5))
  from list_all2_left [OF assms(2) [unfolded loaded_sources_def] this] obtain it ps
    where l: "(it, ps) \<in> set loads" "iterates it ?m" "static_Load C ?m it = Ret (Inr ps)" by auto
  from assms(6) obtain i where "i < length policies" "policies ! i = policy" by (auto simp: in_set_conv_nth)
  then have i: "(i, policy) \<in> set (enumerate 0 policies)" by (auto simp: in_set_enumerate_eq)
  then have m: "?m (i, policy) = Some (match_exceptions policy exs)" by (simp add: newStatic_lookup)
  with l(2) have "(i, policy) \<in> set it" by (simp add: iterates_lookup)
  from list_all2_left [OF l(3) [unfolded static_Load_ok] this] assms(7) m have "cp \<in> set ps" by auto
  with l(1) show ?thesis by (auto intro!: bexI [of _ "(it, ps)"])
qed

text \<open>
  C3. From the files to the HTTP answer: a policy in a file of one of the configured sources that,
  compiled with the exceptions of that source that match it, denies a request makes a server with
  the default output expression answer 403 with its reason, whatever the order in which the maps
  were read, provided no two of the loaded policies contradict each other on the request and the
  method, host, path and scheme of the request are valid UTF-8. The variables of the policy may be
  listed so that each reads only earlier ones; their number is the depth to which it is evaluated.
\<close>

theorem denial_in_a_file_denies:
  assumes "GetExternalSources A Lookup urls = Inr providers" and "loaded_sources C providers loads"
    and "url \<in> set urls" and "Lookup url = Inr (walk, ReadFile)" and "LoadPolicies A walk ReadFile = (policies, exs)"
    and "policy \<in> set policies" and "Compile C policy (match_exceptions policy exs) = Ret (cp, [])"
    and "vars_ordered (variables cp) order" and "length order \<le> fuel"
    and "policy_says (length order) V q cp = Decided (Some d)" and "resp_Ok d = None" and "resp_Denied d = Some x"
    and "\<forall>p \<in> set (concat (map snd loads)). \<forall>p' \<in> set (concat (map snd loads)). \<not> conflict fuel V q p p'"
    and "NewHttpServer L R (http_engine core named evaluate (concat (map snd loads))) config = Inr s"
    and "dispatch_law core" and "evaluates_policies fuel V (concat (map snd loads)) evaluate"
    and "c_OutputExpression config = []" and "default_expression_law L no_field"
    and "multierr_law V" and "\<forall>p \<in> set (concat (map snd loads)). no_nil_values fuel V p q"
    and "http_read (hs_handler s) r = Inr q" and "w_Status w = None" and "w_Body w = []"
    and "vector_law (rr_vectors R)" and "ServeHTTP (hs_handler s) it r w = (w', panic)"
    and "\<forall>l \<in> set (http_labels q). utf8_valid l"
  shows "panic = None \<and> final_status w' = 403 \<and> w_Body w' = Reason x"
proof -
  have "policy_says fuel V q cp = Decided (Some d)"
    by (rule trans [OF policy_says_fuel [OF assms(8,9)] assms(10)])
  with no_conflict_verdict [OF assms(13) file_policy_served [OF assms(1-7)]]
  have v: "request_verdict fuel V (concat (map snd loads)) q = Decided (Some d)" by simp
  then have "\<forall>y. request_verdict fuel V (concat (map snd loads)) q = Decided (Some y) \<longrightarrow> (resp_Ok y = None) \<noteq> (resp_Denied y = None)"
    using assms(11,12) by simp
  from http_server_verdict [OF assms(14-20) this assms(21-25)] v assms(12,26) show ?thesis by simp
qed

text \<open>A compiler of responses: the expression \<open>deny\<close> is a denial.\<close>

definition deny_compiler :: "(env_option list, cel_type \<times> ('in, CheckResponse option) program, 'in, CheckResponse option) cel_compiler" where
  "deny_compiler = \<lparr>cel_NewEnv = Inr, cel_Extend = (\<lambda>e opts. Inr (e @ opts)), image_loader_error = None,
     env_provider = (\<lambda>_. \<lparr>inner_EnumValue = (\<lambda>_. None), inner_FindIdent = (\<lambda>_. None),
       inner_FindStructType = (\<lambda>_. None), inner_FindStructFieldNames = (\<lambda>_. None),
       inner_FindStructFieldType = (\<lambda>_ _. None), inner_NewValue = (\<lambda>_ _. None)\<rparr>),
     env_Compile = (\<lambda>_ _ expr. if expr = ''deny'' then Inr (http_ResponseType, \<lambda>_. (Some (Some (sample_response False)), None))
       else Inl (Errorf ''syntax error'')),
     OutputType = fst, env_Program = (\<lambda>_ ast. Inr (snd ast)),
     http_ContextType = OpaqueType ''http.Context'', imagedata_ContextType = OpaqueType ''imagedata.Context'',
     resource_ContextType = OpaqueType ''resource.Context''\<rparr>"

definition deny_fs_api :: "string fs_api" where
  "deny_fs_api = sample_fs_api\<lparr>to_policy := (\<lambda>d. Inr (sample_vpol\<lparr>vp_name := d, vp_matchConditions := [],
     vp_variables := [], vp_validations := [''deny'']\<rparr>))\<rparr>"

definition deny_walk :: "walk_call list" where
  "deny_walk = [\<lparr>wc_path = ''p.yaml'', wc_entry = Some \<lparr>de_Name = ''p.yaml'', de_IsDir = False\<rparr>, wc_err = None\<rparr>]"

definition deny_policy :: ValidatingPolicy where
  "deny_policy = sample_vpol\<lparr>vp_name := ''deny-all'', vp_matchConditions := [], vp_variables := [], vp_validations := [''deny'']\<rparr>"

definition deny_rule :: "('in, CheckResponse option) compiledPolicy" where
  "deny_rule = \<lparr>cp_name = ''deny-all'', failurePolicy = Fail, matchConditions = [], variables = Map.empty,
     rules = [\<lambda>_. (Some (Some (sample_response False)), None)], exceptions = []\<rparr>"

lemma deny_loads: "LoadPolicies deny_fs_api deny_walk (\<lambda>_. Inr ''deny-all'') = ([deny_policy], [])"
  by (simp add: LoadPolicies_def deny_walk_def deny_fs_api_def walk_fn_def getDocuments_def sample_fs_api_def
      load_document_def deny_policy_def)

lemma deny_compiles: "Compile deny_compiler deny_policy [] = Ret (deny_rule, [])"
  by (simp add: Compile_def compile_def deny_compiler_def deny_policy_def deny_rule_def sample_compile_defs Let_def
      http_ResponseType_def)

lemma deny_ordered: "vars_ordered (variables deny_rule) []"
  by (simp add: vars_ordered_def deny_rule_def)

lemma deny_says: "policy_says fuel response_api q deny_rule = Decided (Some (sample_response False))"
  by (simp add: policy_says_def policy_verdict_def deny_rule_def rule_verdict_def response_api_def rule_data_def
      setupVariables_def)

lemma deny_rule_no_nil: "no_nil_values fuel response_api deny_rule q"
  by (simp add: no_nil_values_def deny_rule_def)

theorem denial_in_a_file_denies_witness:
  "\<exists>s w' panic.
     NewHttpServer sample_server_cel sample_reader
       (http_engine sample_core (\<lambda>p. Some (cp_name p)) sample_evaluate_policy [deny_rule]) sample_config = Inr s
     \<and> ServeHTTP (hs_handler s) [] (sample_request_to ''/'') fresh_world = (w', panic)
     \<and> final_status w' = 403 \<and> w_Body w' = ''no''"
proof -
  let ?named = "\<lambda>p. Some (cp_name p)" and ?it = "[(0, deny_policy)] :: policy_ptr list"
  let ?m = "newStatic (enumerate 0 [deny_policy]) []" and ?read = "\<lambda>_ :: string. Inr ''deny-all'' :: go_error + string"
  let ?loads = "[(?it, [deny_rule])]"
  have get: "GetExternalSources deny_fs_api (\<lambda>_. Inr (deny_walk, ?read)) [''file://policies''] = Inr [?m]"
    by (simp add: deny_loads)
  have loads: "loaded_sources deny_compiler [?m] ?loads"
    by (auto simp: loaded_sources_def iterates_def newStatic_lookup deny_compiles split: if_splits)
  obtain s where s: "NewHttpServer sample_server_cel sample_reader
      (http_engine sample_core ?named sample_evaluate_policy (concat (map snd ?loads))) sample_config = Inr s"
    and read: "http_read (hs_handler s) = http_read sample_authorizer"
    by (rule sample_server)
  obtain w' panic where w: "ServeHTTP (hs_handler s) [] (sample_request_to ''/'') fresh_world = (w', panic)" by fastforce
  obtain q where q: "http_read sample_authorizer (sample_request_to ''/'') = Inr q"
    using sample_http_read by blast
  have d: "resp_Ok (sample_response False) = None" "resp_Denied (sample_response False) = Some \<lparr>Reason = ''no''\<rparr>"
    by (simp_all add: sample_response_def)
  have compiles: "Compile deny_compiler deny_policy (match_exceptions deny_policy []) = Ret (deny_rule, [])"
    by (simp add: deny_compiles)
  have valid: "\<forall>l \<in> set (http_labels q). utf8_valid l"
    using sample_labels_valid [OF q] by (simp add: labels_valid_def utf8_valid_ascii)
  have agree: "\<forall>p \<in> set (concat (map snd ?loads)). \<forall>p' \<in> set (concat (map snd ?loads)). \<not> conflict 0 response_api q p p'"
    by (simp add: conflict_def)
  have nil: "\<forall>p \<in> set (concat (map snd ?loads)). no_nil_values 0 response_api p q" by (simp add: deny_rule_no_nil)
  have "final_status w' = 403 \<and> w_Body w' = ''no''"
    using denial_in_a_file_denies [OF get loads _ refl deny_loads _ compiles deny_ordered _ deny_says d agree s sample_core_law
        sample_evaluates _ sample_default_expression response_api_law nil _ _ _ sample_reader_vectors w valid] q read
    by (simp add: sample_config_def fresh_world_def)
  with s w show ?thesis by simp
qed

text \<open>
  C2. From the policies to the Envoy answer: a server that could listen returns for a check the
  response of the policies' verdict, its error when a policy that fails closed errs first, and
  the empty, allowing response when no policy speaks to the request.
\<close>

theorem envoy_server_answers_verdict:
  assumes "NewEnvoyServer Listen (envoy_engine core named evaluate ps) network addr = Inr s"
    and "dispatch_law core" and "evaluates_policies fuel V ps evaluate"
    and "multierr_law V" and "\<forall>p \<in> set ps. no_nil_values fuel V p r"
    and "Check (es_service s) r w = ((response, err), w')"
  shows "(response, err) =
    (case request_verdict fuel V ps r of
       Errored e \<Rightarrow> (empty_response, Some e)
     | Decided (Some x) \<Rightarrow> (x, None)
     | _ \<Rightarrow> (empty_response, None))"
proof -
  have "\<forall>m. fst (s_engine (es_service s) r m) = fst (envoy_engine core named evaluate ps r (e_metrics w))"
    using dispatch_law_metrics_irrelevant [OF assms(2)] NewEnvoyServer_ok [OF assms(1)] by (simp add: envoy_engine_def)
  from envoy_answer_is_verdict [OF envoy_engine_serves [OF assms(2,3)] assms(4,5) this assms(6)] show ?thesis .
qed

theorem envoy_server_answers_verdict_witness:
  "\<exists>(s :: unit envoy_server) w'. es_listener s = (''tcp'', '':9081'')
     \<and> Check (es_service s) None \<lparr>e_events = [], e_metrics = zero_metrics\<rparr> = ((empty_response, Some (Errorf ''boom'')), w')"
proof -
  let ?ps = "[rule_policy Fail (\<lambda>_. (None, None)), rule_policy Fail (\<lambda>_. (None, Some (Errorf ''boom'')))]
    :: (envoy_request, unit EnvoyResponse option) compiledPolicy list"
  obtain s where s: "NewEnvoyServer (\<lambda>_ _. None) (envoy_engine sample_core (\<lambda>p. Some (cp_name p)) sample_evaluate_policy ?ps)
      ''tcp'' '':9081'' = Inr s" and l: "es_listener s = (''tcp'', '':9081'')"
    by (simp add: NewEnvoyServer_def Let_def)
  let ?w = "\<lparr>e_events = [], e_metrics = zero_metrics\<rparr> :: unit envoy_world"
  obtain response err w' where c: "Check (es_service s) None ?w = ((response, err), w')" by (metis surj_pair)
  have v: "request_verdict 0 response_api ?ps None = Errored (Errorf ''boom'')"
    by (simp add: rule_policy_verdict) (simp add: rule_policy_def)
  have nil: "\<forall>p \<in> set ?ps. no_nil_values 0 response_api p None" by (simp add: rule_policy_no_nil)
  have "(response, err) = (empty_response, Some (Errorf ''boom''))"
    using envoy_server_answers_verdict [OF s sample_core_law sample_evaluates response_api_law nil c] v by simp
  with c l show ?thesis by blast
qed

end
